theory Spec2Isabelle
  imports Complex_Main
begin

section \<open>JavaScript values\<close>

text \<open>
  A JavaScript string is a sequence of UTF-16 code units, so that \<open>length\<close> and
  \<open>take\<close> count what \<open>.length\<close> and \<open>.slice(0, n)\<close> count. \<open>js\<close> embeds an
  ASCII literal; the Chinese literals of the source are spelled out as code units.
\<close>

type_synonym jsstring = "nat list"

definition js :: "string \<Rightarrow> jsstring" where
  "js s = map of_char s"

text \<open>
  The values \<open>JSON.parse\<close> produces. A \<open>JObj\<close> lists the own properties of the object
  in enumeration order. \<open>undefined\<close> is not a JSON value: a possibly undefined value is a
  \<open>json option\<close>, with \<open>None\<close> for \<open>undefined\<close>.
\<close>

datatype json =
    JNull
  | JBool bool
  | JNum rat
  | JStr jsstring
  | JArr "json list"
  | JObj "(jsstring \<times> json) list"

type_synonym jsval = "json option"

text \<open>A thrown value: \<open>e.name\<close> and \<open>e.message\<close>.\<close>

datatype js_error = JsError (ename: jsstring) (emessage: jsstring)

definition Error :: "jsstring \<Rightarrow> js_error" where
  "Error m = JsError (js ''Error'') m"

definition TypeError :: "jsstring \<Rightarrow> js_error" where
  "TypeError m = JsError (js ''TypeError'') m"

text \<open>The messages of the TypeErrors are those of V8, the engine the extension runs on.\<close>

definition null_read :: "string \<Rightarrow> js_error" where
  "null_read k = TypeError (js ''Cannot read properties of null (reading '' @ [39] @ js k @ [39] @ js '')'')"

definition not_a_function :: "string \<Rightarrow> js_error" where
  "not_a_function what = TypeError (js what @ js '' is not a function'')"

text \<open>
  What the program takes from the JavaScript runtime and not from its own code:
  \<open>JSON.parse\<close> (\<open>Inl\<close> is the SyntaxError it throws), \<open>JSON.stringify\<close>, the conversion
  of a number to a string and of a string to a number (\<open>None\<close> is NaN),
  \<open>URLSearchParams.prototype.toString\<close> and the SHA-512 digest in lower-case hex.
\<close>

record runtime =
  json_parse :: "jsstring \<Rightarrow> js_error + json"
  json_stringify :: "json \<Rightarrow> jsstring"
  number_to_string :: "rat \<Rightarrow> jsstring"
  string_to_number :: "jsstring \<Rightarrow> rat option"
  url_params :: "(jsstring \<times> jsstring) list \<Rightarrow> jsstring"
  sha512_hex :: "jsstring \<Rightarrow> jsstring"

fun truthy :: "json \<Rightarrow> bool" where
  "truthy JNull = False"
| "truthy (JBool b) = b"
| "truthy (JNum n) = (n \<noteq> 0)"
| "truthy (JStr s) = (s \<noteq> [])"
| "truthy (JArr xs) = True"
| "truthy (JObj kvs) = True"

fun truthy_val :: "jsval \<Rightarrow> bool" where
  "truthy_val None = False"
| "truthy_val (Some v) = truthy v"

text \<open>The operator \<^verbatim>\<open>a || b\<close>.\<close>

definition js_or :: "jsval \<Rightarrow> jsval \<Rightarrow> jsval" where
  "js_or a b = (if truthy_val a then a else b)"

text \<open>
  \<open>v.k\<close> for a value \<open>v\<close> that is not \<open>null\<close> and a key \<open>k\<close> that names no built-in
  member (\<open>length\<close>, an index, a method): only an object has such a property.
\<close>

fun field :: "json \<Rightarrow> jsstring \<Rightarrow> jsval" where
  "field (JObj kvs) k = map_of kvs k"
| "field v k = None"

text \<open>Optional chaining, \<^verbatim>\<open>v?.k\<close>.\<close>

fun opt_prop :: "jsval \<Rightarrow> jsstring \<Rightarrow> jsval" where
  "opt_prop None k = None"
| "opt_prop (Some JNull) k = None"
| "opt_prop (Some v) k = field v k"

text \<open>
  \<open>obj.k = v\<close> on an object: an existing property keeps its place, a new one goes last.
  Storing \<open>undefined\<close> is modelled as the property being absent, which is how
  every read of this development and \<open>JSON.stringify\<close> see it.
\<close>

fun set_prop :: "(jsstring \<times> json) list \<Rightarrow> jsstring \<Rightarrow> jsval \<Rightarrow> (jsstring \<times> json) list" where
  "set_prop kvs k None = filter (\<lambda>kv. fst kv \<noteq> k) kvs"
| "set_prop kvs k (Some v) =
     (if k \<in> fst ` set kvs then map (\<lambda>kv. if fst kv = k then (k, v) else kv) kvs
      else kvs @ [(k, v)])"

subsection \<open>Strings\<close>

definition startsWith :: "jsstring \<Rightarrow> jsstring \<Rightarrow> bool" where
  "startsWith s p = (take (length p) s = p)"

fun str_includes :: "jsstring \<Rightarrow> jsstring \<Rightarrow> bool" where
  "str_includes [] p = (p = [])"
| "str_includes (c # s) p = (startsWith (c # s) p \<or> str_includes s p)"

text \<open>
  \<open>toLowerCase\<close>, one code unit at a time: ASCII and Latin-1 capitals, and the two
  capitals outside Latin-1 whose lower case has an ASCII letter (U+0130, U+212A). The
  other case pairs of Unicode are left as they are; none of them yields an ASCII letter.
\<close>

definition lower_unit :: "nat \<Rightarrow> jsstring" where
  "lower_unit c =
     (if 65 \<le> c \<and> c \<le> 90 then [c + 32]
      else if 192 \<le> c \<and> c \<le> 222 \<and> c \<noteq> 215 then [c + 32]
      else if c = 304 then [105, 775]
      else if c = 8490 then [107]
      else [c])"

definition toLowerCase :: "jsstring \<Rightarrow> jsstring" where
  "toLowerCase s = concat (map lower_unit s)"

function show_nat :: "nat \<Rightarrow> jsstring" where
  "show_nat n = (if n < 10 then [48 + n] else show_nat (n div 10) @ [48 + n mod 10])"
  by pat_completeness auto
termination
  by (relation "measure (\<lambda>n. n)") auto

declare show_nat.simps [simp del]

text \<open>The conversion \<^verbatim>\<open>String(v)\<close>, which a template literal also applies; an array is joined with commas.\<close>

fun join_with :: "jsstring \<Rightarrow> jsstring list \<Rightarrow> jsstring" where
  "join_with sep [] = []"
| "join_with sep [x] = x"
| "join_with sep (x # y # ys) = x @ sep @ join_with sep (y # ys)"

fun ToString :: "runtime \<Rightarrow> json \<Rightarrow> jsstring" where
  "ToString rt JNull = js ''null''"
| "ToString rt (JBool b) = (if b then js ''true'' else js ''false'')"
| "ToString rt (JNum n) = number_to_string rt n"
| "ToString rt (JStr s) = s"
| "ToString rt (JArr xs) =
     join_with (js '','') (map (\<lambda>x. if x = JNull then [] else ToString rt x) xs)"
| "ToString rt (JObj kvs) = js ''[object Object]''"

definition Str :: "runtime \<Rightarrow> jsval \<Rightarrow> jsstring" where
  "Str rt v = (case v of None \<Rightarrow> js ''undefined'' | Some x \<Rightarrow> ToString rt x)"

section \<open>The resource client (extension/lib/zstack.js)\<close>

text \<open>
  A request as \<open>fetch\<close> receives it: the method, the URL, the Authorization header
  (the Content-Type header is the same on every request) and the serialized body.
\<close>

record http_request =
  req_method :: jsstring
  req_url :: jsstring
  req_authorization :: "jsstring option"
  req_body :: "jsstring option"

text \<open>A response: its status, and what \<open>res.text()\<close> settles to.\<close>

record http_reply =
  status :: nat
  body_text :: "js_error + jsstring"

definition ok :: "http_reply \<Rightarrow> bool" where
  "ok res = (200 \<le> status res \<and> status res \<le> 299)"

text \<open>
  The server, as one call of a client method sees it: what the \<open>k\<close>-th \<open>fetch\<close> of the
  client settles to (\<open>Inl\<close>: the promise rejects, a transport error). Every theorem
  holds for every such sequence.
\<close>

type_synonym server = "nat \<Rightarrow> js_error + http_reply"

text \<open>
  The fields of \<open>ZStackClient\<close>; \<open>sent\<close> is not a field of the class but the requests
  passed to \<open>fetch\<close> so far, oldest first.
\<close>

record zclient =
  endpoint :: jsstring
  sessionId :: jsval
  accountName :: "jsstring option"
  password :: "jsstring option"
  relogging :: bool
  sent :: "http_request list"

type_synonym result = "(js_error + json) \<times> zclient"

definition fetch :: "server \<Rightarrow> http_request \<Rightarrow> zclient \<Rightarrow> (js_error + http_reply) \<times> zclient" where
  "fetch srv req c = (srv (length (sent c)), c\<lparr>sent := sent c @ [req]\<rparr>)"

definition isLoggedIn :: "zclient \<Rightarrow> bool" where
  "isLoggedIn c = truthy_val (sessionId c)"

definition headers :: "runtime \<Rightarrow> zclient \<Rightarrow> jsstring option" where
  "headers rt c =
     (if truthy_val (sessionId c) then Some (js ''OAuth '' @ Str rt (sessionId c)) else None)"

definition handleResponse :: "runtime \<Rightarrow> http_reply \<Rightarrow> js_error + json" where
  "handleResponse rt res =
     (case body_text res of
        Inl e \<Rightarrow> Inl e
      | Inr t \<Rightarrow>
          (let data = (case json_parse rt t of Inl e \<Rightarrow> JStr t | Inr d \<Rightarrow> d) in
           if \<not> ok res then
             (let msg =
                js_or (js_or (js_or
                  (opt_prop (opt_prop (Some data) (js ''error'')) (js ''details''))
                  (opt_prop (opt_prop (Some data) (js ''error'')) (js ''description'')))
                  (case data of
                     JStr s \<Rightarrow> if length s < 200 then Some data else Some JNull
                   | _ \<Rightarrow> Some JNull))
                  (Some (JStr (js ''HTTP '' @ show_nat (status res))))
              in Inl (Error (Str rt msg)))
           else Inr data))"

text \<open>
  The body of the \<open>requestFn\<close> closures of \<open>_get\<close>, \<open>_rawPost\<close>, \<open>_put\<close> and
  \<open>_delete\<close>: one \<open>fetch\<close> with the headers of the moment, then \<open>_handleResponse\<close>.
\<close>

definition request_of :: "runtime \<Rightarrow> jsstring \<Rightarrow> jsstring \<Rightarrow> jsval \<Rightarrow> zclient \<Rightarrow> http_request" where
  "request_of rt meth path body c =
     \<lparr>req_method = meth, req_url = endpoint c @ js ''/zstack'' @ path,
      req_authorization = headers rt c,
      req_body = map_option (json_stringify rt) body\<rparr>"

definition request :: "runtime \<Rightarrow> server \<Rightarrow> jsstring \<Rightarrow> jsstring \<Rightarrow> jsval \<Rightarrow> zclient \<Rightarrow> result" where
  "request rt srv meth path body c =
     (let (r, c') = fetch srv (request_of rt meth path body c) c
      in (case r of Inl e \<Rightarrow> Inl e | Inr res \<Rightarrow> handleResponse rt res, c'))"

definition LOGIN_FAILED :: jsstring where
  "LOGIN_FAILED = [0x767B, 0x5F55, 0x5931, 0x8D25, 0xFF1A, 0x672A, 0x83B7, 0x53D6, 0x5230, 0x20]
     @ js ''session''"

definition isExpiry :: "js_error \<Rightarrow> bool" where
  "isExpiry e =
     (let msg = toLowerCase (emessage e) in
      str_includes msg (js ''session'') \<or> str_includes msg (js ''token'') \<or>
      str_includes msg (js ''401'') \<or> str_includes msg (js ''403''))"

text \<open>The body of the login request: \<^verbatim>\<open>{ logInByAccount: { accountName, password: hashedPassword } }\<close>.\<close>

definition login_body :: "jsstring \<Rightarrow> jsstring \<Rightarrow> json" where
  "login_body a hashedPassword =
     JObj [(js ''logInByAccount'',
            JObj [(js ''accountName'', JStr a), (js ''password'', JStr hashedPassword)])]"

text \<open>
  \<open>login\<close>, \<open>_relogin\<close>, \<open>_withRetry\<close> and \<open>_rawPost\<close> call each other in the source:
  a request wrapped by \<open>_withRetry\<close> may re-login, and the login is itself a
  \<open>_rawPost\<close>. The recursion ends because \<open>_rawPost\<close> skips the wrapper on a login path.
\<close>

function
  login :: "runtime \<Rightarrow> server \<Rightarrow> jsstring \<Rightarrow> jsstring \<Rightarrow> zclient \<Rightarrow> result" and
  relogin :: "runtime \<Rightarrow> server \<Rightarrow> zclient \<Rightarrow> bool \<times> zclient" and
  withRetry :: "runtime \<Rightarrow> server \<Rightarrow> (zclient \<Rightarrow> result) \<Rightarrow> zclient \<Rightarrow> result" and
  rawPost :: "runtime \<Rightarrow> server \<Rightarrow> jsstring \<Rightarrow> jsval \<Rightarrow> zclient \<Rightarrow> result"
where
  "login rt srv a p c =
     (let c1 = c\<lparr>accountName := Some a, password := Some p\<rparr>;
          hashedPassword = sha512_hex rt p;
          (r, c2) = rawPost rt srv (js ''/v1/accounts/login'') (Some (login_body a hashedPassword)) c1
      in case r of
           Inl e \<Rightarrow> (Inl e, c2)
         | Inr JNull \<Rightarrow> (Inl (null_read ''inventory''), c2)
         | Inr res \<Rightarrow>
             (let c3 = c2\<lparr>sessionId := opt_prop (field res (js ''inventory'')) (js ''uuid'')\<rparr> in
              if \<not> truthy_val (sessionId c3) then (Inl (Error LOGIN_FAILED), c3)
              else (Inr res, c3)))"
| "relogin rt srv c =
     (case (accountName c, password c) of
        (Some a, Some p) \<Rightarrow>
          if relogging c \<or> a = [] \<or> p = [] then (False, c)
          else
            (let c1 = c\<lparr>relogging := True\<rparr>;
                 c2 = c1\<lparr>sessionId := Some JNull\<rparr>;
                 (r, c3) = login rt srv a p c2
             in (case r of Inl e \<Rightarrow> False | Inr res \<Rightarrow> True, c3\<lparr>relogging := False\<rparr>))
      | _ \<Rightarrow> (False, c))"
| "withRetry rt srv requestFn c =
     (let (r, c1) = requestFn c in
      case r of
        Inr v \<Rightarrow> (Inr v, c1)
      | Inl e \<Rightarrow>
          if isExpiry e \<and> \<not> relogging c1 then
            (let (success, c2) = relogin rt srv c1 in
             if success then requestFn c2 else (Inl e, c2))
          else (Inl e, c1))"
| "rawPost rt srv path body c =
     (let isLogin = str_includes path (js ''/accounts/login'');
          doRequest = request rt srv (js ''POST'') path body
      in if isLogin then doRequest c else withRetry rt srv doRequest c)"
  by pat_completeness auto

termination
  by (relation "measure (\<lambda>x. case x of
         Inl (Inl a) \<Rightarrow> 1
       | Inl (Inr b) \<Rightarrow> 2
       | Inr (Inl d) \<Rightarrow> 3
       | Inr (Inr (rt, srv, path, body, c)) \<Rightarrow>
           if str_includes path (js ''/accounts/login'') then 0 else 4)")
     (simp_all add: startsWith_def js_def)

declare login.simps [simp del] relogin.simps [simp del] withRetry.simps [simp del]
  rawPost.simps [simp del]

definition priv_get :: "runtime \<Rightarrow> server \<Rightarrow> jsstring \<Rightarrow> zclient \<Rightarrow> result" where
  "priv_get rt srv path c = withRetry rt srv (request rt srv (js ''GET'') path None) c"

definition priv_put :: "runtime \<Rightarrow> server \<Rightarrow> jsstring \<Rightarrow> jsval \<Rightarrow> zclient \<Rightarrow> result" where
  "priv_put rt srv path body c = withRetry rt srv (request rt srv (js ''PUT'') path body) c"

definition priv_delete :: "runtime \<Rightarrow> server \<Rightarrow> jsstring \<Rightarrow> zclient \<Rightarrow> result" where
  "priv_delete rt srv path c = withRetry rt srv (request rt srv (js ''DELETE'') path None) c"

text \<open>
  The generic methods. An argument is any JavaScript value, \<open>None\<close> when it is left out;
  a default parameter value replaces \<open>undefined\<close> only.
\<close>

definition query ::
  "runtime \<Rightarrow> server \<Rightarrow> jsval \<Rightarrow> jsval \<Rightarrow> jsval \<Rightarrow> jsval \<Rightarrow> jsval \<Rightarrow> jsval \<Rightarrow> zclient \<Rightarrow> result" where
  "query rt srv resourcePath conditions0 limit0 start0 sortBy sortDirection c =
     (let conditions = (case conditions0 of None \<Rightarrow> Some (JArr []) | Some v \<Rightarrow> Some v);
          limit = (case limit0 of None \<Rightarrow> Some (JNum 100) | Some v \<Rightarrow> Some v);
          start = (case start0 of None \<Rightarrow> Some (JNum 0) | Some v \<Rightarrow> Some v);
          params = [(js ''limit'', Str rt limit)]
            @ (if truthy_val start then [(js ''start'', Str rt start)] else [])
            @ (if truthy_val sortBy
               then [(js ''sort'',
                      (if sortDirection = Some (JStr (js ''desc'')) then js ''-'' else js ''+'')
                        @ Str rt sortBy)]
               else [])
      in case conditions of
           Some (JArr cs) \<Rightarrow>
             priv_get rt srv
               (js ''/'' @ Str rt resourcePath @ js ''?''
                  @ url_params rt (params @ map (\<lambda>x. (js ''q'', ToString rt x)) cs)) c
         | Some JNull \<Rightarrow> (Inl (null_read ''forEach''), c)
         | _ \<Rightarrow> (Inl (not_a_function ''conditions.forEach''), c))"

text \<open>
  \<^verbatim>\<open>x.length\<close> and \<^verbatim>\<open>x[0]\<close> of a value that is neither \<open>null\<close> nor \<open>undefined\<close>,
  and the comparison \<^verbatim>\<open>x > 0\<close>, which converts \<open>x\<close> to a number first.
\<close>

fun js_length :: "json \<Rightarrow> jsval" where
  "js_length (JStr s) = Some (JNum (of_nat (length s)))"
| "js_length (JArr xs) = Some (JNum (of_nat (length xs)))"
| "js_length (JObj kvs) = map_of kvs (js ''length'')"
| "js_length v = None"

fun js_first :: "json \<Rightarrow> jsval" where
  "js_first (JStr s) = (case s of [] \<Rightarrow> None | x # xs \<Rightarrow> Some (JStr [x]))"
| "js_first (JArr xs) = (case xs of [] \<Rightarrow> None | x # ys \<Rightarrow> Some x)"
| "js_first (JObj kvs) = map_of kvs (js ''0'')"
| "js_first v = None"

fun ToNumber :: "runtime \<Rightarrow> json \<Rightarrow> rat option" where
  "ToNumber rt JNull = Some 0"
| "ToNumber rt (JBool b) = Some (if b then 1 else 0)"
| "ToNumber rt (JNum n) = Some n"
| "ToNumber rt (JStr s) = string_to_number rt s"
| "ToNumber rt v = string_to_number rt (ToString rt v)"

definition gt_zero :: "runtime \<Rightarrow> jsval \<Rightarrow> bool" where
  "gt_zero rt v =
     (case v of
        None \<Rightarrow> False
      | Some x \<Rightarrow> (case ToNumber rt x of None \<Rightarrow> False | Some n \<Rightarrow> 0 < n))"

definition get :: "runtime \<Rightarrow> server \<Rightarrow> jsval \<Rightarrow> jsval \<Rightarrow> zclient \<Rightarrow> result" where
  "get rt srv resourcePath uuid c =
     (let (r, c') = priv_get rt srv (js ''/'' @ Str rt resourcePath @ js ''/'' @ Str rt uuid) c in
      case r of
        Inl e \<Rightarrow> (Inl e, c')
      | Inr JNull \<Rightarrow> (Inl (null_read ''inventory''), c')
      | Inr (JObj kvs) \<Rightarrow>
          (let inventories = map_of kvs (js ''inventories'') in
           if \<not> truthy_val (map_of kvs (js ''inventory'')) \<and>
              (case inventories of
                 None \<Rightarrow> False
               | Some JNull \<Rightarrow> False
               | Some invs \<Rightarrow> gt_zero rt (js_length invs))
           then (Inr (JObj (set_prop kvs (js ''inventory'')
                         (case inventories of None \<Rightarrow> None | Some invs \<Rightarrow> js_first invs))), c')
           else (Inr (JObj kvs), c'))
      | Inr data \<Rightarrow> (Inr data, c'))"

definition create :: "runtime \<Rightarrow> server \<Rightarrow> jsval \<Rightarrow> jsval \<Rightarrow> zclient \<Rightarrow> result" where
  "create rt srv resourcePath body c = rawPost rt srv (js ''/'' @ Str rt resourcePath) body c"

definition update :: "runtime \<Rightarrow> server \<Rightarrow> jsval \<Rightarrow> jsval \<Rightarrow> jsval \<Rightarrow> zclient \<Rightarrow> result" where
  "update rt srv resourcePath uuid body c =
     priv_put rt srv (js ''/'' @ Str rt resourcePath @ js ''/'' @ Str rt uuid) body c"

definition remove :: "runtime \<Rightarrow> server \<Rightarrow> jsval \<Rightarrow> jsval \<Rightarrow> jsval \<Rightarrow> zclient \<Rightarrow> result" where
  "remove rt srv resourcePath uuid deleteMode0 c =
     (let deleteMode = (case deleteMode0 of None \<Rightarrow> Some (JStr (js ''Permissive'')) | Some v \<Rightarrow> Some v)
      in priv_delete rt srv
           (js ''/'' @ Str rt resourcePath @ js ''/'' @ Str rt uuid @ js ''?deleteMode=''
              @ Str rt deleteMode) c)"

definition action :: "runtime \<Rightarrow> server \<Rightarrow> jsval \<Rightarrow> jsval \<Rightarrow> jsval \<Rightarrow> zclient \<Rightarrow> result" where
  "action rt srv resourcePath uuid body c =
     priv_put rt srv (js ''/'' @ Str rt resourcePath @ js ''/'' @ Str rt uuid @ js ''/actions'') body c"

definition zql :: "runtime \<Rightarrow> server \<Rightarrow> jsval \<Rightarrow> zclient \<Rightarrow> result" where
  "zql rt srv q c = priv_get rt srv (js ''/v1/zql?'' @ url_params rt [(js ''zql'', Str rt q)]) c"

text \<open>The class declares \<open>getVersion\<close> twice; the later declaration is the method.\<close>

definition getVersion :: "runtime \<Rightarrow> server \<Rightarrow> zclient \<Rightarrow> result" where
  "getVersion rt srv c =
     (let (r, c') = priv_put rt srv (js ''/v1/management-nodes/actions'')
                      (Some (JObj [(js ''getVersion'', JObj [])])) c
      in case r of
           Inl e \<Rightarrow> (Inr (JObj [(js ''version'', JStr (js ''unknown''))]), c')
         | Inr res \<Rightarrow> (Inr res, c'))"

definition createVm :: "runtime \<Rightarrow> server \<Rightarrow> jsval \<Rightarrow> zclient \<Rightarrow> result" where
  "createVm rt srv params c =
     rawPost rt srv (js ''/v1/vm-instances'')
       (Some (JObj (case params of None \<Rightarrow> [] | Some v \<Rightarrow> [(js ''params'', v)]))) c"

text \<open>
  One call of a method of the client. The convenience methods of the class
  (\<open>queryHosts\<close>, \<open>startVm\<close>, ...) are one-line calls of \<open>query\<close>, \<open>action\<close> and \<open>remove\<close>
  with a literal path.
\<close>

datatype verb =
    Login jsstring jsstring
  | Query jsval jsval jsval jsval jsval jsval
  | Get jsval jsval
  | Create jsval jsval
  | Update jsval jsval jsval
  | Remove jsval jsval jsval
  | Action jsval jsval jsval
  | Zql jsval
  | GetVersion
  | CreateVm jsval

fun call :: "runtime \<Rightarrow> server \<Rightarrow> verb \<Rightarrow> zclient \<Rightarrow> result" where
  "call rt srv (Login a p) c = login rt srv a p c"
| "call rt srv (Query p cs l s sb sd) c = query rt srv p cs l s sb sd c"
| "call rt srv (Get p u) c = get rt srv p u c"
| "call rt srv (Create p b) c = create rt srv p b c"
| "call rt srv (Update p u b) c = update rt srv p u b c"
| "call rt srv (Remove p u m) c = remove rt srv p u m c"
| "call rt srv (Action p u b) c = action rt srv p u b c"
| "call rt srv (Zql q) c = zql rt srv q c"
| "call rt srv GetVersion c = getVersion rt srv c"
| "call rt srv (CreateVm ps) c = createVm rt srv ps c"

subsection \<open>Notions used to state the properties of the client\<close>

text \<open>The request that \<open>login\<close> sends.\<close>

definition login_request :: "runtime \<Rightarrow> jsstring \<Rightarrow> jsstring \<Rightarrow> zclient \<Rightarrow> http_request" where
  "login_request rt a p c =
     request_of rt (js ''POST'') (js ''/v1/accounts/login'') (Some (login_body a (sha512_hex rt p))) c"

text \<open>
  The requests one call of a client method adds to \<open>sent\<close>: at most three; a second
  one is the login request; a third one repeats the first, with the headers of the moment.
\<close>

definition retry_shape :: "zclient \<Rightarrow> http_request list \<Rightarrow> bool" where
  "retry_shape c xs =
     (length xs \<le> 3 \<and>
      (2 \<le> length xs \<longrightarrow>
         req_method (xs ! 1) = js ''POST'' \<and>
         req_url (xs ! 1) = endpoint c @ js ''/zstack/v1/accounts/login'') \<and>
      (length xs = 3 \<longrightarrow>
         req_method (xs ! 2) = req_method (xs ! 0) \<and> req_url (xs ! 2) = req_url (xs ! 0) \<and>
         req_body (xs ! 2) = req_body (xs ! 0)))"

text \<open>
  Whether \<open>login\<close> succeeds on what its request settles to: the response is read by
  \<open>_handleResponse\<close> without an error, and \<open>res.inventory?.uuid\<close> is truthy.
\<close>

definition login_accepts :: "runtime \<Rightarrow> js_error + http_reply \<Rightarrow> bool" where
  "login_accepts rt reply =
     (case reply of
        Inl e \<Rightarrow> False
      | Inr res \<Rightarrow>
          (case handleResponse rt res of
             Inl e \<Rightarrow> False
           | Inr JNull \<Rightarrow> False
           | Inr d \<Rightarrow> truthy_val (opt_prop (field d (js ''inventory'')) (js ''uuid''))))"

text \<open>The path that \<^verbatim>\<open>query("vm-instances", [], 5, 0)\<close> requests.\<close>

definition scenario_url :: "runtime \<Rightarrow> jsstring" where
  "scenario_url rt = js ''/vm-instances?'' @ url_params rt [(js ''limit'', number_to_string rt 5)]"


text \<open>
  The session id that \<open>login\<close> stores on what its request settles to:
  \<open>res.inventory?.uuid\<close> of the parsed response.
\<close>

definition login_session :: "runtime \<Rightarrow> js_error + http_reply \<Rightarrow> jsval" where
  "login_session rt reply =
     (case reply of
        Inl e \<Rightarrow> None
      | Inr res \<Rightarrow>
          (case handleResponse rt res of
             Inl e \<Rightarrow> None
           | Inr d \<Rightarrow> opt_prop (field d (js ''inventory'')) (js ''uuid'')))"

text \<open>
  The method calls whose request goes through \<open>_withRetry\<close>: all but \<open>login\<close> itself, a
  \<open>create\<close> whose path holds \<open>/accounts/login\<close> (\<open>_rawPost\<close> sends it unwrapped), and a
  \<open>query\<close> whose \<open>conditions\<close> has no \<open>forEach\<close> (it throws before any request).
\<close>

fun retried :: "runtime \<Rightarrow> verb \<Rightarrow> bool" where
  "retried rt (Login a p) = False"
| "retried rt (Query p cs l s sb sd) =
     (case cs of None \<Rightarrow> True | Some (JArr xs) \<Rightarrow> True | Some other \<Rightarrow> False)"
| "retried rt (Create p b) = (\<not> str_includes (js ''/'' @ Str rt p) (js ''/accounts/login''))"
| "retried rt v = True"
section \<open>The engine (LLMEngine)\<close>

subsection \<open>Tool dispatch\<close>

text \<open>
  The path fix-up of \<open>_executeTool\<close>:
  \<^verbatim>\<open>const fixPath = (p) => p && !p.startsWith('v1/') ? `v1/${p}` : p;\<close>
  The argument is whatever the model put under \<open>resource_path\<close>. A falsy value is
  returned as it is; a truthy value that is not a string has no \<open>startsWith\<close>, and the
  call throws.
\<close>

definition fixPath :: "jsval \<Rightarrow> js_error + jsval" where
  "fixPath p =
     (if \<not> truthy_val p then Inr p
      else case p of
             Some (JStr s) \<Rightarrow>
               if \<not> startsWith s (js ''v1/'') then Inr (Some (JStr (js ''v1/'' @ s))) else Inr p
           | _ \<Rightarrow> Inl (not_a_function ''p.startsWith''))"

text \<open>
  A method call on the configured client object, \<^verbatim>\<open>cli.query(...)\<close>: the method's name and
  the arguments. The engine is given its client by \<open>configure\<close> and knows it only through
  such calls.
\<close>

datatype cli_call = Call jsstring "jsval list"

text \<open>
  The client as the engine meets it: whether one is configured, whether \<open>isLoggedIn()\<close>
  holds when call number \<open>k\<close> of round \<open>i\<close> starts, and what the method call of call \<open>k\<close>
  of round \<open>i\<close> settles to (\<open>Inl\<close>: it throws). Every theorem holds for every client.
\<close>

record client_env =
  client_configured :: bool
  client_logged_in :: "nat \<Rightarrow> nat \<Rightarrow> bool"
  client_result :: "nat \<Rightarrow> nat \<Rightarrow> cli_call \<Rightarrow> js_error + json"

definition NOT_CONNECTED :: jsstring where
  "NOT_CONNECTED = [0x672A, 0x8FDE, 0x63A5, 0x5230] @ js '' ZStack'' @
     [0xFF0C, 0x8BF7, 0x5148, 0x914D, 0x7F6E, 0x5E76, 0x767B, 0x5F55]"

definition UNKNOWN_TOOL :: jsstring where
  "UNKNOWN_TOOL = [0x672A, 0x77E5, 0x5DE5, 0x5177] @ js '': ''"

definition error_obj :: "jsstring \<Rightarrow> json" where
  "error_obj m = JObj [(js ''error'', JStr m)]"

text \<open>
  The \<open>switch\<close> of \<open>_executeTool\<close>, up to the call it makes: \<open>Inl\<close> when evaluating
  the arguments throws (\<open>args\<close> is \<open>null\<close>, or \<open>fixPath\<close> throws), \<open>None\<close> for an unknown
  tool name.
\<close>

definition on_args :: "json \<Rightarrow> string \<Rightarrow> js_error + 'a \<Rightarrow> js_error + 'a" where
  "on_args args k x = (if args = JNull then Inl (null_read k) else x)"

definition with_path :: "json \<Rightarrow> (jsval \<Rightarrow> cli_call) \<Rightarrow> js_error + cli_call option" where
  "with_path args f =
     on_args args ''resource_path''
       (case fixPath (field args (js ''resource_path'')) of
          Inl e \<Rightarrow> Inl e
        | Inr p \<Rightarrow> Inr (Some (f p)))"

definition conditions_query :: "json \<Rightarrow> string \<Rightarrow> js_error + cli_call option" where
  "conditions_query args m =
     on_args args ''conditions''
       (Inr (Some (Call (js m) [js_or (field args (js ''conditions'')) (Some (JArr []))])))"

definition uuid_call :: "json \<Rightarrow> string \<Rightarrow> js_error + cli_call option" where
  "uuid_call args m = on_args args ''uuid'' (Inr (Some (Call (js m) [field args (js ''uuid'')])))"

definition dispatch :: "jsstring \<Rightarrow> json \<Rightarrow> js_error + cli_call option" where
  "dispatch name args =
     (let a = (\<lambda>k. field args (js k)) in
      if name = js ''zstack_query'' then
        with_path args (\<lambda>p. Call (js ''query'')
          [p, js_or (a ''conditions'') (Some (JArr [])), js_or (a ''limit'') (Some (JNum 100)),
           js_or (a ''start'') (Some (JNum 0)), a ''sort_by'', a ''sort_direction''])
      else if name = js ''zstack_get'' then
        with_path args (\<lambda>p. Call (js ''get'') [p, a ''uuid''])
      else if name = js ''zstack_create'' then
        with_path args (\<lambda>p. Call (js ''create'') [p, a ''body''])
      else if name = js ''zstack_delete'' then
        with_path args (\<lambda>p. Call (js ''remove'')
          [p, a ''uuid'', js_or (a ''delete_mode'') (Some (JStr (js ''Permissive'')))])
      else if name = js ''zstack_action'' then
        with_path args (\<lambda>p. Call (js ''action'') [p, a ''uuid'', a ''body''])
      else if name = js ''zstack_update'' then
        with_path args (\<lambda>p. Call (js ''update'') [p, a ''uuid'', a ''body''])
      else if name = js ''zstack_zql'' then
        on_args args ''zql'' (Inr (Some (Call (js ''zql'') [a ''zql''])))
      else if name = js ''query_vms'' then conditions_query args ''queryVmInstances''
      else if name = js ''create_vm'' then
        on_args args ''params'' (Inr (Some (Call (js ''createVm'') [a ''params''])))
      else if name = js ''start_vm'' then uuid_call args ''startVm''
      else if name = js ''stop_vm'' then
        on_args args ''uuid'' (Inr (Some (Call (js ''stopVm'') [a ''uuid'', a ''type''])))
      else if name = js ''reboot_vm'' then uuid_call args ''rebootVm''
      else if name = js ''delete_vm'' then uuid_call args ''deleteVm''
      else if name = js ''migrate_vm'' then
        on_args args ''uuid'' (Inr (Some (Call (js ''migrateVm'') [a ''uuid'', a ''hostUuid''])))
      else if name = js ''query_hosts'' then conditions_query args ''queryHosts''
      else if name = js ''query_images'' then conditions_query args ''queryImages''
      else if name = js ''query_l3_networks'' then conditions_query args ''queryL3Networks''
      else if name = js ''query_instance_offerings'' then conditions_query args ''queryInstanceOfferings''
      else if name = js ''query_volumes'' then conditions_query args ''queryVolumes''
      else if name = js ''query_load_balancers'' then conditions_query args ''queryLoadBalancers''
      else if name = js ''query_vips'' then conditions_query args ''queryVips''
      else if name = js ''query_eips'' then conditions_query args ''queryEips''
      else if name = js ''query_security_groups'' then conditions_query args ''querySecurityGroups''
      else if name = js ''query_vpc_routers'' then conditions_query args ''queryVpcRouters''
      else Inr None)"

text \<open>
  \<open>_executeTool\<close>, call number \<open>k\<close> of round \<open>i\<close>. It returns a value in every case: an
  exception of the argument evaluation or of the client is caught and becomes
  \<^verbatim>\<open>{ error: e.message }\<close>.
\<close>

definition executeTool :: "client_env \<Rightarrow> nat \<Rightarrow> nat \<Rightarrow> jsstring \<Rightarrow> json \<Rightarrow> json" where
  "executeTool cli i k name args =
     (if \<not> client_configured cli \<or> \<not> client_logged_in cli i k then error_obj NOT_CONNECTED
      else case dispatch name args of
             Inl e \<Rightarrow> error_obj (emessage e)
           | Inr None \<Rightarrow> error_obj (UNKNOWN_TOOL @ name)
           | Inr (Some c) \<Rightarrow>
               (case client_result cli i k c of
                  Inl e \<Rightarrow> error_obj (emessage e)
                | Inr v \<Rightarrow> v))"

subsection \<open>The one-line description of a tool call\<close>

text \<open>
  \<open>_formatToolDetail\<close>. It throws where the source calls a method the value does not
  have: \<open>join\<close> on conditions that are not an array, \<open>slice\<close> on an identifier that is
  neither a string nor an array.
\<close>

definition or_empty :: "jsval \<Rightarrow> json" where
  "or_empty v = (case js_or v (Some (JStr [])) of None \<Rightarrow> JStr [] | Some x \<Rightarrow> x)"

text \<open>
  \<^verbatim>\<open>(args.k || '').slice(0, n)\<close>; on a value without \<open>slice\<close> the message names the
  expression, with the empty string in double quotes.
\<close>

definition js_slice :: "string \<Rightarrow> nat \<Rightarrow> json \<Rightarrow> js_error + json" where
  "js_slice k n v =
     (case v of
        JStr s \<Rightarrow> Inr (JStr (take n s))
      | JArr xs \<Rightarrow> Inr (JArr (take n xs))
      | _ \<Rightarrow> Inl (not_a_function (''(args.'' @ k @ '' || '' @ [CHR 0x22, CHR 0x22] @ '').slice'')))"

definition first_key :: "json \<Rightarrow> jsval" where
  "first_key v =
     (case v of
        JObj kvs \<Rightarrow> (case kvs of [] \<Rightarrow> None | kv # r \<Rightarrow> Some (JStr (fst kv)))
      | JStr s \<Rightarrow> (if s = [] then None else Some (JStr (js ''0'')))
      | JArr xs \<Rightarrow> (if xs = [] then None else Some (JStr (js ''0'')))
      | _ \<Rightarrow> None)"

definition path_and_id :: "runtime \<Rightarrow> jsstring \<Rightarrow> json \<Rightarrow> js_error + jsstring" where
  "path_and_id rt label args =
     on_args args ''resource_path''
       (case js_slice ''uuid'' 8 (or_empty (field args (js ''uuid''))) of
          Inl e \<Rightarrow> Inl e
        | Inr u \<Rightarrow>
            Inr (label @ ToString rt (or_empty (field args (js ''resource_path''))) @ js '' ''
                   @ ToString rt u @ js ''...''))"

definition formatToolDetail :: "runtime \<Rightarrow> jsstring \<Rightarrow> json \<Rightarrow> js_error + jsstring" where
  "formatToolDetail rt name args =
     (if name = js ''zstack_query'' then
        on_args args ''resource_path''
          (let prefix = [0x67E5, 0x8BE2, 0x20] @ ToString rt (or_empty (field args (js ''resource_path''))) in
           case field args (js ''conditions'') of
             None \<Rightarrow> Inr prefix
           | Some JNull \<Rightarrow> Inr prefix
           | Some cs \<Rightarrow>
               if \<not> truthy_val (js_length cs) then Inr prefix
               else (case cs of
                       JArr xs \<Rightarrow>
                         Inr (prefix @ js '' ['' @
                              join_with (js '', '')
                                (map (\<lambda>x. if x = JNull then [] else ToString rt x) xs) @ js '']'')
                     | _ \<Rightarrow> Inl (not_a_function ''args.conditions.join'')))
      else if name = js ''zstack_get'' then path_and_id rt [0x83B7, 0x53D6, 0x20] args
      else if name = js ''zstack_create'' then
        on_args args ''resource_path''
          (Inr ([0x521B, 0x5EFA, 0x20] @ ToString rt (or_empty (field args (js ''resource_path'')))))
      else if name = js ''zstack_delete'' then path_and_id rt [0x5220, 0x9664, 0x20] args
      else if name = js ''zstack_action'' then
        on_args args ''body''
          (let actionName =
                 (if truthy_val (field args (js ''body''))
                  then (case field args (js ''body'') of None \<Rightarrow> None | Some b \<Rightarrow> first_key b)
                  else Some (JStr []))
           in Inr ([0x6267, 0x884C, 0x20] @ Str rt actionName @ js '' on '' @
                   ToString rt (or_empty (field args (js ''resource_path'')))))
      else if name = js ''zstack_update'' then path_and_id rt [0x66F4, 0x65B0, 0x20] args
      else if name = js ''zstack_zql'' then
        on_args args ''zql''
          (case js_slice ''zql'' 60 (or_empty (field args (js ''zql''))) of
             Inl e \<Rightarrow> Inl e
           | Inr z \<Rightarrow> Inr (js ''ZQL: '' @ ToString rt z))
      else Inr (map (\<lambda>c. if c = 95 then 32 else c) name))"

subsection \<open>The conversation and the engine\<close>

text \<open>An entry of \<open>toolCalls\<close> of the OpenAI-compatible adapters (its \<open>type\<close> is \<open>function\<close>).\<close>

record openai_tool_call =
  call_id :: jsstring
  fn_name :: jsstring
  fn_arguments :: jsstring

text \<open>
  A content block of the Anthropic adapter. A text delta addressed to a tool-use block
  gives that block a \<open>text\<close> property (\<open>stray_text\<close>), as \<open>+=\<close> on a missing property does.
\<close>

datatype content_block =
    TextBlock jsstring
  | ToolUseBlock jsstring jsstring json "jsstring option"

record anthropic_tool_call =
  tu_id :: jsstring
  tu_name :: jsstring
  tu_input :: json

text \<open>
  The turns of \<open>this.messages\<close>: the user's text; the assistant's final text; the raw
  assistant message of an OpenAI-compatible round (\<open>content || null\<close> and \<open>tool_calls\<close>);
  a message of role \<open>tool\<close> (\<open>tool_call_id\<close>, \<open>content\<close>); the raw content blocks of an
  Anthropic round; the user turn carrying the \<open>tool_result\<close> blocks (\<open>tool_use_id\<close>,
  \<open>content\<close>) of an Anthropic round.
\<close>

datatype message =
    UserText jsstring
  | AssistantText jsstring
  | AssistantToolCalls "jsstring option" "openai_tool_call list"
  | ToolMessage jsstring jsstring
  | AssistantBlocks "content_block list"
  | UserToolResults "(jsstring \<times> jsstring) list"

text \<open>What \<open>emit\<close> passes to the caller's \<open>onEvent\<close>.\<close>

datatype event =
    TextDelta jsstring
  | ToolStart "jsstring list" "jsstring list" nat
  | ToolDone "jsstring list" nat

text \<open>
  The fields of \<open>LLMEngine\<close>. \<open>abortController\<close> says whether \<open>_abortController\<close> holds
  a controller; \<open>signal_aborted\<close> is \<open>signal.aborted\<close> of the signal the running \<open>chat\<close>
  took from it; \<open>emitted\<close> is not a field of the class but the events passed to
  \<open>onEvent\<close> so far.
\<close>

record engine =
  apiKey :: jsstring
  baseUrl :: jsstring
  provider :: jsstring
  model :: jsstring
  messages :: "message list"
  queryMode :: jsstring
  abortController :: bool
  signal_aborted :: bool
  emitted :: "event list"

definition emit :: "event \<Rightarrow> engine \<Rightarrow> engine" where
  "emit ev e = e\<lparr>emitted := emitted e @ [ev]\<rparr>"

text \<open>
  \<^verbatim>\<open>abort() { if (this._abortController) { this._abortController.abort(); this._abortController = null; } }\<close>
\<close>

definition abort :: "engine \<Rightarrow> engine" where
  "abort e = (if abortController e then e\<lparr>signal_aborted := True, abortController := False\<rparr> else e)"

subsection \<open>The provider and the points where the engine waits\<close>

text \<open>
  JavaScript runs \<open>chat\<close> until it awaits; only there can the user's \<open>abort()\<close> run.
  The awaits of one round: the \<open>fetch\<close> of the streaming request, \<open>res.text()\<close> of an error
  response, the \<open>k\<close>-th \<open>reader.read()\<close>, the \<open>fetch\<close> of the non-streaming fallback, its
  \<open>res.text()\<close> and \<open>res.json()\<close>, and \<open>Promise.all\<close> over the tool calls.
\<close>

datatype await_point =
    AwaitFetch
  | AwaitText
  | AwaitRead nat
  | AwaitFetchNonStream
  | AwaitTextNonStream
  | AwaitJson
  | AwaitTools

text \<open>
  A line of the event stream as the adapters read it: \<open>Data\<close> carries the decoded payload
  of a \<open>data:\<close> line; \<open>Ignored\<close> is a line the adapters skip (blank, \<open>[DONE]\<close>, \<open>event:\<close>,
  not a \<open>data:\<close> line, or a payload that is not JSON).
\<close>

datatype 'ev sse_line = Ignored | Data 'ev

text \<open>
  A streamed response: \<open>res.ok\<close>, what \<open>res.text()\<close> settles to, and what the successive
  \<open>reader.read()\<close> settle to, each the lines completed by that chunk; after the last one the
  stream is done.
\<close>

record 'ev stream_reply =
  s_ok :: bool
  s_text :: "js_error + jsstring"
  s_reads :: "(js_error + 'ev sse_line list) list"

text \<open>
  The payloads of the OpenAI-compatible stream: an error envelope with its message
  (\<open>chunk.error.message || JSON.stringify(chunk.error)\<close>), a chunk without
  \<open>choices[0].delta\<close>, or a delta with its \<open>content\<close> and its \<open>tool_calls\<close>.
\<close>

record tc_delta =
  d_index :: nat
  d_id :: "jsstring option"
  d_name :: "jsstring option"
  d_arguments :: "jsstring option"

datatype openai_chunk =
    ChunkError jsstring
  | ChunkNoDelta
  | ChunkDelta "jsstring option" "tc_delta list"

text \<open>
  The body of a non-streamed completion: \<open>data.error\<close> with its message, or
  \<open>data.choices[0].message\<close> with its \<open>content\<close> and \<open>tool_calls\<close>.
\<close>

datatype completion =
    CompletionError jsstring
  | Completion "jsstring option" "openai_tool_call list option"

record json_reply =
  j_ok :: bool
  j_text :: "js_error + jsstring"
  j_json :: "js_error + completion"

text \<open>
  The events of the Anthropic stream: \<open>content_block_start\<close> with the index and the
  block's type, id and name; \<open>content_block_delta\<close> with the index and a text or a
  partial-JSON fragment; \<open>content_block_stop\<close> with the index; \<open>error\<close> with
  \<open>event.error?.message\<close>; the others.
\<close>

datatype anthropic_event =
    MessageStart
  | ContentBlockStart nat jsstring jsstring jsstring
  | ContentBlockTextDelta nat jsstring
  | ContentBlockJsonDelta nat jsstring
  | ContentBlockOtherDelta nat
  | ContentBlockStop nat
  | MessageDelta
  | MessageStop
  | ErrorEvent "jsstring option"
  | OtherEvent

text \<open>
  What one \<open>chat\<close> call meets outside the engine: whether the user calls \<open>abort()\<close> while
  the engine waits at a point of round \<open>i\<close>; \<open>Date.now()\<close> at the start and at the top of
  round \<open>i\<close>; and what the provider answers to the request of round \<open>i\<close> (which the
  engine builds from its state). Every theorem holds for every such environment.
\<close>

record provider_env =
  cancel_during :: "nat \<Rightarrow> await_point \<Rightarrow> bool"
  start_time :: int
  time_at_round :: "nat \<Rightarrow> int"
  openai_stream :: "nat \<Rightarrow> engine \<Rightarrow> js_error + openai_chunk stream_reply"
  openai_nonstream :: "nat \<Rightarrow> engine \<Rightarrow> js_error + json_reply"
  anthropic_stream :: "nat \<Rightarrow> engine \<Rightarrow> js_error + anthropic_event stream_reply"

definition AbortError :: js_error where
  "AbortError = JsError (js ''AbortError'') (js ''signal is aborted without reason'')"

text \<open>
  Awaiting an operation that was given the signal (\<open>fetch\<close>, and reading the body of
  its response): if the user aborts meanwhile, or the signal is aborted already, the
  operation rejects with an \<open>AbortError\<close>; otherwise it settles to its outcome.
\<close>

definition await_signal ::
  "provider_env \<Rightarrow> nat \<Rightarrow> await_point \<Rightarrow> js_error + 'a \<Rightarrow> engine \<Rightarrow> (js_error + 'a) \<times> engine" where
  "await_signal net i p outcome e =
     (let e' = (if cancel_during net i p then abort e else e) in
      if signal_aborted e' then (Inl AbortError, e') else (outcome, e'))"

text \<open>Awaiting the tool calls, which do not see the signal.\<close>

definition await_tools :: "provider_env \<Rightarrow> nat \<Rightarrow> engine \<Rightarrow> engine" where
  "await_tools net i e = (if cancel_during net i AwaitTools then abort e else e)"

text \<open>A JavaScript array with holes: \<open>xs[i] = v\<close> extends the array.\<close>

definition set_at :: "'a option list \<Rightarrow> nat \<Rightarrow> 'a \<Rightarrow> 'a option list" where
  "set_at xs i v =
     (if i < length xs then xs[i := Some v] else xs @ replicate (i - length xs) None @ [Some v])"

definition get_at :: "'a option list \<Rightarrow> nat \<Rightarrow> 'a option" where
  "get_at xs i = (if i < length xs then xs ! i else None)"

definition present :: "'a option list \<Rightarrow> 'a list" where
  "present xs = concat (map (\<lambda>x. case x of None \<Rightarrow> [] | Some v \<Rightarrow> [v]) xs)"

definition nonempty :: "jsstring option \<Rightarrow> bool" where
  "nonempty s = (case s of None \<Rightarrow> False | Some t \<Rightarrow> t \<noteq> [])"

definition or_else :: "jsstring option \<Rightarrow> jsstring \<Rightarrow> jsstring" where
  "or_else s d = (case s of None \<Rightarrow> d | Some t \<Rightarrow> if t = [] then d else t)"

subsection \<open>The OpenAI-compatible adapter\<close>

record openai_response =
  o_content :: jsstring
  o_toolCalls :: "openai_tool_call list"
  rawMessage :: message

text \<open>
  The error message of a response that is not ok:
  \<^verbatim>\<open>try { errMsg = JSON.parse(errText).error?.message || errText; } catch { errMsg = errText; }\<close>
\<close>

definition errMsg :: "runtime \<Rightarrow> jsstring \<Rightarrow> json" where
  "errMsg rt errText =
     (case json_parse rt errText of
        Inl e \<Rightarrow> JStr errText
      | Inr JNull \<Rightarrow> JStr errText
      | Inr d \<Rightarrow>
          (case js_or (opt_prop (field d (js ''error'')) (js ''message'')) (Some (JStr errText)) of
             None \<Rightarrow> JStr errText
           | Some m \<Rightarrow> m))"

text \<open>The loop over \<open>delta.tool_calls\<close>: the fragments of call \<open>index\<close> are appended to its entry.\<close>

definition apply_tc_delta :: "openai_tool_call option list \<Rightarrow> tc_delta \<Rightarrow> openai_tool_call option list" where
  "apply_tc_delta toolCalls tc =
     (let idx = d_index tc;
          t0 = (case get_at toolCalls idx of
                  Some t \<Rightarrow> t
                | None \<Rightarrow> \<lparr>call_id = or_else (d_id tc) [], fn_name = [], fn_arguments = []\<rparr>);
          t1 = (if nonempty (d_id tc) then t0\<lparr>call_id := or_else (d_id tc) []\<rparr> else t0);
          t2 = (if nonempty (d_name tc) then t1\<lparr>fn_name := fn_name t1 @ or_else (d_name tc) []\<rparr> else t1);
          t3 = (if nonempty (d_arguments tc)
                then t2\<lparr>fn_arguments := fn_arguments t2 @ or_else (d_arguments tc) []\<rparr> else t2)
      in set_at toolCalls idx t3)"

text \<open>The accumulators of the stream loop: \<open>content\<close> and \<open>toolCalls\<close>.\<close>

type_synonym openai_acc = "jsstring \<times> openai_tool_call option list"

fun openai_line :: "openai_acc \<Rightarrow> engine \<Rightarrow> openai_chunk sse_line \<Rightarrow> js_error option \<times> openai_acc \<times> engine" where
  "openai_line acc e Ignored = (None, acc, e)"
| "openai_line acc e (Data (ChunkError m)) = (Some (Error m), acc, e)"
| "openai_line acc e (Data ChunkNoDelta) = (None, acc, e)"
| "openai_line (content, toolCalls) e (Data (ChunkDelta c tcs)) =
     (let (content', e') =
            (if nonempty c then (content @ or_else c [], emit (TextDelta (or_else c [])) e)
             else (content, e))
      in (None, (content', foldl apply_tc_delta toolCalls tcs), e'))"

fun openai_lines :: "openai_acc \<Rightarrow> engine \<Rightarrow> openai_chunk sse_line list \<Rightarrow> js_error option \<times> openai_acc \<times> engine" where
  "openai_lines acc e [] = (None, acc, e)"
| "openai_lines acc e (l # ls) =
     (case openai_line acc e l of
        (Some err, acc', e') \<Rightarrow> (Some err, acc', e')
      | (None, acc', e') \<Rightarrow> openai_lines acc' e' ls)"

text \<open>
  The \<open>catch\<close> around the stream loop: an \<open>AbortError\<close> is rethrown; otherwise text
  received so far is returned as the answer when no tool call has started.
\<close>

definition openai_catch :: "js_error \<Rightarrow> openai_acc \<Rightarrow> js_error + openai_response" where
  "openai_catch err acc =
     (if ename err = js ''AbortError'' then Inl err
      else if fst acc \<noteq> [] \<and> length (snd acc) = 0
      then Inr \<lparr>o_content = fst acc, o_toolCalls = [], rawMessage = AssistantText (fst acc)\<rparr>
      else Inl err)"

definition openai_finish :: "openai_acc \<Rightarrow> openai_response" where
  "openai_finish acc =
     (let validToolCalls = filter (\<lambda>tc. call_id tc \<noteq> [] \<and> fn_name tc \<noteq> []) (present (snd acc))
      in \<lparr>o_content = fst acc, o_toolCalls = validToolCalls,
          rawMessage = AssistantToolCalls (if fst acc = [] then None else Some (fst acc)) validToolCalls\<rparr>)"

text \<open>The \<open>while (true)\<close> of the stream, from the \<open>k\<close>-th \<open>reader.read()\<close> on.\<close>

fun openai_read_loop ::
  "provider_env \<Rightarrow> nat \<Rightarrow> nat \<Rightarrow> openai_acc \<Rightarrow> (js_error + openai_chunk sse_line list) list \<Rightarrow> engine
     \<Rightarrow> (js_error + openai_response) \<times> engine" where
  "openai_read_loop net i k acc [] e =
     (case await_signal net i (AwaitRead k) (Inr ()) e of
        (Inl err, e') \<Rightarrow> (openai_catch err acc, e')
      | (Inr u, e') \<Rightarrow> (Inr (openai_finish acc), e'))"
| "openai_read_loop net i k acc (r # rs) e =
     (case await_signal net i (AwaitRead k) r e of
        (Inl err, e') \<Rightarrow> (openai_catch err acc, e')
      | (Inr ls, e') \<Rightarrow>
          (case openai_lines acc e' ls of
             (Some err, acc', e'') \<Rightarrow> (openai_catch err acc', e'')
           | (None, acc', e'') \<Rightarrow> openai_read_loop net i (Suc k) acc' rs e''))"

definition callOpenAINonStream ::
  "runtime \<Rightarrow> provider_env \<Rightarrow> nat \<Rightarrow> engine \<Rightarrow> (js_error + openai_response) \<times> engine" where
  "callOpenAINonStream rt net i e =
     (case await_signal net i AwaitFetchNonStream (openai_nonstream net i e) e of
        (Inl err, e1) \<Rightarrow> (Inl err, e1)
      | (Inr res, e1) \<Rightarrow>
          if \<not> j_ok res then
            (case await_signal net i AwaitTextNonStream (j_text res) e1 of
               (Inl err, e2) \<Rightarrow> (Inl err, e2)
             | (Inr errText, e2) \<Rightarrow> (Inl (Error (ToString rt (errMsg rt errText))), e2))
          else
            (case await_signal net i AwaitJson (j_json res) e1 of
               (Inl err, e2) \<Rightarrow> (Inl err, e2)
             | (Inr (CompletionError m), e2) \<Rightarrow> (Inl (Error m), e2)
             | (Inr (Completion c tcs), e2) \<Rightarrow>
                 (let toolCalls = (case tcs of None \<Rightarrow> [] | Some ts \<Rightarrow> ts)
                  in (Inr \<lparr>o_content = or_else c [], o_toolCalls = toolCalls,
                           rawMessage = AssistantToolCalls c toolCalls\<rparr>, e2))))"

definition callOpenAIStream ::
  "runtime \<Rightarrow> provider_env \<Rightarrow> nat \<Rightarrow> engine \<Rightarrow> (js_error + openai_response) \<times> engine" where
  "callOpenAIStream rt net i e =
     (case await_signal net i AwaitFetch (openai_stream net i e) e of
        (Inl err, e1) \<Rightarrow> (Inl err, e1)
      | (Inr res, e1) \<Rightarrow>
          if \<not> s_ok res then
            (case await_signal net i AwaitText (s_text res) e1 of
               (Inl err, e2) \<Rightarrow> (Inl err, e2)
             | (Inr errText, e2) \<Rightarrow>
                 (case errMsg rt errText of
                    JStr m \<Rightarrow>
                      if str_includes (toLowerCase m) (js ''stream'') \<or>
                         str_includes (toLowerCase m) (js ''not support'')
                      then callOpenAINonStream rt net i e2
                      else (Inl (Error m), e2)
                  | other \<Rightarrow> (Inl (not_a_function ''errMsg.toLowerCase''), e2)))
          else openai_read_loop net i 0 ([], []) (s_reads res) e1)"

subsection \<open>The Anthropic adapter\<close>

record anthropic_response =
  a_content :: jsstring
  a_toolCalls :: "anthropic_tool_call list"
  rawContent :: "content_block list"

text \<open>
  The variables of the stream loop. \<open>inputJsonStr\<close> is one buffer for the whole stream:
  a tool-use block's start empties it, every partial-JSON fragment is appended to it
  whatever its index, and a block's stop parses it into the current block.
\<close>

record anthropic_acc =
  contentBlocks :: "content_block option list"
  currentBlockIndex :: int
  currentBlockType :: jsstring
  textContent :: jsstring
  inputJsonStr :: jsstring

definition anthropic_init :: anthropic_acc where
  "anthropic_init =
     \<lparr>contentBlocks = [], currentBlockIndex = - 1, currentBlockType = [], textContent = [],
      inputJsonStr = []\<rparr>"

definition block_at :: "content_block option list \<Rightarrow> int \<Rightarrow> content_block option" where
  "block_at bs i = (if i < 0 then None else get_at bs (nat i))"

text \<open>
  \<^verbatim>\<open>try { block.input = JSON.parse(inputJsonStr || '{}'); } catch { block.input = {}; }\<close>
\<close>

definition parse_input :: "runtime \<Rightarrow> jsstring \<Rightarrow> json" where
  \<open>parse_input rt s =
     (case json_parse rt (if s = [] then js ''{}'' else s) of
        Inl e \<Rightarrow> JObj []
      | Inr v \<Rightarrow> v)\<close>

fun append_text :: "content_block \<Rightarrow> jsstring \<Rightarrow> content_block" where
  "append_text (TextBlock t) d = TextBlock (t @ d)"
| "append_text (ToolUseBlock i n v stray) d =
     ToolUseBlock i n v (Some ((case stray of None \<Rightarrow> js ''undefined'' | Some t \<Rightarrow> t) @ d))"

fun set_input :: "content_block \<Rightarrow> json \<Rightarrow> content_block" where
  "set_input (ToolUseBlock i n v stray) w = ToolUseBlock i n w stray"
| "set_input (TextBlock t) w = TextBlock t"

fun anthropic_step ::
  "runtime \<Rightarrow> anthropic_acc \<Rightarrow> engine \<Rightarrow> anthropic_event \<Rightarrow> js_error option \<times> anthropic_acc \<times> engine" where
  "anthropic_step rt acc e (ContentBlockStart idx ty bid bname) =
     (let acc1 = acc\<lparr>currentBlockIndex := int idx, currentBlockType := ty\<rparr> in
      (None,
       (if ty = js ''text'' then acc1\<lparr>contentBlocks := set_at (contentBlocks acc) idx (TextBlock [])\<rparr>
        else if ty = js ''tool_use''
        then acc1\<lparr>contentBlocks := set_at (contentBlocks acc) idx (ToolUseBlock bid bname (JObj []) None),
                  inputJsonStr := []\<rparr>
        else acc1),
       e))"
| "anthropic_step rt acc e (ContentBlockTextDelta idx t) =
     (if t = [] then (None, acc, e)
      else
        (None,
         acc\<lparr>textContent := textContent acc @ t,
             contentBlocks :=
               (case get_at (contentBlocks acc) idx of
                  None \<Rightarrow> contentBlocks acc
                | Some b \<Rightarrow> set_at (contentBlocks acc) idx (append_text b t))\<rparr>,
         emit (TextDelta t) e))"
| "anthropic_step rt acc e (ContentBlockJsonDelta idx frag) =
     (None, acc\<lparr>inputJsonStr := inputJsonStr acc @ frag\<rparr>, e)"
| "anthropic_step rt acc e (ContentBlockStop idx) =
     (if currentBlockType acc = js ''tool_use'' then
        (case block_at (contentBlocks acc) (currentBlockIndex acc) of
           None \<Rightarrow> (None, acc, e)
         | Some b \<Rightarrow>
             (None,
              acc\<lparr>contentBlocks :=
                    set_at (contentBlocks acc) (nat (currentBlockIndex acc))
                      (set_input b (parse_input rt (inputJsonStr acc))),
                  inputJsonStr := []\<rparr>,
              e))
      else (None, acc, e))"
| "anthropic_step rt acc e (ErrorEvent m) =
     (Some (Error (or_else m (js ''Anthropic stream error''))), acc, e)"
| "anthropic_step rt acc e ev = (None, acc, e)"

fun anthropic_lines ::
  "runtime \<Rightarrow> anthropic_acc \<Rightarrow> engine \<Rightarrow> anthropic_event sse_line list \<Rightarrow> js_error option \<times> anthropic_acc \<times> engine" where
  "anthropic_lines rt acc e [] = (None, acc, e)"
| "anthropic_lines rt acc e (Ignored # ls) = anthropic_lines rt acc e ls"
| "anthropic_lines rt acc e (Data ev # ls) =
     (case anthropic_step rt acc e ev of
        (Some err, acc', e') \<Rightarrow> (Some err, acc', e')
      | (None, acc', e') \<Rightarrow> anthropic_lines rt acc' e' ls)"

fun is_tool_use :: "content_block \<Rightarrow> bool" where
  "is_tool_use (ToolUseBlock i n v stray) = True"
| "is_tool_use (TextBlock t) = False"

fun tool_call_of :: "content_block \<Rightarrow> anthropic_tool_call list" where
  "tool_call_of (ToolUseBlock i n v stray) = [\<lparr>tu_id = i, tu_name = n, tu_input = v\<rparr>]"
| "tool_call_of (TextBlock t) = []"

definition anthropic_catch :: "js_error \<Rightarrow> anthropic_acc \<Rightarrow> js_error + anthropic_response" where
  "anthropic_catch err acc =
     (if ename err = js ''AbortError'' then Inl err
      else if textContent acc \<noteq> [] \<and> \<not> list_ex is_tool_use (present (contentBlocks acc))
      then Inr \<lparr>a_content = textContent acc, a_toolCalls = [],
                rawContent = [TextBlock (textContent acc)]\<rparr>
      else Inl err)"

definition anthropic_finish :: "anthropic_acc \<Rightarrow> anthropic_response" where
  "anthropic_finish acc =
     \<lparr>a_content = textContent acc,
      a_toolCalls = concat (map tool_call_of (present (contentBlocks acc))),
      rawContent = present (contentBlocks acc)\<rparr>"

fun anthropic_read_loop ::
  "runtime \<Rightarrow> provider_env \<Rightarrow> nat \<Rightarrow> nat \<Rightarrow> anthropic_acc \<Rightarrow>
     (js_error + anthropic_event sse_line list) list \<Rightarrow> engine
     \<Rightarrow> (js_error + anthropic_response) \<times> engine" where
  "anthropic_read_loop rt net i k acc [] e =
     (case await_signal net i (AwaitRead k) (Inr ()) e of
        (Inl err, e') \<Rightarrow> (anthropic_catch err acc, e')
      | (Inr u, e') \<Rightarrow> (Inr (anthropic_finish acc), e'))"
| "anthropic_read_loop rt net i k acc (r # rs) e =
     (case await_signal net i (AwaitRead k) r e of
        (Inl err, e') \<Rightarrow> (anthropic_catch err acc, e')
      | (Inr ls, e') \<Rightarrow>
          (case anthropic_lines rt acc e' ls of
             (Some err, acc', e'') \<Rightarrow> (anthropic_catch err acc', e'')
           | (None, acc', e'') \<Rightarrow> anthropic_read_loop rt net i (Suc k) acc' rs e''))"

definition callAnthropicStream ::
  "runtime \<Rightarrow> provider_env \<Rightarrow> nat \<Rightarrow> engine \<Rightarrow> (js_error + anthropic_response) \<times> engine" where
  "callAnthropicStream rt net i e =
     (case await_signal net i AwaitFetch (anthropic_stream net i e) e of
        (Inl err, e1) \<Rightarrow> (Inl err, e1)
      | (Inr res, e1) \<Rightarrow>
          if \<not> s_ok res then
            (case await_signal net i AwaitText (s_text res) e1 of
               (Inl err, e2) \<Rightarrow> (Inl err, e2)
             | (Inr errText, e2) \<Rightarrow> (Inl (Error (ToString rt (errMsg rt errText))), e2))
          else anthropic_read_loop rt net i 0 anthropic_init (s_reads res) e1)"

subsection \<open>The loop of chat\<close>

definition STOPPED :: jsstring where
  "STOPPED = [0x5DF2, 0x505C, 0x6B62, 0x751F, 0x6210, 0x3002]"

definition TIMED_OUT :: jsstring where
  "TIMED_OUT = [0x64CD, 0x4F5C, 0x8D85, 0x65F6, 0x28, 0x35, 0x5206, 0x949F, 0x29, 0xFF0C, 0x90E8,
     0x5206, 0x64CD, 0x4F5C, 0x53EF, 0x80FD, 0x5DF2, 0x5B8C, 0x6210, 0x3002, 0x8BF7, 0x67E5,
     0x770B, 0x4E91, 0x5E73, 0x53F0, 0x786E, 0x8BA4, 0x72B6, 0x6001, 0x3002]"

definition ROUND_LIMIT :: jsstring where
  "ROUND_LIMIT = [0x64CD, 0x4F5C, 0x8F6E, 0x6B21, 0x5DF2, 0x8FBE, 0x4E0A, 0x9650, 0xFF0C, 0x90E8,
     0x5206, 0x64CD, 0x4F5C, 0x53EF, 0x80FD, 0x5DF2, 0x5B8C, 0x6210, 0x3002, 0x8BF7, 0x67E5,
     0x770B, 0x4E91, 0x5E73, 0x53F0, 0x786E, 0x8BA4, 0x72B6, 0x6001, 0x3002]"

definition maxRounds :: nat where
  "maxRounds = 100"

definition timeoutMs :: int where
  "timeoutMs = 5 * 60 * 1000"

definition OPENAI_COMPAT :: "jsstring list" where
  "OPENAI_COMPAT = [js ''openai'', js ''glm'', js ''deepseek'', js ''qwen'', js ''minimax'']"

definition isAnthropic :: "engine \<Rightarrow> bool" where
  "isAnthropic e = (provider e = js ''anthropic'' \<and> \<not> List.member OPENAI_COMPAT (provider e))"

datatype response = OpenAI openai_response | Anthropic anthropic_response

definition call_adapter ::
  "runtime \<Rightarrow> provider_env \<Rightarrow> nat \<Rightarrow> engine \<Rightarrow> (js_error + response) \<times> engine" where
  "call_adapter rt net i e =
     (if isAnthropic e
      then (case callAnthropicStream rt net i e of
              (Inl err, e') \<Rightarrow> (Inl err, e')
            | (Inr r, e') \<Rightarrow> (Inr (Anthropic r), e'))
      else (case callOpenAIStream rt net i e of
              (Inl err, e') \<Rightarrow> (Inl err, e')
            | (Inr r, e') \<Rightarrow> (Inr (OpenAI r), e')))"

fun content_of :: "response \<Rightarrow> jsstring" where
  "content_of (OpenAI r) = o_content r"
| "content_of (Anthropic r) = a_content r"

text \<open>
  The tool calls of a response, as the two branches of \<open>chat\<close> read them: the id, the
  name, and the arguments, which the OpenAI branch gets from
  \<open>JSON.parse(tc.function.arguments)\<close> (\<open>Inl\<close>: it throws) and the Anthropic branch from
  \<open>tc.input\<close>.
\<close>

fun proposed_calls :: "runtime \<Rightarrow> response \<Rightarrow> (jsstring \<times> jsstring \<times> (js_error + json)) list" where
  "proposed_calls rt (OpenAI r) =
     map (\<lambda>tc. (call_id tc, fn_name tc, json_parse rt (fn_arguments tc))) (o_toolCalls r)"
| "proposed_calls rt (Anthropic r) =
     map (\<lambda>tc. (tu_id tc, tu_name tc, Inr (tu_input tc))) (a_toolCalls r)"

fun collect :: "(js_error + 'a) list \<Rightarrow> js_error + 'a list" where
  "collect [] = Inr []"
| "collect (Inl err # xs) = Inl err"
| "collect (Inr x # xs) = (case collect xs of Inl err \<Rightarrow> Inl err | Inr ys \<Rightarrow> Inr (x # ys))"

text \<open>
  \<open>toolDetails\<close>: the OpenAI branch formats inside \<open>try\<close> and falls back to the tool's
  name; the Anthropic branch formats \<open>tc.input || {}\<close> without a \<open>try\<close>, so an exception
  of \<open>_formatToolDetail\<close> leaves \<open>chat\<close>.
\<close>

fun toolDetails :: "runtime \<Rightarrow> response \<Rightarrow> js_error + jsstring list" where
  "toolDetails rt (OpenAI r) =
     Inr (map (\<lambda>tc. case json_parse rt (fn_arguments tc) of
                        Inl err \<Rightarrow> fn_name tc
                      | Inr args \<Rightarrow>
                          (case formatToolDetail rt (fn_name tc) args of
                             Inl err \<Rightarrow> fn_name tc
                           | Inr d \<Rightarrow> d))
              (o_toolCalls r))"
| "toolDetails rt (Anthropic r) =
     collect (map (\<lambda>tc. formatToolDetail rt (tu_name tc)
                           (if truthy (tu_input tc) then tu_input tc else JObj []))
                (a_toolCalls r))"

definition truncateLimit :: "engine \<Rightarrow> nat" where
  "truncateLimit e = (if queryMode e = js ''full'' then 80000 else 30000)"

text \<open>
  The \<open>content\<close> of the tool result of call \<open>k\<close> of round \<open>i\<close>, the same in both branches:
  \<^verbatim>\<open>try { ... content: JSON.stringify(result).slice(0, truncateLimit) }
  catch (e) { ... content: JSON.stringify({ error: e.message }) }\<close>
  \<open>_executeTool\<close> and \<open>JSON.stringify\<close> of its result do not throw, so the \<open>catch\<close> is
  reached from \<open>JSON.parse\<close> of the arguments only.
\<close>

definition tool_result_content ::
  "runtime \<Rightarrow> client_env \<Rightarrow> nat \<Rightarrow> nat \<Rightarrow> nat \<Rightarrow> jsstring \<Rightarrow> js_error + json \<Rightarrow> jsstring" where
  "tool_result_content rt cli limit i k name parsed =
     (case parsed of
        Inl err \<Rightarrow> json_stringify rt (error_obj (emessage err))
      | Inr args \<Rightarrow> take limit (json_stringify rt (executeTool cli i k name args)))"

text \<open>
  \<open>Promise.all\<close> over promises that all fulfil: each value is stored at the index of its
  promise when that promise settles, and the array is handed over once all have settled.
  The order of settling is given by the time at which call \<open>k\<close> completes.
\<close>

definition completion_order :: "(nat \<Rightarrow> nat) \<Rightarrow> nat \<Rightarrow> nat list" where
  "completion_order t n = sort_key t [0..<n]"

definition promise_all :: "(nat \<Rightarrow> nat) \<Rightarrow> 'a list \<Rightarrow> 'a list" where
  "promise_all t xs =
     present (foldl (\<lambda>vals k. vals[k := Some (xs ! k)]) (replicate (length xs) None)
                (completion_order t (length xs)))"

fun raw_turn :: "response \<Rightarrow> message" where
  "raw_turn (OpenAI r) = rawMessage r"
| "raw_turn (Anthropic r) = AssistantBlocks (rawContent r)"

fun result_turns :: "response \<Rightarrow> (jsstring \<times> jsstring) list \<Rightarrow> message list" where
  "result_turns (OpenAI r) results = map (\<lambda>res. ToolMessage (fst res) (snd res)) results"
| "result_turns (Anthropic r) results = [UserToolResults results]"

text \<open>How an iteration of the loop ends: \<open>chat\<close> returns or throws, or the loop goes on.\<close>

datatype step = Return "js_error + jsstring" | Next

text \<open>The rest of an iteration once the response holds tool calls.\<close>

definition run_tools ::
  "runtime \<Rightarrow> provider_env \<Rightarrow> client_env \<Rightarrow> (nat \<Rightarrow> nat \<Rightarrow> nat) \<Rightarrow> nat \<Rightarrow> response \<Rightarrow> engine
     \<Rightarrow> step \<times> engine" where
  "run_tools rt net cli sched i resp e1 =
     (let calls = proposed_calls rt resp;
          toolNames = map (\<lambda>c. fst (snd c)) calls
      in case toolDetails rt resp of
           Inl err \<Rightarrow> (Return (Inl err), e1)
         | Inr details \<Rightarrow>
             (let e2 = emit (ToolStart toolNames details (i + 1)) e1;
                  e3 = e2\<lparr>messages := messages e2 @ [raw_turn resp]\<rparr>;
                  limit = truncateLimit e3;
                  results = promise_all (sched i)
                    (map (\<lambda>k. (fst (calls ! k),
                                tool_result_content rt cli limit i k (fst (snd (calls ! k)))
                                  (snd (snd (calls ! k)))))
                       [0..<length calls]);
                  e4 = await_tools net i e3;
                  e5 = e4\<lparr>messages := messages e4 @ result_turns resp results\<rparr>
              in (Next, emit (ToolDone toolNames (i + 1)) e5)))"

definition chat_round ::
  "runtime \<Rightarrow> provider_env \<Rightarrow> client_env \<Rightarrow> (nat \<Rightarrow> nat \<Rightarrow> nat) \<Rightarrow> nat \<Rightarrow> engine \<Rightarrow> step \<times> engine" where
  "chat_round rt net cli sched i e =
     (if signal_aborted e then (Return (Inr STOPPED), e)
      else if time_at_round net i - start_time net > timeoutMs then (Return (Inr TIMED_OUT), e)
      else case call_adapter rt net i e of
             (Inl err, e1) \<Rightarrow> (Return (Inl err), e1)
           | (Inr resp, e1) \<Rightarrow>
               if signal_aborted e1 then (Return (Inr STOPPED), e1)
               else if proposed_calls rt resp = []
               then (Return (Inr (content_of resp)),
                     e1\<lparr>messages := messages e1 @ [AssistantText (content_of resp)]\<rparr>)
               else run_tools rt net cli sched i resp e1)"

function chat_loop ::
  "runtime \<Rightarrow> provider_env \<Rightarrow> client_env \<Rightarrow> (nat \<Rightarrow> nat \<Rightarrow> nat) \<Rightarrow> nat \<Rightarrow> engine
     \<Rightarrow> (js_error + jsstring) \<times> engine" where
  "chat_loop rt net cli sched i e =
     (if i < maxRounds
      then (case chat_round rt net cli sched i e of
              (Return r, e') \<Rightarrow> (r, e')
            | (Next, e') \<Rightarrow> chat_loop rt net cli sched (Suc i) e')
      else (Inr ROUND_LIMIT, e))"
  by pat_completeness auto
termination
  by (relation "measure (\<lambda>(rt, net, cli, sched, i, e). maxRounds - i)") auto

declare chat_loop.simps [simp del]

text \<open>
  The \<open>catch\<close> and \<open>finally\<close> of \<open>chat\<close>: an \<open>AbortError\<close> becomes the fixed message, any
  other exception leaves \<open>chat\<close>, and the controller is dropped.
\<close>

definition chat_finish :: "(js_error + jsstring) \<times> engine \<Rightarrow> (js_error + jsstring) \<times> engine" where
  "chat_finish out =
     (case fst out of
        Inl err \<Rightarrow> if ename err = js ''AbortError'' then Inr STOPPED else Inl err
      | Inr s \<Rightarrow> Inr s,
      (snd out)\<lparr>abortController := False\<rparr>)"

text \<open>The start of \<open>chat\<close>: the user's turn is pushed and a fresh controller is made.\<close>

definition chat_start :: "jsstring \<Rightarrow> engine \<Rightarrow> engine" where
  "chat_start userMessage e =
     e\<lparr>messages := messages e @ [UserText userMessage], abortController := True, signal_aborted := False\<rparr>"

definition chat ::
  "runtime \<Rightarrow> provider_env \<Rightarrow> client_env \<Rightarrow> (nat \<Rightarrow> nat \<Rightarrow> nat) \<Rightarrow> jsstring \<Rightarrow> engine
     \<Rightarrow> (js_error + jsstring) \<times> engine" where
  "chat rt net cli sched userMessage e =
     chat_finish (chat_loop rt net cli sched 0 (chat_start userMessage e))"

subsection \<open>Notions used to state the properties of the engine\<close>

text \<open>The tool results a conversation holds, in order: the id they answer and their content.\<close>

fun results_of :: "message \<Rightarrow> (jsstring \<times> jsstring) list" where
  "results_of (ToolMessage i c) = [(i, c)]"
| "results_of (UserToolResults rs) = rs"
| "results_of m = []"

definition tool_results :: "message list \<Rightarrow> (jsstring \<times> jsstring) list" where
  "tool_results ms = concat (map results_of ms)"

text \<open>What an adapter call leaves alone: the conversation, the mode and the provider.\<close>

definition untouched :: "engine \<Rightarrow> engine \<Rightarrow> bool" where
  "untouched e e' =
     (messages e' = messages e \<and> queryMode e' = queryMode e \<and> provider e' = provider e)"

text \<open>An outcome that is a thrown \<open>AbortError\<close>.\<close>

definition aborts :: "js_error + 'a \<Rightarrow> bool" where
  "aborts r = (case r of Inl err \<Rightarrow> ename err = js ''AbortError'' | Inr v \<Rightarrow> False)"

text \<open>An adapter outcome whose raw assistant message carries no tool result.\<close>

definition plain_raw :: "js_error + openai_response \<Rightarrow> bool" where
  "plain_raw r = (case r of Inl err \<Rightarrow> True | Inr resp \<Rightarrow> results_of (rawMessage resp) = [])"

text \<open>The contents of the tool results of a round, in the order of the calls.\<close>

definition round_results ::
  "runtime \<Rightarrow> client_env \<Rightarrow> nat \<Rightarrow> nat \<Rightarrow> (jsstring \<times> jsstring \<times> (js_error + json)) list
     \<Rightarrow> (jsstring \<times> jsstring) list" where
  "round_results rt cli limit i calls =
     map (\<lambda>k. (fst (calls ! k),
                tool_result_content rt cli limit i k (fst (snd (calls ! k))) (snd (snd (calls ! k)))))
       [0..<length calls]"

text \<open>
  How many times the body of the loop of \<open>chat\<close> runs from round \<open>i\<close> on: the same
  recursion as \<open>chat_loop\<close>, counting the iterations.
\<close>

function rounds_run ::
  "runtime \<Rightarrow> provider_env \<Rightarrow> client_env \<Rightarrow> (nat \<Rightarrow> nat \<Rightarrow> nat) \<Rightarrow> nat \<Rightarrow> engine \<Rightarrow> nat" where
  "rounds_run rt net cli sched i e =
     (if i < maxRounds
      then (case chat_round rt net cli sched i e of
              (Return r, e') \<Rightarrow> 1
            | (Next, e') \<Rightarrow> 1 + rounds_run rt net cli sched (Suc i) e')
      else 0)"
  by pat_completeness auto
termination
  by (relation "measure (\<lambda>(rt, net, cli, sched, i, e). maxRounds - i)") auto

declare rounds_run.simps [simp del]



subsection \<open>Notions used to state the reconstruction of streamed arguments\<close>

text \<open>
  The tool-call deltas a line of an OpenAI-compatible stream carries, and the argument
  fragments that a list of lines delivers for the call index \<open>idx\<close>, in the order of their
  arrival (a delta without \<open>function.arguments\<close> delivers the empty fragment).
\<close>

fun chunk_deltas :: "openai_chunk sse_line \<Rightarrow> tc_delta list" where
  "chunk_deltas (Data (ChunkDelta c tcs)) = tcs"
| "chunk_deltas l = []"

definition fragments_for :: "nat \<Rightarrow> openai_chunk sse_line list \<Rightarrow> jsstring list" where
  "fragments_for idx ls =
     map (\<lambda>d. or_else (d_arguments d) [])
       (filter (\<lambda>d. d_index d = idx) (concat (map chunk_deltas ls)))"

text \<open>
  The argument text of the entry of \<open>toolCalls\<close> at an index, empty when the array has no
  entry there; and the lines that make the stream loop throw (\<open>chunk.error\<close>).
\<close>

definition arguments_at :: "openai_tool_call option list \<Rightarrow> nat \<Rightarrow> jsstring" where
  "arguments_at tcs idx = (case get_at tcs idx of None \<Rightarrow> [] | Some t \<Rightarrow> fn_arguments t)"




text \<open>
  A line that neither starts nor ends a block and is not an \<open>error\<close> event; the index and
  the fragment of an \<open>input_json_delta\<close>; and the fragments that a list of lines delivers
  for the block index \<open>k\<close>, in the order of their arrival.
\<close>

fun quiet :: "anthropic_event sse_line \<Rightarrow> bool" where
  "quiet (Data (ContentBlockStart k ty i n)) = False"
| "quiet (Data (ContentBlockStop k)) = False"
| "quiet (Data (ErrorEvent m)) = False"
| "quiet l = True"

fun json_index :: "anthropic_event sse_line \<Rightarrow> nat option" where
  "json_index (Data (ContentBlockJsonDelta k f)) = Some k"
| "json_index l = None"

fun json_fragment :: "anthropic_event sse_line \<Rightarrow> jsstring" where
  "json_fragment (Data (ContentBlockJsonDelta k f)) = f"
| "json_fragment l = []"

definition json_fragments_for :: "nat \<Rightarrow> anthropic_event sse_line list \<Rightarrow> jsstring list" where
  "json_fragments_for k ls = map json_fragment (filter (\<lambda>l. json_index l = Some k) ls)"


text \<open>The tool call that the entry of \<open>contentBlocks\<close> at an index stands for, if any.\<close>

definition call_at :: "content_block option list \<Rightarrow> nat \<Rightarrow> anthropic_tool_call option" where
  "call_at bs k =
     (case get_at bs k of
        Some (ToolUseBlock i n v stray) \<Rightarrow> Some \<lparr>tu_id = i, tu_name = n, tu_input = v\<rparr>
      | _ \<Rightarrow> None)"
section \<open>Concrete instances\<close>

text \<open>
  A runtime, a client and servers on which the theorems below are exercised.
  \<open>example_parse\<close> is \<open>JSON.parse\<close> on the texts that occur in the examples, and
  \<open>example_stringify\<close> is \<open>JSON.stringify\<close> on values without numbers other than
  naturals and without characters that need an escape.
\<close>

definition example_parse :: "jsstring \<Rightarrow> js_error + json" where
  \<open>example_parse s =
     (if s = js ''{"error":{"details":"session expired"}}''
        then Inr (JObj [(js ''error'', JObj [(js ''details'', JStr (js ''session expired''))])])
      else if s = js ''{"inventory":{"uuid":"s2"}}''
        then Inr (JObj [(js ''inventory'', JObj [(js ''uuid'', JStr (js ''s2''))])])
      else if s = js ''{"inventories":[{"uuid":"x"}]}''
        then Inr (JObj [(js ''inventories'', JArr [JObj [(js ''uuid'', JStr (js ''x''))]])])
      else if s = js ''{"inventory":{"uuid":"x"}}''
        then Inr (JObj [(js ''inventory'', JObj [(js ''uuid'', JStr (js ''x''))])])
      else if s = js ''{"inventories":[]}''
        then Inr (JObj [(js ''inventories'', JArr [])])
      else if s = js ''{"a":1,"b":2}''
        then Inr (JObj [(js ''a'', JNum 1), (js ''b'', JNum 2)])
      else if s = js ''{}'' then Inr (JObj [])
      else Inl (JsError (js ''SyntaxError'') (js ''Unexpected token in JSON'')))\<close>

fun example_stringify :: "json \<Rightarrow> jsstring" where
  "example_stringify JNull = js ''null''"
| "example_stringify (JBool b) = (if b then js ''true'' else js ''false'')"
| "example_stringify (JNum n) = show_nat (nat \<lfloor>n\<rfloor>)"
| "example_stringify (JStr s) = [34] @ s @ [34]"
| "example_stringify (JArr xs) = js ''['' @ join_with (js '','') (map example_stringify xs) @ js '']''"
| "example_stringify (JObj kvs) =
     js ''{'' @ join_with (js '','')
        (map (\<lambda>kv. [34] @ fst kv @ [34] @ js '':'' @ example_stringify (snd kv)) kvs) @ js ''}''"

definition example_runtime :: runtime where
  "example_runtime =
     \<lparr>json_parse = example_parse,
      json_stringify = example_stringify,
      number_to_string = (\<lambda>n. show_nat (nat \<lfloor>n\<rfloor>)),
      string_to_number = (\<lambda>s. None),
      url_params = (\<lambda>kvs. join_with (js ''&'') (map (\<lambda>kv. fst kv @ js ''='' @ snd kv) kvs)),
      sha512_hex = (\<lambda>s. replicate 128 48)\<rparr>"

definition example_client :: zclient where
  "example_client =
     \<lparr>endpoint = js ''http://zstack.example'', sessionId = Some (JStr (js ''s1'')),
      accountName = Some (js ''admin''), password = Some (js ''secret''),
      relogging = False, sent = []\<rparr>"

definition reply :: "nat \<Rightarrow> jsstring \<Rightarrow> js_error + http_reply" where
  "reply code body = Inr \<lparr>status = code, body_text = Inr body\<rparr>"

definition expired_then_ok :: server where
  \<open>expired_then_ok k =
     (if k = 0 then reply 401 (js ''{"error":{"details":"session expired"}}'')
      else if k = 1 then reply 200 (js ''{"inventory":{"uuid":"s2"}}'')
      else reply 200 (js ''{"inventories":[]}''))\<close>

definition expired_then_refused :: server where
  \<open>expired_then_refused k =
     (if k = 0 then reply 401 (js ''{"error":{"details":"session expired"}}'')
      else reply 401 (js ''{}''))\<close>

definition wrapped_entity :: server where
  \<open>wrapped_entity k = reply 200 (js ''{"inventories":[{"uuid":"x"}]}'')\<close>

definition single_entity :: server where
  \<open>single_entity k = reply 200 (js ''{"inventory":{"uuid":"x"}}'')\<close>

definition example_engine :: engine where
  "example_engine =
     \<lparr>apiKey = js ''key'', baseUrl = [], provider = js ''openai'', model = js ''gpt-4o-mini'',
      messages = [], queryMode = js ''compact'', abortController = False, signal_aborted = False,
      emitted = []\<rparr>"

definition zql_call :: "nat \<Rightarrow> jsstring \<Rightarrow> tc_delta" where
  \<open>zql_call k ident = \<lparr>d_index = k, d_id = Some ident, d_name = Some (js ''zstack_zql''),
     d_arguments = Some (js ''{}'')\<rparr>\<close>

text \<open>
  A provider whose model asks, in round \<open>i\<close>, for three tool calls with fresh ids; the
  user never aborts and the clock shows \<open>i\<close> milliseconds at round \<open>i\<close>.
\<close>

definition tools_net :: provider_env where
  \<open>tools_net =
     \<lparr>cancel_during = (\<lambda>i p. False), start_time = 0, time_at_round = (\<lambda>i. int i),
      openai_stream = (\<lambda>i e. Inr \<lparr>s_ok = True, s_text = Inr [],
         s_reads = [Inr [Data (ChunkDelta None
           [zql_call 0 (js ''a'' @ show_nat i), zql_call 1 (js ''b'' @ show_nat i),
            zql_call 2 (js ''c'' @ show_nat i)])]]\<rparr>),
      openai_nonstream = (\<lambda>i e. Inl (Error (js ''Failed to fetch''))),
      anthropic_stream = (\<lambda>i e. Inr \<lparr>s_ok = True, s_text = Inr [],
         s_reads = [Inr [Data (ContentBlockStart 0 (js ''tool_use'') (js ''t'' @ show_nat i) (js ''zstack_zql'')),
                         Data (ContentBlockJsonDelta 0 (js ''{}'')),
                         Data (ContentBlockStop 0)]]\<rparr>)\<rparr>\<close>

text \<open>A client that is logged in, and whose call number 1 of every round throws.\<close>

definition second_call_throws :: client_env where
  "second_call_throws =
     \<lparr>client_configured = True, client_logged_in = (\<lambda>i k. True),
      client_result = (\<lambda>i k c. if k = 1 then Inl (Error (js ''HTTP 500''))
                                 else Inr (JObj [(js ''results'', JArr [])]))\<rparr>"

definition slow_net :: provider_env where
  "slow_net = tools_net\<lparr>time_at_round := (\<lambda>i. if i = 0 then 0 else 300001)\<rparr>"

text \<open>
  A provider that streams the text \<open>Hel\<close>, then \<open>lo\<close>; the user aborts while the engine
  waits for the second chunk.
\<close>

definition cancelled_net :: provider_env where
  "cancelled_net =
     \<lparr>cancel_during = (\<lambda>i p. p = AwaitRead 1), start_time = 0, time_at_round = (\<lambda>i. int i),
      openai_stream = (\<lambda>i e. Inr \<lparr>s_ok = True, s_text = Inr [],
         s_reads = [Inr [Data (ChunkDelta (Some (js ''Hel'')) [])],
                    Inr [Data (ChunkDelta (Some (js ''lo'')) [])]]\<rparr>),
      openai_nonstream = (\<lambda>i e. Inl (Error (js ''Failed to fetch''))),
      anthropic_stream = (\<lambda>i e. Inl (Error (js ''Failed to fetch'')))\<rparr>"

definition cancelled_at_fetch :: provider_env where
  "cancelled_at_fetch = cancelled_net\<lparr>cancel_during := (\<lambda>i p. p = AwaitFetch)\<rparr>"



text \<open>
  The engine configured for the Anthropic provider, and a provider whose Anthropic stream
  holds three tool-use blocks, each with the arguments \<^verbatim>\<open>{}\<close>.
\<close>

definition anthropic_engine :: engine where
  "anthropic_engine = example_engine\<lparr>provider := js ''anthropic'', model := js ''claude-sonnet-4''\<rparr>"

definition tool_use_block :: "nat \<Rightarrow> jsstring \<Rightarrow> anthropic_event sse_line list" where
  \<open>tool_use_block k ident =
     [Data (ContentBlockStart k (js ''tool_use'') ident (js ''zstack_zql'')),
      Data (ContentBlockJsonDelta k (js ''{}'')),
      Data (ContentBlockStop k)]\<close>

definition three_blocks_net :: provider_env where
  "three_blocks_net =
     tools_net\<lparr>anthropic_stream := (\<lambda>i e. Inr \<lparr>s_ok = True, s_text = Inr [],
        s_reads = [Inr (tool_use_block 0 (js ''a'') @ tool_use_block 1 (js ''b'') @
                        tool_use_block 2 (js ''c''))]\<rparr>)\<rparr>"



section \<open>Basic facts\<close>

lemma js_eq_iff [simp]: "js a = js b \<longleftrightarrow> a = b"
  unfolding js_def using inj_of_char [where ?'a = nat] by (simp add: inj_map_eq_map)

lemma js_eq_Nil [simp]: "js a = [] \<longleftrightarrow> a = []"
  by (simp add: js_def)

lemma js_append [simp]: "js a @ js b = js (a @ b)" "js a @ js b @ x = js (a @ b) @ x"
  by (simp_all add: js_def)

lemma length_js [simp]: "length (js a) = length a"
  by (simp add: js_def)

lemmas example_defs = example_runtime_def example_client_def example_parse_def reply_def
  expired_then_ok_def expired_then_refused_def wrapped_entity_def single_entity_def

section \<open>The resource client: re-authentication\<close>

lemma request_eq:
  "request rt srv m p b c =
     (case srv (length (sent c)) of Inl e \<Rightarrow> Inl e | Inr res \<Rightarrow> handleResponse rt res,
      c\<lparr>sent := sent c @ [request_of rt m p b c]\<rparr>)"
  by (simp add: request_def fetch_def)

lemma rawPost_login_path:
  "str_includes path (js ''/accounts/login'') \<Longrightarrow>
   rawPost rt srv path body c = request rt srv (js ''POST'') path body c"
  by (simp add: rawPost.simps)

lemma login_path_is_login: "str_includes (js ''/v1/accounts/login'') (js ''/accounts/login'')"
  by (simp add: startsWith_def js_def)

lemma request_of_frame [simp]:
  "request_of rt m p b (c\<lparr>accountName := x\<rparr>) = request_of rt m p b c"
  "request_of rt m p b (c\<lparr>password := y\<rparr>) = request_of rt m p b c"
  "request_of rt m p b (c\<lparr>relogging := z\<rparr>) = request_of rt m p b c"
  "request_of rt m p b (c\<lparr>sent := w\<rparr>) = request_of rt m p b c"
  by (simp_all add: request_of_def headers_def)

lemma login_frame:
  "login rt srv a p c = (r, c') \<Longrightarrow>
     sent c' = sent c @ [login_request rt a p c] \<and> relogging c' = relogging c \<and>
     endpoint c' = endpoint c \<and> accountName c' = Some a \<and> password c' = Some p"
  by (auto simp: login.simps rawPost_login_path login_path_is_login request_eq login_request_def Let_def
      split: sum.splits json.splits if_splits)

lemma relogin_guard:
  "relogging c \<Longrightarrow> relogin rt srv c = (False, c)"
  by (simp add: relogin.simps split: option.splits)

lemma relogin_frame:
  assumes "relogin rt srv c = (b, c')"
  shows "((c' = c \<and> \<not> b) \<or>
      (\<exists>a p. accountName c = Some a \<and> password c = Some p \<and> a \<noteq> [] \<and> p \<noteq> [] \<and> \<not> relogging c \<and>
        sent c' = sent c @ [login_request rt a p (c\<lparr>sessionId := Some JNull\<rparr>)])) \<and>
     relogging c' = relogging c \<and> endpoint c' = endpoint c \<and>
     accountName c' = accountName c \<and> password c' = password c"
proof (cases "\<exists>a p. accountName c = Some a \<and> password c = Some p \<and> a \<noteq> [] \<and> p \<noteq> [] \<and> \<not> relogging c")
  case False
  then have "relogin rt srv c = (False, c)"
    by (auto simp: relogin.simps split: option.splits)
  with assms show ?thesis by simp
next
  case True
  then obtain a p where ap: "accountName c = Some a" "password c = Some p" "a \<noteq> []" "p \<noteq> []"
    "\<not> relogging c" by blast
  obtain r c3 where l: "login rt srv a p (c\<lparr>relogging := True, sessionId := Some JNull\<rparr>) = (r, c3)"
    by (cases "login rt srv a p (c\<lparr>relogging := True, sessionId := Some JNull\<rparr>)")
  have c': "c' = c3\<lparr>relogging := False\<rparr>"
    using assms ap l by (simp add: relogin.simps)
  from login_frame [OF l] show ?thesis
    using ap c' by (simp add: login_request_def request_of_def headers_def)
qed

lemma withRetry_request:
  "\<exists>xs. sent (snd (withRetry rt srv (request rt srv m p b) c)) = sent c @ xs \<and>
        xs \<noteq> [] \<and> retry_shape c xs \<and>
        relogging (snd (withRetry rt srv (request rt srv m p b) c)) = relogging c \<and>
        endpoint (snd (withRetry rt srv (request rt srv m p b) c)) = endpoint c"
proof -
  let ?f = "request rt srv m p b"
  obtain r c1 where f1: "?f c = (r, c1)" by (cases "?f c")
  have c1: "c1 = c\<lparr>sent := sent c @ [request_of rt m p b c]\<rparr>"
    using f1 by (simp add: request_eq)
  show ?thesis
  proof (cases "\<exists>e. r = Inl e \<and> isExpiry e \<and> \<not> relogging c1")
    case False
    then have "snd (withRetry rt srv ?f c) = c1"
      using f1 by (auto simp: withRetry.simps split: sum.splits)
    then show ?thesis
      using c1 by (simp add: retry_shape_def)
  next
    case True
    then obtain e where e: "r = Inl e" "isExpiry e" "\<not> relogging c1" by blast
    obtain ok' c2 where rl: "relogin rt srv c1 = (ok', c2)" by (cases "relogin rt srv c1")
    note fr = relogin_frame [OF rl]
    show ?thesis
    proof (cases ok')
      case False
      then have w: "snd (withRetry rt srv ?f c) = c2"
        using f1 e rl by (simp add: withRetry.simps)
      from fr show ?thesis
        unfolding w using c1
        by (auto simp: retry_shape_def login_request_def request_of_def)
    next
      case True
      then have w: "snd (withRetry rt srv ?f c) = snd (?f c2)"
        using f1 e rl by (simp add: withRetry.simps)
      from fr True obtain a pw where s2: "sent c2 = sent c1 @ [login_request rt a pw (c1\<lparr>sessionId := Some JNull\<rparr>)]"
        by auto
      show ?thesis
        unfolding w using c1 s2 fr
        by (simp add: request_eq retry_shape_def login_request_def request_of_def)
    qed
  qed
qed

lemma login_succeeds_iff:
  "(\<exists>v. fst (login rt srv a p c) = Inr v) \<longleftrightarrow> login_accepts rt (srv (length (sent c)))"
  by (auto simp: login.simps rawPost_login_path login_path_is_login request_eq login_accepts_def Let_def
      split: sum.splits json.splits if_splits)

lemma rawPost_shape:
  "\<exists>xs. sent (snd (rawPost rt srv path body c)) = sent c @ xs \<and>
        xs \<noteq> [] \<and> retry_shape c xs \<and>
        relogging (snd (rawPost rt srv path body c)) = relogging c \<and>
        endpoint (snd (rawPost rt srv path body c)) = endpoint c"
proof (cases "str_includes path (js ''/accounts/login'')")
  case True
  then show ?thesis
    by (simp add: rawPost_login_path request_eq retry_shape_def)
next
  case False
  then have "rawPost rt srv path body c = withRetry rt srv (request rt srv (js ''POST'') path body) c"
    by (simp add: rawPost.simps)
  then show ?thesis
    using withRetry_request [of rt srv "js ''POST''" path body c] by simp
qed

lemma call_shape:
  "\<exists>xs. sent (snd (call rt srv v c)) = sent c @ xs \<and> retry_shape c xs \<and>
        relogging (snd (call rt srv v c)) = relogging c"
proof (cases v)
  case (Login a p)
  obtain r c' where l: "login rt srv a p c = (r, c')" by (cases "login rt srv a p c")
  from login_frame [OF l] show ?thesis
    using Login l by (simp add: retry_shape_def)
next
  case (Query p cs l s sb sd)
  show ?thesis
    using Query withRetry_request [of rt srv "js ''GET''" _ None c]
    by (auto simp: query_def priv_get_def retry_shape_def Let_def
        split: option.splits json.splits)
next
  case (Get p u)
  obtain xs where "sent (snd (priv_get rt srv (js ''/'' @ Str rt p @ js ''/'' @ Str rt u) c)) = sent c @ xs"
    "retry_shape c xs"
    "relogging (snd (priv_get rt srv (js ''/'' @ Str rt p @ js ''/'' @ Str rt u) c)) = relogging c"
    using withRetry_request [of rt srv "js ''GET''" _ None c] unfolding priv_get_def by blast
  then show ?thesis
    using Get
    by (auto simp: get_def Let_def split: prod.splits sum.splits json.splits)
next
  case (Create p b)
  then show ?thesis
    using rawPost_shape [of rt srv _ b c] by (auto simp: create_def)
next
  case (Update p u b)
  then show ?thesis
    using withRetry_request [of rt srv "js ''PUT''" _ b c] by (auto simp: update_def priv_put_def)
next
  case (Remove p u m)
  then show ?thesis
    using withRetry_request [of rt srv "js ''DELETE''" _ None c]
    by (auto simp: remove_def priv_delete_def Let_def)
next
  case (Action p u b)
  then show ?thesis
    using withRetry_request [of rt srv "js ''PUT''" _ b c] by (auto simp: action_def priv_put_def)
next
  case (Zql q)
  then show ?thesis
    using withRetry_request [of rt srv "js ''GET''" _ None c] by (auto simp: zql_def priv_get_def)
next
  case GetVersion
  obtain xs where "sent (snd (priv_put rt srv (js ''/v1/management-nodes/actions'')
                      (Some (JObj [(js ''getVersion'', JObj [])])) c)) = sent c @ xs"
    "retry_shape c xs"
    "relogging (snd (priv_put rt srv (js ''/v1/management-nodes/actions'')
                      (Some (JObj [(js ''getVersion'', JObj [])])) c)) = relogging c"
    using withRetry_request [of rt srv "js ''PUT''" _ _ c] unfolding priv_put_def by blast
  then show ?thesis
    using GetVersion by (auto simp: getVersion_def Let_def split: prod.splits sum.splits)
next
  case (CreateVm ps)
  then show ?thesis
    using rawPost_shape [of rt srv _ _ c] by (auto simp: createVm_def)
qed

lemma isExpiry_session_expired: "isExpiry (Error (js ''session expired''))"
  by (simp add: isExpiry_def Error_def toLowerCase_def lower_unit_def js_def startsWith_def)

lemma handleResponse_session_expired:
  assumes "json_parse rt B = Inr (JObj [(js ''error'', JObj [(js ''details'', JStr (js ''session expired''))])])"
  shows "handleResponse rt \<lparr>status = 401, body_text = Inr B\<rparr> = Inl (Error (js ''session expired''))"
  using assms by (simp add: handleResponse_def ok_def js_or_def Str_def)

lemma handleResponse_ok:
  assumes "json_parse rt T = Inr d"
  shows "handleResponse rt \<lparr>status = 200, body_text = Inr T\<rparr> = Inr d"
  using assms by (simp add: handleResponse_def ok_def)

lemma relogin_rejected:
  assumes "accountName c = Some a" "password c = Some pw" "a \<noteq> []" "pw \<noteq> []" "\<not> relogging c"
    and "\<not> login_accepts rt (srv (length (sent c)))"
  shows "fst (relogin rt srv c) = False \<and>
     sent (snd (relogin rt srv c)) = sent c @ [login_request rt a pw (c\<lparr>sessionId := Some JNull\<rparr>)]"
proof -
  let ?c2 = "c\<lparr>relogging := True, sessionId := Some JNull\<rparr>"
  obtain r c3 where l: "login rt srv a pw ?c2 = (r, c3)" by (cases "login rt srv a pw ?c2")
  have "\<not> (\<exists>v. fst (login rt srv a pw ?c2) = Inr v)"
    using assms(6) by (simp add: login_succeeds_iff)
  then obtain e where "r = Inl e" using l by (cases r) auto
  with login_frame [OF l] show ?thesis
    using assms l by (simp add: relogin.simps login_request_def request_of_def headers_def)
qed

lemma scenario_query:
  "query rt srv (Some (JStr (js ''vm-instances''))) (Some (JArr [])) (Some (JNum 5)) (Some (JNum 0)) None None c
     = withRetry rt srv (request rt srv (js ''GET'') (scenario_url rt) None) c"
  by (simp add: query_def priv_get_def scenario_url_def Str_def)

lemma relogin_accepts:
  assumes "accountName c = Some a" "password c = Some pw" "a \<noteq> []" "pw \<noteq> []" "\<not> relogging c"
    and "login_accepts rt (srv (length (sent c)))"
  shows "relogin rt srv c =
     (True, c\<lparr>sessionId := login_session rt (srv (length (sent c))),
              sent := sent c @ [login_request rt a pw (c\<lparr>sessionId := Some JNull\<rparr>)]\<rparr>)"
  using assms
  by (auto simp: relogin.simps login.simps rawPost_login_path login_path_is_login request_eq
      login_accepts_def login_session_def login_request_def request_of_def headers_def Let_def
      split: sum.splits json.splits)

lemma request_expired:
  assumes "srv (length (sent c)) = Inr \<lparr>status = 401, body_text = Inr B\<rparr>"
    "json_parse rt B = Inr (JObj [(js ''error'', JObj [(js ''details'', JStr (js ''session expired''))])])"
  shows "request rt srv m p b c =
    (Inl (Error (js ''session expired'')), c\<lparr>sent := sent c @ [request_of rt m p b c]\<rparr>)"
  using assms by (simp add: request_eq handleResponse_session_expired)

lemma withRetry_relogin_accepted:
  assumes creds: "accountName c = Some a" "password c = Some pw" "a \<noteq> []" "pw \<noteq> []"
    and idle: "\<not> relogging c"
    and expired: "srv (length (sent c)) = Inr \<lparr>status = 401, body_text = Inr B\<rparr>"
      "json_parse rt B = Inr (JObj [(js ''error'', JObj [(js ''details'', JStr (js ''session expired''))])])"
    and acc: "login_accepts rt (srv (Suc (length (sent c))))"
  shows "withRetry rt srv (request rt srv m p b) c =
     (case srv (Suc (Suc (length (sent c)))) of Inl e \<Rightarrow> Inl e | Inr res \<Rightarrow> handleResponse rt res,
      c\<lparr>sessionId := login_session rt (srv (Suc (length (sent c)))),
        sent := sent c @
          [request_of rt m p b c,
           login_request rt a pw (c\<lparr>sessionId := Some JNull\<rparr>),
           request_of rt m p b (c\<lparr>sessionId := login_session rt (srv (Suc (length (sent c))))\<rparr>)]\<rparr>)"
proof -
  let ?c1 = "c\<lparr>sent := sent c @ [request_of rt m p b c]\<rparr>"
  have first: "request rt srv m p b c = (Inl (Error (js ''session expired'')), ?c1)"
    by (rule request_expired [where srv = srv and c = c, OF expired])
  have rl: "relogin rt srv ?c1 =
     (True, ?c1\<lparr>sessionId := login_session rt (srv (length (sent ?c1))),
              sent := sent ?c1 @ [login_request rt a pw (?c1\<lparr>sessionId := Some JNull\<rparr>)]\<rparr>)"
    by (rule relogin_accepts) (use creds idle acc in simp_all)
  show ?thesis
    using first rl idle isExpiry_session_expired
    by (simp add: withRetry.simps request_eq login_request_def request_of_def headers_def)
qed

lemma withRetry_relogin_rejected:
  assumes creds: "accountName c = Some a" "password c = Some pw" "a \<noteq> []" "pw \<noteq> []"
    and idle: "\<not> relogging c"
    and expired: "srv (length (sent c)) = Inr \<lparr>status = 401, body_text = Inr B\<rparr>"
      "json_parse rt B = Inr (JObj [(js ''error'', JObj [(js ''details'', JStr (js ''session expired''))])])"
    and no: "\<not> login_accepts rt (srv (Suc (length (sent c))))"
  shows "fst (withRetry rt srv (request rt srv m p b) c) = Inl (Error (js ''session expired'')) \<and>
     sent (snd (withRetry rt srv (request rt srv m p b) c)) =
       sent c @ [request_of rt m p b c, login_request rt a pw (c\<lparr>sessionId := Some JNull\<rparr>)]"
proof -
  let ?c1 = "c\<lparr>sent := sent c @ [request_of rt m p b c]\<rparr>"
  have first: "request rt srv m p b c = (Inl (Error (js ''session expired'')), ?c1)"
    by (rule request_expired [where srv = srv and c = c, OF expired])
  have "fst (relogin rt srv ?c1) = False \<and>
     sent (snd (relogin rt srv ?c1)) = sent ?c1 @ [login_request rt a pw (?c1\<lparr>sessionId := Some JNull\<rparr>)]"
    by (rule relogin_rejected) (use creds idle no in simp_all)
  then show ?thesis
    using first idle isExpiry_session_expired
    by (cases "relogin rt srv ?c1")
       (simp add: withRetry.simps login_request_def request_of_def headers_def)
qed

lemma withRetry_relogin_unsuccessful:
  assumes expired: "srv (length (sent c)) = Inr \<lparr>status = 401, body_text = Inr B\<rparr>"
      "json_parse rt B = Inr (JObj [(js ''error'', JObj [(js ''details'', JStr (js ''session expired''))])])"
    and no: "relogging c \<or> \<not> fst (relogin rt srv (c\<lparr>sent := sent c @ [request_of rt m p b c]\<rparr>))"
  shows "fst (withRetry rt srv (request rt srv m p b) c) = Inl (Error (js ''session expired''))"
proof -
  let ?c1 = "c\<lparr>sent := sent c @ [request_of rt m p b c]\<rparr>"
  have first: "request rt srv m p b c = (Inl (Error (js ''session expired'')), ?c1)"
    by (rule request_expired [where srv = srv and c = c, OF expired])
  show ?thesis
    using first no isExpiry_session_expired
    by (cases "relogin rt srv ?c1") (auto simp: withRetry.simps)
qed

lemma call_wrapped:
  assumes "retried rt v"
  shows "\<exists>m p b. \<forall>srv c.
     snd (call rt srv v c) = snd (withRetry rt srv (request rt srv m p b) c) \<and>
     ((\<forall>x y. v \<noteq> Get x y) \<longrightarrow>
        (\<forall>d. fst (withRetry rt srv (request rt srv m p b) c) = Inr d \<longrightarrow> fst (call rt srv v c) = Inr d)) \<and>
     (\<forall>d. d \<noteq> JNull \<longrightarrow> fst (withRetry rt srv (request rt srv m p b) c) = Inr d \<longrightarrow>
        (\<exists>y. fst (call rt srv v c) = Inr y)) \<and>
     (v \<noteq> GetVersion \<longrightarrow>
        (\<forall>err. fst (withRetry rt srv (request rt srv m p b) c) = Inl err \<longrightarrow> fst (call rt srv v c) = Inl err))"
proof (cases v)
  case (Login a p)
  with assms show ?thesis by simp
next
  case (Query p cs l s sb sd)
  with assms show ?thesis
    by (auto simp: query_def priv_get_def Let_def split: option.splits json.splits)
next
  case (Get p u)
  show ?thesis
    unfolding Get
    by (rule exI [of _ "js ''GET''"], rule exI [of _ "js ''/'' @ Str rt p @ js ''/'' @ Str rt u"],
        rule exI [of _ None])
       (auto simp: get_def priv_get_def Let_def split: prod.splits sum.splits json.splits)
next
  case (Create p b)
  with assms show ?thesis
    by (auto simp: create_def rawPost.simps)
next
  case (Update p u b)
  then show ?thesis by (auto simp: update_def priv_put_def)
next
  case (Remove p u m)
  then show ?thesis by (auto simp: remove_def priv_delete_def Let_def)
next
  case (Action p u b)
  then show ?thesis by (auto simp: action_def priv_put_def)
next
  case (Zql q)
  then show ?thesis by (auto simp: zql_def priv_get_def)
next
  case GetVersion
  show ?thesis
    unfolding GetVersion
    by (rule exI [of _ "js ''PUT''"], rule exI [of _ "js ''/v1/management-nodes/actions''"],
        rule exI [of _ "Some (JObj [(js ''getVersion'', JObj [])])"])
       (auto simp: getVersion_def priv_put_def Let_def split: prod.splits sum.splits)
next
  case (CreateVm ps)
  then show ?thesis
    by (auto simp: createVm_def rawPost.simps startsWith_def js_def)
qed

text \<open>
  C10: a login request (a path containing \<open>/accounts/login\<close>) is sent by \<open>_rawPost\<close>
  without the retry wrapper, as one \<open>fetch\<close>; while \<open>_relogging\<close> is set, \<open>_relogin\<close>
  returns false at once and changes nothing; and one call of any client method sends at most
  three requests, of which the second, if any, is the one login request and the third, if any,
  repeats the first; the flag is left as it was found.
\<close>

theorem reauth_never_cascades:
  "(str_includes path (js ''/accounts/login'') \<longrightarrow>
      rawPost rt srv path body c = request rt srv (js ''POST'') path body c \<and>
      sent (snd (rawPost rt srv path body c)) = sent c @ [request_of rt (js ''POST'') path body c]) \<and>
   (relogging c \<longrightarrow> relogin rt srv c = (False, c)) \<and>
   (\<exists>xs. sent (snd (call rt srv v c)) = sent c @ xs \<and> retry_shape c xs) \<and>
   relogging (snd (call rt srv v c)) = relogging c"
  using call_shape [of rt srv v c]
  by (auto simp: rawPost_login_path request_eq relogin_guard)

theorem reauth_never_cascades_witness:
  "rawPost example_runtime expired_then_ok (js ''/v1/accounts/login'') None example_client =
     request example_runtime expired_then_ok (js ''POST'') (js ''/v1/accounts/login'') None example_client \<and>
   relogin example_runtime expired_then_ok (example_client\<lparr>relogging := True\<rparr>) =
     (False, example_client\<lparr>relogging := True\<rparr>) \<and>
   length (sent (snd (call example_runtime expired_then_ok
       (Get (Some (JStr (js ''v1/hosts''))) (Some (JStr (js ''x'')))) example_client))) \<le> 3 \<and>
   \<not> relogging (snd (call example_runtime expired_then_ok
       (Get (Some (JStr (js ''v1/hosts''))) (Some (JStr (js ''x'')))) example_client))"
proof -
  let ?v = "Get (Some (JStr (js ''v1/hosts''))) (Some (JStr (js ''x'')))"
  note T1 = reauth_never_cascades [of "js ''/v1/accounts/login''" example_runtime expired_then_ok None
      example_client ?v]
  note T2 = reauth_never_cascades [of "js ''/v1/accounts/login''" example_runtime expired_then_ok None
      "example_client\<lparr>relogging := True\<rparr>" ?v]
  have idle: "\<not> relogging example_client" by (simp add: example_client_def)
  from conjunct1 [OF T1, THEN mp, OF login_path_is_login]
  have 1: "rawPost example_runtime expired_then_ok (js ''/v1/accounts/login'') None example_client =
     request example_runtime expired_then_ok (js ''POST'') (js ''/v1/accounts/login'') None example_client"
    by (rule conjunct1)
  from conjunct1 [OF conjunct2 [OF T2], THEN mp]
  have 2: "relogin example_runtime expired_then_ok (example_client\<lparr>relogging := True\<rparr>) =
     (False, example_client\<lparr>relogging := True\<rparr>)"
    by simp
  from conjunct1 [OF conjunct2 [OF conjunct2 [OF T1]]] obtain xs where
    xs: "sent (snd (call example_runtime expired_then_ok ?v example_client)) = sent example_client @ xs"
    "retry_shape example_client xs" by blast
  have 3: "length (sent (snd (call example_runtime expired_then_ok ?v example_client))) \<le> 3"
    using xs by (simp add: retry_shape_def example_client_def)
  from conjunct2 [OF conjunct2 [OF conjunct2 [OF T1]]] idle
  have 4: "\<not> relogging (snd (call example_runtime expired_then_ok ?v example_client))"
    by simp
  from 1 2 3 4 show ?thesis by blast
qed

text \<open>
  C3: a client that holds credentials and is not re-logging sends a request through
  \<open>_withRetry\<close>, with any method, path and body, as \<open>_get\<close>, \<open>_put\<close>, \<open>_delete\<close> and, off
  the login path, \<open>_rawPost\<close> do; the first response is HTTP 401 with the body
  \<^verbatim>\<open>{"error":{"details":"session expired"}}\<close>. If the login that follows succeeds (its
  response is read without an error and holds a truthy \<open>inventory.uuid\<close>), the same request
  is sent once more, under the new session, and what it settles to is returned, the parsed
  body when that response is ok: three requests in all, one of them the login, and nothing
  more is sent whatever the third response is. If the login fails, the caller of the request
  gets the original error, after two requests; and so it does whenever the re-login does not
  succeed, be it for want of credentials or because a re-login is under way.

  So it is for every method call whose request goes through \<open>_withRetry\<close> (all but \<open>login\<close>,
  a \<open>create\<close> on a login path and a \<open>query\<close> that throws before it sends): it sends its
  request, the one login and its request again, and returns the data of the third response
  (\<open>get\<close> returns a value made from it, when it is not \<open>null\<close>); when the login fails it sends
  two requests and returns the original error (only \<open>getVersion\<close>, which catches every error
  of its request, returns its fallback value instead). Whatever the server does, a method call
  sends at most one login and at most two requests of its own.
\<close>

theorem session_expired_retry:
  assumes creds: "accountName c = Some a" "password c = Some pw" "a \<noteq> []" "pw \<noteq> []"
    and idle: "\<not> relogging c"
    and expired: "srv (length (sent c)) = Inr \<lparr>status = 401, body_text = Inr B\<rparr>"
      "json_parse rt B = Inr (JObj [(js ''error'', JObj [(js ''details'', JStr (js ''session expired''))])])"
    and names: "n = length (sent c)" "sid = login_session rt (srv (Suc n))"
      "relog = login_request rt a pw (c\<lparr>sessionId := Some JNull\<rparr>)"
  shows
    "(login_accepts rt (srv (Suc n)) \<longrightarrow>
        withRetry rt srv (request rt srv m p b) c =
          (case srv (Suc (Suc n)) of Inl e \<Rightarrow> Inl e | Inr res \<Rightarrow> handleResponse rt res,
           c\<lparr>sessionId := sid,
             sent := sent c @ [request_of rt m p b c, relog, request_of rt m p b (c\<lparr>sessionId := sid\<rparr>)]\<rparr>) \<and>
        (srv (Suc (Suc n)) = Inr \<lparr>status = 200, body_text = Inr D\<rparr> \<and> json_parse rt D = Inr data \<longrightarrow>
           fst (withRetry rt srv (request rt srv m p b) c) = Inr data)) \<and>
     (\<not> login_accepts rt (srv (Suc n)) \<longrightarrow>
        fst (withRetry rt srv (request rt srv m p b) c) = Inl (Error (js ''session expired'')) \<and>
        sent (snd (withRetry rt srv (request rt srv m p b) c)) = sent c @ [request_of rt m p b c, relog]) \<and>
     (srv0 (length (sent c0)) = Inr \<lparr>status = 401, body_text = Inr B\<rparr> \<and>
      (relogging c0 \<or> \<not> fst (relogin rt srv0 (c0\<lparr>sent := sent c0 @ [request_of rt m p b c0]\<rparr>))) \<longrightarrow>
        fst (withRetry rt srv0 (request rt srv0 m p b) c0) = Inl (Error (js ''session expired''))) \<and>
     (retried rt v \<and> login_accepts rt (srv (Suc n)) \<longrightarrow>
        (\<exists>x. sent (snd (call rt srv v c)) =
               sent c @ [x, relog, x\<lparr>req_authorization := headers rt (c\<lparr>sessionId := sid\<rparr>)\<rparr>]) \<and>
        sessionId (snd (call rt srv v c)) = sid \<and>
        (srv (Suc (Suc n)) = Inr \<lparr>status = 200, body_text = Inr D\<rparr> \<and> json_parse rt D = Inr data \<longrightarrow>
           ((\<forall>x y. v \<noteq> Get x y) \<longrightarrow> fst (call rt srv v c) = Inr data) \<and>
           (data \<noteq> JNull \<longrightarrow> (\<exists>y. fst (call rt srv v c) = Inr y)))) \<and>
     (retried rt v \<and> \<not> login_accepts rt (srv (Suc n)) \<longrightarrow>
        (\<exists>x. sent (snd (call rt srv v c)) = sent c @ [x, relog]) \<and>
        (v \<noteq> GetVersion \<longrightarrow> fst (call rt srv v c) = Inl (Error (js ''session expired'')))) \<and>
     (\<exists>xs. sent (snd (call rt srv' v' c')) = sent c' @ xs \<and> retry_shape c' xs)"
proof -
  note ok = withRetry_relogin_accepted [where srv = srv and c = c, OF creds idle expired, folded names(1), folded names(2) names(3)]
  note no = withRetry_relogin_rejected [where srv = srv and c = c, OF creds idle expired, folded names(1), folded names(2) names(3)]
  have third: "fst (withRetry rt srv (request rt srv m p b) c) = Inr data"
    if "login_accepts rt (srv (Suc n))" "srv (Suc (Suc n)) = Inr \<lparr>status = 200, body_text = Inr D\<rparr>"
      "json_parse rt D = Inr data" for m p b
    using ok [OF that(1), of m p b] that(2,3) by (simp add: handleResponse_ok)
  have A: "login_accepts rt (srv (Suc n)) \<longrightarrow>
        withRetry rt srv (request rt srv m p b) c =
          (case srv (Suc (Suc n)) of Inl e \<Rightarrow> Inl e | Inr res \<Rightarrow> handleResponse rt res,
           c\<lparr>sessionId := sid,
             sent := sent c @ [request_of rt m p b c, relog, request_of rt m p b (c\<lparr>sessionId := sid\<rparr>)]\<rparr>) \<and>
        (srv (Suc (Suc n)) = Inr \<lparr>status = 200, body_text = Inr D\<rparr> \<and> json_parse rt D = Inr data \<longrightarrow>
           fst (withRetry rt srv (request rt srv m p b) c) = Inr data)"
    using ok [of m p b] third [of m p b] by blast
  have B: "\<not> login_accepts rt (srv (Suc n)) \<longrightarrow>
        fst (withRetry rt srv (request rt srv m p b) c) = Inl (Error (js ''session expired'')) \<and>
        sent (snd (withRetry rt srv (request rt srv m p b) c)) = sent c @ [request_of rt m p b c, relog]"
    using no [of m p b] by blast
  have C: "(\<exists>x. sent (snd (call rt srv v c)) =
               sent c @ [x, relog, x\<lparr>req_authorization := headers rt (c\<lparr>sessionId := sid\<rparr>)\<rparr>]) \<and>
        sessionId (snd (call rt srv v c)) = sid \<and>
        (srv (Suc (Suc n)) = Inr \<lparr>status = 200, body_text = Inr D\<rparr> \<and> json_parse rt D = Inr data \<longrightarrow>
           ((\<forall>x y. v \<noteq> Get x y) \<longrightarrow> fst (call rt srv v c) = Inr data) \<and>
           (data \<noteq> JNull \<longrightarrow> (\<exists>y. fst (call rt srv v c) = Inr y)))"
    if r: "retried rt v" and acc: "login_accepts rt (srv (Suc n))"
  proof -
    from call_wrapped [OF r] obtain m' p' b' where
      w: "snd (call rt srv v c) = snd (withRetry rt srv (request rt srv m' p' b') c)"
      and w1: "(\<forall>x y. v \<noteq> Get x y) \<Longrightarrow> fst (withRetry rt srv (request rt srv m' p' b') c) = Inr d
               \<Longrightarrow> fst (call rt srv v c) = Inr d"
      and w2: "d \<noteq> JNull \<Longrightarrow> fst (withRetry rt srv (request rt srv m' p' b') c) = Inr d
               \<Longrightarrow> \<exists>y. fst (call rt srv v c) = Inr y" for d
      by blast
    have s: "sent (snd (call rt srv v c)) =
        sent c @ [request_of rt m' p' b' c, relog, request_of rt m' p' b' (c\<lparr>sessionId := sid\<rparr>)]"
      "sessionId (snd (call rt srv v c)) = sid"
      unfolding w using ok [OF acc, of m' p' b'] by simp_all
    have x: "request_of rt m' p' b' (c\<lparr>sessionId := sid\<rparr>) =
        (request_of rt m' p' b' c)\<lparr>req_authorization := headers rt (c\<lparr>sessionId := sid\<rparr>)\<rparr>"
      by (simp add: request_of_def)
    show ?thesis
      using s x w1 w2 third [OF acc, of m' p' b'] by auto
  qed
  have Dd: "(\<exists>x. sent (snd (call rt srv v c)) = sent c @ [x, relog]) \<and>
        (v \<noteq> GetVersion \<longrightarrow> fst (call rt srv v c) = Inl (Error (js ''session expired'')))"
    if r: "retried rt v" and rej: "\<not> login_accepts rt (srv (Suc n))"
  proof -
    from call_wrapped [OF r] obtain m' p' b' where
      w: "snd (call rt srv v c) = snd (withRetry rt srv (request rt srv m' p' b') c)"
      and w3: "v \<noteq> GetVersion \<Longrightarrow> fst (withRetry rt srv (request rt srv m' p' b') c) = Inl err
               \<Longrightarrow> fst (call rt srv v c) = Inl err" for err
      by blast
    show ?thesis
      unfolding w using no [OF rej, of m' p' b'] w3 by auto
  qed
  have E: "\<exists>xs. sent (snd (call rt srv' v' c')) = sent c' @ xs \<and> retry_shape c' xs"
    using call_shape [of rt srv' v' c'] by blast
  have F: "srv0 (length (sent c0)) = Inr \<lparr>status = 401, body_text = Inr B\<rparr> \<and>
      (relogging c0 \<or> \<not> fst (relogin rt srv0 (c0\<lparr>sent := sent c0 @ [request_of rt m p b c0]\<rparr>))) \<longrightarrow>
        fst (withRetry rt srv0 (request rt srv0 m p b) c0) = Inl (Error (js ''session expired''))"
    using withRetry_relogin_unsuccessful [where srv = srv0 and c = c0, OF _ expired(2)] by blast
  from A B C Dd E F show ?thesis by blast
qed

theorem session_expired_retry_witness:
  "fst (query example_runtime expired_then_ok (Some (JStr (js ''vm-instances''))) (Some (JArr []))
         (Some (JNum 5)) (Some (JNum 0)) None None example_client)
     = Inr (JObj [(js ''inventories'', JArr [])]) \<and>
   sent (snd (query example_runtime expired_then_ok (Some (JStr (js ''vm-instances'')))
         (Some (JArr [])) (Some (JNum 5)) (Some (JNum 0)) None None example_client)) =
     [request_of example_runtime (js ''GET'') (scenario_url example_runtime) None example_client,
      login_request example_runtime (js ''admin'') (js ''secret'') (example_client\<lparr>sessionId := Some JNull\<rparr>),
      request_of example_runtime (js ''GET'') (scenario_url example_runtime) None
        (example_client\<lparr>sessionId := Some (JStr (js ''s2''))\<rparr>)] \<and>
   fst (query example_runtime expired_then_refused (Some (JStr (js ''vm-instances''))) (Some (JArr []))
         (Some (JNum 5)) (Some (JNum 0)) None None example_client)
     = Inl (Error (js ''session expired'')) \<and>
   length (sent (snd (query example_runtime expired_then_refused (Some (JStr (js ''vm-instances'')))
         (Some (JArr [])) (Some (JNum 5)) (Some (JNum 0)) None None example_client))) = 2 \<and>
   fst (update example_runtime expired_then_ok (Some (JStr (js ''v1/vm-instances''))) (Some (JStr (js ''x'')))
         (Some (JObj [])) example_client)
     = Inr (JObj [(js ''inventories'', JArr [])]) \<and>
   length (sent (snd (update example_runtime expired_then_ok (Some (JStr (js ''v1/vm-instances'')))
         (Some (JStr (js ''x''))) (Some (JObj [])) example_client))) = 3 \<and>
   fst (remove example_runtime expired_then_refused (Some (JStr (js ''v1/vm-instances'')))
         (Some (JStr (js ''x''))) None example_client)
     = Inl (Error (js ''session expired'')) \<and>
   length (sent (snd (remove example_runtime expired_then_refused (Some (JStr (js ''v1/vm-instances'')))
         (Some (JStr (js ''x''))) None example_client))) = 2 \<and>
   fst (query example_runtime expired_then_ok (Some (JStr (js ''vm-instances''))) (Some (JArr []))
         (Some (JNum 5)) (Some (JNum 0)) None None (example_client\<lparr>accountName := None\<rparr>))
     = Inl (Error (js ''session expired''))"
proof -
  let ?q = "Query (Some (JStr (js ''vm-instances''))) (Some (JArr [])) (Some (JNum 5)) (Some (JNum 0)) None None"
  let ?u = "Update (Some (JStr (js ''v1/vm-instances''))) (Some (JStr (js ''x''))) (Some (JObj []))"
  let ?r = "Remove (Some (JStr (js ''v1/vm-instances''))) (Some (JStr (js ''x''))) None"
  have creds: "accountName example_client = Some (js ''admin'')"
    "password example_client = Some (js ''secret'')" "js ''admin'' \<noteq> []" "js ''secret'' \<noteq> []"
    "\<not> relogging example_client"
    by (simp_all add: example_defs)
  have e1: \<open>expired_then_ok (length (sent example_client)) =
      Inr \<lparr>status = 401, body_text = Inr (js ''{"error":{"details":"session expired"}}'')\<rparr>\<close>
    by (simp add: example_defs)
  have e2: \<open>expired_then_refused (length (sent example_client)) =
      Inr \<lparr>status = 401, body_text = Inr (js ''{"error":{"details":"session expired"}}'')\<rparr>\<close>
    by (simp add: example_defs)
  have p: \<open>json_parse example_runtime (js ''{"error":{"details":"session expired"}}'') =
      Inr (JObj [(js ''error'', JObj [(js ''details'', JStr (js ''session expired''))])])\<close>
    by (simp add: example_defs)
  have empty: "sent example_client = []" by (simp add: example_client_def)
  have accepted: "login_accepts example_runtime (expired_then_ok (Suc (length (sent example_client))))"
    by (simp add: example_defs login_accepts_def handleResponse_def ok_def)
  have third: \<open>expired_then_ok (Suc (Suc (length (sent example_client)))) =
        Inr \<lparr>status = 200, body_text = Inr (js ''{"inventories":[]}'')\<rparr> \<and>
      json_parse example_runtime (js ''{"inventories":[]}'') = Inr (JObj [(js ''inventories'', JArr [])])\<close>
    by (simp add: example_defs)
  have refused: "\<not> login_accepts example_runtime (expired_then_refused (Suc (length (sent example_client))))"
    by (simp add: example_defs login_accepts_def handleResponse_def ok_def js_or_def Str_def Error_def)
  have wrapped: "retried example_runtime ?q" "retried example_runtime ?u" "retried example_runtime ?r"
    by simp_all
  have plain: "\<forall>x y. ?q \<noteq> Get x y" "\<forall>x y. ?u \<noteq> Get x y" "?q \<noteq> GetVersion" "?r \<noteq> GetVersion"
    by simp_all
  note T1 = session_expired_retry [where c = example_client and srv = expired_then_ok and v = ?q,
      OF creds e1 p refl refl refl]
  note T2 = session_expired_retry [where c = example_client and srv = expired_then_refused and v = ?q,
      OF creds e2 p refl refl refl]
  note T3 = session_expired_retry [where c = example_client and srv = expired_then_ok and v = ?u,
      OF creds e1 p refl refl refl]
  note T4 = session_expired_retry [where c = example_client and srv = expired_then_refused and v = ?r,
      OF creds e2 p refl refl refl]
  note V1 = conjunct1 [OF conjunct2 [OF conjunct2 [OF conjunct2 [OF T1]]], THEN mp, OF conjI [OF wrapped(1) accepted]]
  note V2 = conjunct1 [OF conjunct2 [OF conjunct2 [OF conjunct2 [OF conjunct2 [OF T2]]]], THEN mp,
      OF conjI [OF wrapped(1) refused]]
  note V3 = conjunct1 [OF conjunct2 [OF conjunct2 [OF conjunct2 [OF T3]]], THEN mp, OF conjI [OF wrapped(2) accepted]]
  note V4 = conjunct1 [OF conjunct2 [OF conjunct2 [OF conjunct2 [OF conjunct2 [OF T4]]]], THEN mp,
      OF conjI [OF wrapped(3) refused]]
  have session: "login_session example_runtime (expired_then_ok (Suc (length (sent example_client)))) =
      Some (JStr (js ''s2''))"
    by (simp add: example_defs login_session_def handleResponse_def ok_def)
  from conjunct1 [OF T1 [of "js ''GET''" "scenario_url example_runtime" None], THEN mp, OF accepted, THEN conjunct1]
  have A: "sent (snd (call example_runtime expired_then_ok ?q example_client)) =
     [request_of example_runtime (js ''GET'') (scenario_url example_runtime) None example_client,
      login_request example_runtime (js ''admin'') (js ''secret'') (example_client\<lparr>sessionId := Some JNull\<rparr>),
      request_of example_runtime (js ''GET'') (scenario_url example_runtime) None
        (example_client\<lparr>sessionId := Some (JStr (js ''s2''))\<rparr>)]"
    using empty session by (simp add: scenario_query)
  from conjunct2 [OF conjunct2 [OF V1], THEN mp, OF third, THEN conjunct1, THEN mp, OF plain(1)]
  have A': "fst (call example_runtime expired_then_ok ?q example_client) = Inr (JObj [(js ''inventories'', JArr [])])" .
  from conjunct1 [OF V2] have B: "length (sent (snd (call example_runtime expired_then_refused ?q example_client))) = 2"
    using empty by auto
  from conjunct2 [OF V2, THEN mp, OF plain(3)]
  have B': "fst (call example_runtime expired_then_refused ?q example_client) = Inl (Error (js ''session expired''))" .
  from conjunct1 [OF V3] have C: "length (sent (snd (call example_runtime expired_then_ok ?u example_client))) = 3"
    using empty by auto
  from conjunct2 [OF conjunct2 [OF V3], THEN mp, OF third, THEN conjunct1, THEN mp, OF plain(2)]
  have C': "fst (call example_runtime expired_then_ok ?u example_client) = Inr (JObj [(js ''inventories'', JArr [])])" .
  from conjunct1 [OF V4] have D: "length (sent (snd (call example_runtime expired_then_refused ?r example_client))) = 2"
    using empty by auto
  from conjunct2 [OF V4, THEN mp, OF plain(4)]
  have D': "fst (call example_runtime expired_then_refused ?r example_client) = Inl (Error (js ''session expired''))" .
  let ?anon = "example_client\<lparr>accountName := None\<rparr>"
  have anon: \<open>expired_then_ok (length (sent ?anon)) =
        Inr \<lparr>status = 401, body_text = Inr (js ''{"error":{"details":"session expired"}}'')\<rparr> \<and>
      (relogging ?anon \<or>
       \<not> fst (relogin example_runtime expired_then_ok
                (?anon\<lparr>sent := sent ?anon @
                   [request_of example_runtime (js ''GET'') (scenario_url example_runtime) None ?anon]\<rparr>)))\<close>
    by (simp add: example_defs relogin.simps)
  from conjunct1 [OF conjunct2 [OF conjunct2 [OF T1 [of "js ''GET''" "scenario_url example_runtime" None]]],
      THEN mp, OF anon]
  have E: "fst (call example_runtime expired_then_ok ?q ?anon) = Inl (Error (js ''session expired''))"
    by (simp add: scenario_query)
  from A A' B B' C C' D D' E show ?thesis by simp
qed

section \<open>The resource client: one entity\<close>

text \<open>
  C8: when the server answers \<open>get\<close> with \<^verbatim>\<open>{"inventories":[e]}\<close>, the value returned
  has \<open>e\<close> under \<open>inventory\<close> (and keeps \<open>inventories\<close>); when it answers with
  \<^verbatim>\<open>{"inventory":e}\<close>, for an entity \<open>e\<close> (any truthy value), the value is returned as
  it is. In both cases the entity is the \<open>inventory\<close> field of the result.
\<close>

theorem get_normalizes_envelope:
  assumes "srv (length (sent c)) = Inr \<lparr>status = 200, body_text = Inr T\<rparr>"
  shows
    "(json_parse rt T = Inr (JObj [(js ''inventories'', JArr [ent])]) \<longrightarrow>
        (\<exists>c'. get rt srv p u c =
                (Inr (JObj [(js ''inventories'', JArr [ent]), (js ''inventory'', ent)]), c')) \<and>
        (\<exists>d. fst (get rt srv p u c) = Inr d \<and> field d (js ''inventory'') = Some ent)) \<and>
     (json_parse rt T = Inr (JObj [(js ''inventory'', ent)]) \<and> truthy ent \<longrightarrow>
        (\<exists>c'. get rt srv p u c = (Inr (JObj [(js ''inventory'', ent)]), c')) \<and>
        (\<exists>d. fst (get rt srv p u c) = Inr d \<and> field d (js ''inventory'') = Some ent))"
  using assms
  by (auto simp: get_def priv_get_def withRetry.simps request_eq handleResponse_ok gt_zero_def Let_def)

theorem get_normalizes_envelope_witness:
  "fst (get example_runtime wrapped_entity (Some (JStr (js ''v1/vm-instances''))) (Some (JStr (js ''x'')))
        example_client)
     = Inr (JObj [(js ''inventories'', JArr [JObj [(js ''uuid'', JStr (js ''x''))]]),
                  (js ''inventory'', JObj [(js ''uuid'', JStr (js ''x''))])]) \<and>
   fst (get example_runtime single_entity (Some (JStr (js ''v1/vm-instances''))) (Some (JStr (js ''x'')))
        example_client)
     = Inr (JObj [(js ''inventory'', JObj [(js ''uuid'', JStr (js ''x''))])])"
proof -
  have a: \<open>wrapped_entity (length (sent example_client)) =
      Inr \<lparr>status = 200, body_text = Inr (js ''{"inventories":[{"uuid":"x"}]}'')\<rparr>\<close>
    by (simp add: example_defs)
  have b: \<open>single_entity (length (sent example_client)) =
      Inr \<lparr>status = 200, body_text = Inr (js ''{"inventory":{"uuid":"x"}}'')\<rparr>\<close>
    by (simp add: example_defs)
  have pa: \<open>json_parse example_runtime (js ''{"inventories":[{"uuid":"x"}]}'') =
      Inr (JObj [(js ''inventories'', JArr [JObj [(js ''uuid'', JStr (js ''x''))]])])\<close>
    by (simp add: example_defs)
  have pb: \<open>json_parse example_runtime (js ''{"inventory":{"uuid":"x"}}'') =
      Inr (JObj [(js ''inventory'', JObj [(js ''uuid'', JStr (js ''x''))])]) \<and>
      truthy (JObj [(js ''uuid'', JStr (js ''x''))])\<close>
    by (simp add: example_defs)
  note T1 = get_normalizes_envelope [where c = example_client and srv = wrapped_entity
      and p = "Some (JStr (js ''v1/vm-instances''))" and u = "Some (JStr (js ''x''))", OF a]
  note T2 = get_normalizes_envelope [where c = example_client and srv = single_entity
      and p = "Some (JStr (js ''v1/vm-instances''))" and u = "Some (JStr (js ''x''))", OF b]
  from conjunct1 [OF T1, THEN mp, OF pa] obtain c1 where
    "get example_runtime wrapped_entity (Some (JStr (js ''v1/vm-instances''))) (Some (JStr (js ''x'')))
        example_client
     = (Inr (JObj [(js ''inventories'', JArr [JObj [(js ''uuid'', JStr (js ''x''))]]),
                  (js ''inventory'', JObj [(js ''uuid'', JStr (js ''x''))])]), c1)"
    by blast
  moreover from conjunct2 [OF T2, THEN mp, OF pb] obtain c2 where
    "get example_runtime single_entity (Some (JStr (js ''v1/vm-instances''))) (Some (JStr (js ''x'')))
        example_client
     = (Inr (JObj [(js ''inventory'', JObj [(js ''uuid'', JStr (js ''x''))])]), c2)"
    by blast
  ultimately show ?thesis by simp
qed

section \<open>Path normalization\<close>

text \<open>
  C7, as stated, says that every path string lacking the prefix gains it. The empty
  string lacks the prefix and is returned as it is, by the guard \<open>p &&\<close>.
\<close>

theorem fixPath_empty_keeps_no_prefix:
  "\<not> startsWith [] (js ''v1/'') \<and>
   fixPath (Some (JStr [])) = Inr (Some (JStr [])) \<and>
   fixPath (Some (JStr [])) \<noteq> Inr (Some (JStr (js ''v1/'' @ [])))"
  by (simp add: fixPath_def startsWith_def js_def)

text \<open>
  C7, amended: on every path string \<open>fixPath\<close> returns a string and is idempotent; a
  path that starts with \<open>v1/\<close> is returned unchanged; a non-empty path that does not
  gains the prefix exactly once; the empty path is returned unchanged.
\<close>

theorem fixPath_idempotent:
  "(\<exists>q. fixPath (Some (JStr p)) = Inr (Some (JStr q)) \<and>
        fixPath (Some (JStr q)) = Inr (Some (JStr q))) \<and>
   (startsWith p (js ''v1/'') \<longrightarrow> fixPath (Some (JStr p)) = Inr (Some (JStr p))) \<and>
   (p \<noteq> [] \<and> \<not> startsWith p (js ''v1/'') \<longrightarrow>
      fixPath (Some (JStr p)) = Inr (Some (JStr (js ''v1/'' @ p)))) \<and>
   (p = [] \<longrightarrow> fixPath (Some (JStr p)) = Inr (Some (JStr [])))"
proof -
  have prefixed: "startsWith (js ''v1/'' @ p) (js ''v1/'')"
    by (simp add: startsWith_def js_def)
  show ?thesis
  proof (cases "p = [] \<or> startsWith p (js ''v1/'')")
    case True
    then show ?thesis
      by (auto simp: fixPath_def)
  next
    case False
    then have "fixPath (Some (JStr p)) = Inr (Some (JStr (js ''v1/'' @ p)))"
      by (simp add: fixPath_def)
    moreover have "fixPath (Some (JStr (js ''v1/'' @ p))) = Inr (Some (JStr (js ''v1/'' @ p)))"
      using prefixed by (simp add: fixPath_def)
    ultimately show ?thesis
      using False by auto
  qed
qed

theorem fixPath_idempotent_witness:
  "fixPath (Some (JStr (js ''vm-instances''))) = Inr (Some (JStr (js ''v1/vm-instances''))) \<and>
   fixPath (Some (JStr (js ''v1/vm-instances''))) = Inr (Some (JStr (js ''v1/vm-instances'')))"
  using fixPath_idempotent [of "js ''vm-instances''"] fixPath_idempotent [of "js ''v1/vm-instances''"]
  by (simp add: startsWith_def js_def)

section \<open>The engine: what an adapter call changes\<close>

lemma present_map_Some [simp]: "present (map Some xs) = xs"
  by (induction xs) (simp_all add: present_def)

lemma fill_slots:
  assumes "length vs = length xs" "\<forall>k \<in> set ks. k < length xs"
  shows "length (foldl (\<lambda>vals k. vals[k := Some (xs ! k)]) vs ks) = length xs \<and>
         (\<forall>j < length xs. foldl (\<lambda>vals k. vals[k := Some (xs ! k)]) vs ks ! j =
            (if j \<in> set ks then Some (xs ! j) else vs ! j))"
  using assms
proof (induction ks arbitrary: vs)
  case Nil
  then show ?case by simp
next
  case (Cons k ks)
  have "length (vs[k := Some (xs ! k)]) = length xs" using Cons.prems by simp
  moreover have "\<forall>k \<in> set ks. k < length xs" using Cons.prems by simp
  ultimately have IH: "length (foldl (\<lambda>vals k. vals[k := Some (xs ! k)]) (vs[k := Some (xs ! k)]) ks) = length xs \<and>
         (\<forall>j < length xs. foldl (\<lambda>vals k. vals[k := Some (xs ! k)]) (vs[k := Some (xs ! k)]) ks ! j =
            (if j \<in> set ks then Some (xs ! j) else (vs[k := Some (xs ! k)]) ! j))"
    by (rule Cons.IH)
  show ?case
    using IH Cons.prems by (auto simp: nth_list_update)
qed

lemma promise_all_in_order: "promise_all t xs = xs"
proof -
  let ?ks = "completion_order t (length xs)"
  let ?r = "foldl (\<lambda>vals k. vals[k := Some (xs ! k)]) (replicate (length xs) None) ?ks"
  have ks: "set ?ks = {0..<length xs}"
    by (simp add: completion_order_def)
  have "length ?r = length xs \<and> (\<forall>j < length xs. ?r ! j = (if j \<in> set ?ks then Some (xs ! j) else replicate (length xs) None ! j))"
    by (rule fill_slots) (use ks in auto)
  then have "?r = map Some xs"
    using ks by (intro nth_equalityI) auto
  then show ?thesis
    by (simp add: promise_all_def)
qed

lemma untouched_refl [simp]: "untouched e e"
  by (simp add: untouched_def)

lemma untouched_trans: "untouched a b \<Longrightarrow> untouched b c \<Longrightarrow> untouched a c"
  by (simp add: untouched_def)

lemma untouched_emit [simp]: "untouched e (emit ev e')\<longleftrightarrow> untouched e e'"
  by (simp add: untouched_def emit_def)

lemma signal_emit [simp]: "signal_aborted (emit ev e) = signal_aborted e"
  by (simp add: emit_def)

lemma AbortError_name [simp]: "ename AbortError = js ''AbortError''"
  by (simp add: AbortError_def)

lemma await_signal_frame:
  assumes "await_signal net i p out e = (r, e')"
  shows "untouched e e' \<and> (if signal_aborted e' then r = Inl AbortError else r = out)"
  using assms by (auto simp: await_signal_def abort_def untouched_def Let_def split: if_splits)

lemma openai_line_frame:
  "openai_line acc e l = (r, acc', e') \<Longrightarrow> untouched e e' \<and> signal_aborted e' = signal_aborted e"
  by (cases "(acc, e, l)" rule: openai_line.cases) (auto simp: Let_def split: if_splits)

lemma openai_lines_frame:
  "openai_lines acc e ls = (r, acc', e') \<Longrightarrow> untouched e e' \<and> signal_aborted e' = signal_aborted e"
proof (induction ls arbitrary: acc e)
  case Nil
  then show ?case by simp
next
  case (Cons l ls)
  obtain r1 acc1 e1 where l: "openai_line acc e l = (r1, acc1, e1)"
    by (cases "openai_line acc e l")
  from openai_line_frame [OF l] have f1: "untouched e e1" "signal_aborted e1 = signal_aborted e"
    by simp_all
  show ?case
  proof (cases r1)
    case None
    with Cons.prems l have "openai_lines acc1 e1 ls = (r, acc', e')" by simp
    from Cons.IH [OF this] f1 show ?thesis by (auto intro: untouched_trans)
  next
    case (Some err)
    with Cons.prems l f1 show ?thesis by auto
  qed
qed

lemma aborts_simps [simp]: "aborts (Inl err) = (ename err = js ''AbortError'')" "aborts (Inr v) = False"
  by (simp_all add: aborts_def)

lemma openai_catch_abort [simp]: "aborts (openai_catch AbortError acc)"
  by (simp add: openai_catch_def)

lemma openai_read_loop_frame:
  "openai_read_loop net i k acc rs e = (r, e') \<Longrightarrow>
     untouched e e' \<and> (signal_aborted e' \<longrightarrow> aborts r)"
proof (induction rs arbitrary: k acc e)
  case Nil
  obtain r1 e1 where a: "await_signal net i (AwaitRead k) (Inr ()) e = (r1, e1)"
    by (cases "await_signal net i (AwaitRead k) (Inr ()) e")
  from await_signal_frame [OF a] Nil a show ?case
    by (auto split: if_splits sum.splits)
next
  case (Cons x rs)
  obtain r1 e1 where a: "await_signal net i (AwaitRead k) x e = (r1, e1)"
    by (cases "await_signal net i (AwaitRead k) x e")
  note f = await_signal_frame [OF a]
  show ?case
  proof (cases r1)
    case (Inl err)
    with Cons.prems a f show ?thesis by (auto split: if_splits)
  next
    case (Inr ls)
    with f have na: "\<not> signal_aborted e1" by (auto split: if_splits)
    obtain r2 acc2 e2 where l: "openai_lines acc e1 ls = (r2, acc2, e2)"
      by (cases "openai_lines acc e1 ls")
    note g = openai_lines_frame [OF l]
    show ?thesis
    proof (cases r2)
      case None
      with Cons.prems a Inr l have "openai_read_loop net i (Suc k) acc2 rs e2 = (r, e')" by simp
      from Cons.IH [OF this] f g show ?thesis by (auto intro: untouched_trans)
    next
      case (Some err)
      with Cons.prems a Inr l f g na show ?thesis by (auto intro: untouched_trans)
    qed
  qed
qed

lemma callOpenAINonStream_frame:
  "callOpenAINonStream rt net i e = (r, e') \<Longrightarrow>
     untouched e e' \<and> (signal_aborted e' \<longrightarrow> aborts r)"
proof -
  assume c: "callOpenAINonStream rt net i e = (r, e')"
  obtain r1 e1 where a: "await_signal net i AwaitFetchNonStream (openai_nonstream net i e) e = (r1, e1)"
    by (cases "await_signal net i AwaitFetchNonStream (openai_nonstream net i e) e")
  note f = await_signal_frame [OF a]
  show ?thesis
  proof (cases r1)
    case (Inl err)
    with c a f show ?thesis by (auto simp: callOpenAINonStream_def split: if_splits)
  next
    case (Inr res)
    with f have na: "\<not> signal_aborted e1" by (auto split: if_splits)
    show ?thesis
    proof (cases "j_ok res")
      case False
      obtain r2 e2 where b: "await_signal net i AwaitTextNonStream (j_text res) e1 = (r2, e2)"
        by (cases "await_signal net i AwaitTextNonStream (j_text res) e1")
      from await_signal_frame [OF b] c a Inr False b f show ?thesis
        by (cases r2) (auto simp: callOpenAINonStream_def intro: untouched_trans split: if_splits)
    next
      case True
      obtain r2 e2 where b: "await_signal net i AwaitJson (j_json res) e1 = (r2, e2)"
        by (cases "await_signal net i AwaitJson (j_json res) e1")
      from await_signal_frame [OF b] c a Inr True b f show ?thesis
        by (cases r2)
           (auto simp: callOpenAINonStream_def Let_def intro: untouched_trans
             split: if_splits completion.splits)
    qed
  qed
qed

lemma callOpenAIStream_frame:
  "callOpenAIStream rt net i e = (r, e') \<Longrightarrow>
     untouched e e' \<and> (signal_aborted e' \<longrightarrow> aborts r)"
proof -
  assume c: "callOpenAIStream rt net i e = (r, e')"
  obtain r1 e1 where a: "await_signal net i AwaitFetch (openai_stream net i e) e = (r1, e1)"
    by (cases "await_signal net i AwaitFetch (openai_stream net i e) e")
  note f = await_signal_frame [OF a]
  show ?thesis
  proof (cases r1)
    case (Inl err)
    with c a f show ?thesis by (auto simp: callOpenAIStream_def split: if_splits)
  next
    case (Inr res)
    show ?thesis
    proof (cases "s_ok res")
      case True
      with c a Inr have "openai_read_loop net i 0 ([], []) (s_reads res) e1 = (r, e')"
        by (simp add: callOpenAIStream_def)
      from openai_read_loop_frame [OF this] f show ?thesis by (auto intro: untouched_trans)
    next
      case False
      obtain r2 e2 where b: "await_signal net i AwaitText (s_text res) e1 = (r2, e2)"
        by (cases "await_signal net i AwaitText (s_text res) e1")
      note g = await_signal_frame [OF b]
      show ?thesis
      proof (cases r2)
        case (Inl err)
        with c a Inr False b f g show ?thesis
          by (auto simp: callOpenAIStream_def intro: untouched_trans split: if_splits)
      next
        case (Inr errText)
        with g have na: "\<not> signal_aborted e2" by (auto split: if_splits)
        have u: "untouched e e2" using f g by (auto intro: untouched_trans)
        show ?thesis
        proof (cases "\<exists>m. errMsg rt errText = JStr m \<and>
            (str_includes (toLowerCase m) (js ''stream'') \<or> str_includes (toLowerCase m) (js ''not support''))")
          case True
          with c a \<open>r1 = Inr res\<close> False b Inr have "callOpenAINonStream rt net i e2 = (r, e')"
            by (auto simp: callOpenAIStream_def)
          from callOpenAINonStream_frame [OF this] u show ?thesis by (auto intro: untouched_trans)
        next
          case nf: False
          with c a \<open>r1 = Inr res\<close> False b Inr have "e' = e2"
            by (auto simp: callOpenAIStream_def split: json.splits if_splits)
          with u na show ?thesis by simp
        qed
      qed
    qed
  qed
qed

lemma anthropic_step_frame:
  "anthropic_step rt acc e ev = (r, acc', e') \<Longrightarrow> untouched e e' \<and> signal_aborted e' = signal_aborted e"
  by (cases "(rt, acc, e, ev)" rule: anthropic_step.cases)
     (auto simp: Let_def split: if_splits option.splits)

lemma anthropic_lines_frame:
  "anthropic_lines rt acc e ls = (r, acc', e') \<Longrightarrow> untouched e e' \<and> signal_aborted e' = signal_aborted e"
proof (induction rt acc e ls rule: anthropic_lines.induct)
  case (1 rt acc e)
  then show ?case by simp
next
  case (2 rt acc e ls)
  then show ?case by simp
next
  case (3 rt acc e ev ls)
  obtain r1 acc1 e1 where l: "anthropic_step rt acc e ev = (r1, acc1, e1)"
    by (cases "anthropic_step rt acc e ev")
  note f = anthropic_step_frame [OF l]
  show ?case
  proof (cases r1)
    case None
    with "3.prems" l have "anthropic_lines rt acc1 e1 ls = (r, acc', e')" by simp
    from "3.IH" [OF l [symmetric] _ _ this] None f show ?thesis
      by (auto intro: untouched_trans)
  next
    case (Some err)
    with "3.prems" l f show ?thesis by auto
  qed
qed

lemma anthropic_catch_abort [simp]: "aborts (anthropic_catch AbortError acc)"
  by (simp add: anthropic_catch_def)

lemma anthropic_read_loop_frame:
  "anthropic_read_loop rt net i k acc rs e = (r, e') \<Longrightarrow>
     untouched e e' \<and> (signal_aborted e' \<longrightarrow> aborts r)"
proof (induction rs arbitrary: k acc e)
  case Nil
  obtain r1 e1 where a: "await_signal net i (AwaitRead k) (Inr ()) e = (r1, e1)"
    by (cases "await_signal net i (AwaitRead k) (Inr ()) e")
  from await_signal_frame [OF a] Nil a show ?case
    by (auto split: if_splits sum.splits)
next
  case (Cons x rs)
  obtain r1 e1 where a: "await_signal net i (AwaitRead k) x e = (r1, e1)"
    by (cases "await_signal net i (AwaitRead k) x e")
  note f = await_signal_frame [OF a]
  show ?case
  proof (cases r1)
    case (Inl err)
    with Cons.prems a f show ?thesis by (auto split: if_splits)
  next
    case (Inr ls)
    with f have na: "\<not> signal_aborted e1" by (auto split: if_splits)
    obtain r2 acc2 e2 where l: "anthropic_lines rt acc e1 ls = (r2, acc2, e2)"
      by (cases "anthropic_lines rt acc e1 ls")
    note g = anthropic_lines_frame [OF l]
    show ?thesis
    proof (cases r2)
      case None
      with Cons.prems a Inr l have "anthropic_read_loop rt net i (Suc k) acc2 rs e2 = (r, e')" by simp
      from Cons.IH [OF this] f g show ?thesis by (auto intro: untouched_trans)
    next
      case (Some err)
      with Cons.prems a Inr l f g na show ?thesis by (auto intro: untouched_trans)
    qed
  qed
qed

lemma callAnthropicStream_frame:
  "callAnthropicStream rt net i e = (r, e') \<Longrightarrow>
     untouched e e' \<and> (signal_aborted e' \<longrightarrow> aborts r)"
proof -
  assume c: "callAnthropicStream rt net i e = (r, e')"
  obtain r1 e1 where a: "await_signal net i AwaitFetch (anthropic_stream net i e) e = (r1, e1)"
    by (cases "await_signal net i AwaitFetch (anthropic_stream net i e) e")
  note f = await_signal_frame [OF a]
  show ?thesis
  proof (cases r1)
    case (Inl err)
    with c a f show ?thesis by (auto simp: callAnthropicStream_def split: if_splits)
  next
    case (Inr res)
    show ?thesis
    proof (cases "s_ok res")
      case True
      with c a Inr have "anthropic_read_loop rt net i 0 anthropic_init (s_reads res) e1 = (r, e')"
        by (simp add: callAnthropicStream_def)
      from anthropic_read_loop_frame [OF this] f show ?thesis by (auto intro: untouched_trans)
    next
      case False
      obtain r2 e2 where b: "await_signal net i AwaitText (s_text res) e1 = (r2, e2)"
        by (cases "await_signal net i AwaitText (s_text res) e1")
      from await_signal_frame [OF b] c a Inr False b f show ?thesis
        by (cases r2) (auto simp: callAnthropicStream_def intro: untouched_trans split: if_splits)
    qed
  qed
qed

lemma call_adapter_frame:
  "call_adapter rt net i e = (r, e') \<Longrightarrow>
     untouched e e' \<and> (signal_aborted e' \<longrightarrow> aborts r)"
proof (cases "isAnthropic e")
  case True
  assume c: "call_adapter rt net i e = (r, e')"
  obtain r1 e1 where a: "callAnthropicStream rt net i e = (r1, e1)"
    by (cases "callAnthropicStream rt net i e")
  from callAnthropicStream_frame [OF a] c a True show ?thesis
    by (cases r1) (auto simp: call_adapter_def)
next
  case False
  assume c: "call_adapter rt net i e = (r, e')"
  obtain r1 e1 where a: "callOpenAIStream rt net i e = (r1, e1)"
    by (cases "callOpenAIStream rt net i e")
  from callOpenAIStream_frame [OF a] c a False show ?thesis
    by (cases r1) (auto simp: call_adapter_def)
qed

lemma tool_results_append [simp]: "tool_results (a @ b) = tool_results a @ tool_results b"
  by (simp add: tool_results_def)

lemma tool_results_Nil [simp]: "tool_results [] = []"
  by (simp add: tool_results_def)

lemma tool_results_single [simp]: "tool_results [m] = results_of m"
  by (simp add: tool_results_def)

lemma tool_results_result_turns [simp]: "tool_results (result_turns resp results) = results"
proof (cases resp)
  case (OpenAI r)
  have "concat (map results_of (map (\<lambda>res. ToolMessage (fst res) (snd res)) xs)) = xs" for xs
    by (induction xs) simp_all
  with OpenAI show ?thesis by (simp add: tool_results_def)
next
  case (Anthropic r)
  then show ?thesis by simp
qed

lemma plain_raw_simps [simp]:
  "plain_raw (Inl err)" "plain_raw (Inr resp) = (results_of (rawMessage resp) = [])"
  by (simp_all add: plain_raw_def)

lemma plain_raw_catch [simp]: "plain_raw (openai_catch err acc)"
  by (simp add: openai_catch_def)

lemma plain_raw_finish [simp]: "results_of (rawMessage (openai_finish acc)) = []"
  by (simp add: openai_finish_def Let_def)

lemma openai_read_loop_raw:
  "plain_raw (fst (openai_read_loop net i k acc rs e))"
proof (induction rs arbitrary: k acc e)
  case Nil
  show ?case
    by (cases "await_signal net i (AwaitRead k) (Inr ()) e") (auto split: sum.splits)
next
  case (Cons x rs)
  obtain r1 e1 where a: "await_signal net i (AwaitRead k) x e = (r1, e1)"
    by (cases "await_signal net i (AwaitRead k) x e")
  show ?case
  proof (cases r1)
    case (Inl err)
    with a show ?thesis by simp
  next
    case (Inr ls)
    obtain r2 acc2 e2 where l: "openai_lines acc e1 ls = (r2, acc2, e2)"
      by (cases "openai_lines acc e1 ls")
    show ?thesis
      using a Inr l Cons.IH [of "Suc k" acc2 e2] by (cases r2) simp_all
  qed
qed

lemma callOpenAINonStream_raw: "plain_raw (fst (callOpenAINonStream rt net i e))"
  by (auto simp: callOpenAINonStream_def Let_def split: prod.splits sum.splits completion.splits)

lemma callOpenAIStream_raw: "plain_raw (fst (callOpenAIStream rt net i e))"
  using openai_read_loop_raw callOpenAINonStream_raw
  by (auto simp: callOpenAIStream_def split: prod.splits sum.splits json.splits)

lemma call_adapter_raw:
  "call_adapter rt net i e = (Inr resp, e') \<Longrightarrow> results_of (raw_turn resp) = []"
proof (cases "isAnthropic e")
  case True
  assume "call_adapter rt net i e = (Inr resp, e')"
  with True show ?thesis
    by (auto simp: call_adapter_def split: prod.splits sum.splits)
next
  case False
  assume c: "call_adapter rt net i e = (Inr resp, e')"
  with False obtain r where "callOpenAIStream rt net i e = (Inr r, e')" "resp = OpenAI r"
    by (auto simp: call_adapter_def split: prod.splits sum.splits)
  with callOpenAIStream_raw [of rt net i e] show ?thesis by simp
qed

lemma await_tools_frame [simp]:
  "messages (await_tools net i e) = messages e" "queryMode (await_tools net i e) = queryMode e"
  "provider (await_tools net i e) = provider e"
  by (simp_all add: await_tools_def abort_def)

lemma emit_frame [simp]:
  "messages (emit ev e) = messages e" "queryMode (emit ev e) = queryMode e"
  "provider (emit ev e) = provider e"
  by (simp_all add: emit_def)

lemma run_tools_ok:
  assumes "toolDetails rt resp = Inr ds"
  shows "fst (run_tools rt net cli sched i resp e1) = Next \<and>
         messages (snd (run_tools rt net cli sched i resp e1)) =
           messages e1 @ [raw_turn resp] @
             result_turns resp (round_results rt cli (truncateLimit e1) i (proposed_calls rt resp)) \<and>
         queryMode (snd (run_tools rt net cli sched i resp e1)) = queryMode e1 \<and>
         provider (snd (run_tools rt net cli sched i resp e1)) = provider e1"
  using assms
  by (simp add: run_tools_def Let_def promise_all_in_order round_results_def truncateLimit_def)

lemma run_tools_throws:
  assumes "toolDetails rt resp = Inl err"
  shows "run_tools rt net cli sched i resp e1 = (Return (Inl err), e1)"
  using assms by (simp add: run_tools_def Let_def)

lemma tool_results_Cons [simp]: "tool_results (m # ms) = results_of m @ tool_results ms"
  by (simp add: tool_results_def)

lemma truncateLimit_cases: "truncateLimit e = 30000 \<or> truncateLimit e = 80000"
  by (simp add: truncateLimit_def)

lemma proposed_parse:
  assumes "c \<in> set (proposed_calls rt resp)" "snd (snd c) = Inl err"
  shows "\<exists>s. json_parse rt s = Inl err"
  using assms by (cases resp) auto

lemma round_results_bound:
  assumes H: "\<forall>s err. json_parse rt s = Inl err \<longrightarrow>
                length (json_stringify rt (error_obj (emessage err))) \<le> 30000"
    and p: "p \<in> set (round_results rt cli (truncateLimit e) i (proposed_calls rt resp))"
  shows "length (snd p) \<le> truncateLimit e"
proof -
  let ?calls = "proposed_calls rt resp"
  from p obtain k where k: "k < length ?calls"
    and pk: "snd p = tool_result_content rt cli (truncateLimit e) i k (fst (snd (?calls ! k)))
                       (snd (snd (?calls ! k)))"
    by (auto simp: round_results_def)
  show ?thesis
  proof (cases "snd (snd (?calls ! k))")
    case (Inl err)
    from k have "?calls ! k \<in> set ?calls" by simp
    from proposed_parse [OF this Inl] H
    have "length (json_stringify rt (error_obj (emessage err))) \<le> 30000" by blast
    with pk Inl truncateLimit_cases [of e] show ?thesis
      by (auto simp: tool_result_content_def)
  next
    case (Inr args)
    with pk show ?thesis by (simp add: tool_result_content_def)
  qed
qed

lemma chat_round_results:
  assumes H: "\<forall>s err. json_parse rt s = Inl err \<longrightarrow>
                length (json_stringify rt (error_obj (emessage err))) \<le> 30000"
    and r: "chat_round rt net cli sched i e = (st, e')"
  shows "queryMode e' = queryMode e \<and>
         (\<exists>new. tool_results (messages e') = tool_results (messages e) @ new \<and>
                (\<forall>p \<in> set new. length (snd p) \<le> truncateLimit e))"
proof (cases "signal_aborted e \<or> time_at_round net i - start_time net > timeoutMs")
  case True
  with r have "e' = e" by (auto simp: chat_round_def split: if_splits)
  then show ?thesis by simp
next
  case False
  obtain r1 e1 where a: "call_adapter rt net i e = (r1, e1)"
    by (cases "call_adapter rt net i e")
  from call_adapter_frame [OF a] have u: "messages e1 = messages e" "queryMode e1 = queryMode e"
    by (simp_all add: untouched_def)
  show ?thesis
  proof (cases r1)
    case (Inl err)
    with r False a u show ?thesis by (simp add: chat_round_def)
  next
    case (Inr resp)
    note raw = call_adapter_raw [OF a [unfolded Inr]]
    show ?thesis
    proof (cases "signal_aborted e1 \<or> proposed_calls rt resp = []")
      case True
      with r False a Inr u show ?thesis by (auto simp: chat_round_def split: if_splits)
    next
      case nt: False
      with r False a Inr have rt': "run_tools rt net cli sched i resp e1 = (st, e')"
        by (simp add: chat_round_def)
      show ?thesis
      proof (cases "toolDetails rt resp")
        case (Inl err)
        from run_tools_throws [OF this] rt' u show ?thesis by simp
      next
        case (Inr ds)
        have tl: "truncateLimit e1 = truncateLimit e" using u by (simp add: truncateLimit_def)
        from run_tools_ok [OF Inr, of net cli sched i e1] rt' u raw tl
        have "queryMode e' = queryMode e"
          and "tool_results (messages e') = tool_results (messages e) @
                 round_results rt cli (truncateLimit e) i (proposed_calls rt resp)"
          by simp_all
        with round_results_bound [OF H] show ?thesis by blast
      qed
    qed
  qed
qed

lemma chat_loop_results:
  assumes H: "\<forall>s err. json_parse rt s = Inl err \<longrightarrow>
                length (json_stringify rt (error_obj (emessage err))) \<le> 30000"
  shows "\<exists>new. tool_results (messages (snd (chat_loop rt net cli sched i e))) =
                 tool_results (messages e) @ new \<and>
               (\<forall>p \<in> set new. length (snd p) \<le> truncateLimit e)"
  using H
proof (induction rt net cli sched i e rule: chat_loop.induct)
  case (1 rt' net cli sched i e)
  note H' = "1.prems"
  show ?case
  proof (cases "i < maxRounds")
    case False
    then show ?thesis by (simp add: chat_loop.simps)
  next
    case True
    obtain st e' where r: "chat_round rt' net cli sched i e = (st, e')"
      by (cases "chat_round rt' net cli sched i e")
    from chat_round_results [OF H' r] obtain new where
      q: "queryMode e' = queryMode e"
      and n: "tool_results (messages e') = tool_results (messages e) @ new"
        "\<forall>p \<in> set new. length (snd p) \<le> truncateLimit e"
      by blast
    show ?thesis
    proof (cases st)
      case (Return res)
      with True r n show ?thesis by (simp add: chat_loop.simps)
    next
      case Next
      from "1.IH" [OF True r [symmetric] Next H'] obtain new' where
        n': "tool_results (messages (snd (chat_loop rt' net cli sched (Suc i) e'))) =
               tool_results (messages e') @ new'"
          "\<forall>p \<in> set new'. length (snd p) \<le> truncateLimit e'"
        by blast
      have "truncateLimit e' = truncateLimit e" using q by (simp add: truncateLimit_def)
      with n n' True r Next show ?thesis
        by (subst chat_loop.simps) (auto intro!: exI [of _ "new @ new'"])
    qed
  qed
qed

lemma chat_round_tools:
  assumes "\<not> signal_aborted e" "time_at_round net i - start_time net \<le> timeoutMs"
    and "call_adapter rt net i e = (Inr resp, e1)" "\<not> signal_aborted e1"
    and "proposed_calls rt resp \<noteq> []"
  shows "chat_round rt net cli sched i e = run_tools rt net cli sched i resp e1"
  using assms by (simp add: chat_round_def)

lemma content_when_client_throws:
  assumes "client_configured cli" "client_logged_in cli i k"
    and "dispatch name args = Inr (Some c)" "client_result cli i k c = Inl err"
  shows "tool_result_content rt cli limit i k name (Inr args) =
           take limit (json_stringify rt (error_obj (emessage err)))"
  using assms by (simp add: tool_result_content_def executeTool_def)

lemma content_when_client_returns:
  assumes "client_configured cli" "client_logged_in cli i k"
    and "dispatch name args = Inr (Some c)" "client_result cli i k c = Inr v"
  shows "tool_result_content rt cli limit i k name (Inr args) = take limit (json_stringify rt v)"
  using assms by (simp add: tool_result_content_def executeTool_def)

lemma run_tools_any_order:
  "run_tools rt net cli sched' i resp e = run_tools rt net cli sched i resp e"
  by (simp add: run_tools_def promise_all_in_order Let_def split: sum.splits)

lemma chat_round_any_order:
  "chat_round rt net cli sched' i e = chat_round rt net cli sched i e"
  by (auto simp: chat_round_def run_tools_any_order [of rt net cli sched' _ _ _ sched]
      split: prod.splits sum.splits)

lemma chat_loop_any_order:
  "chat_loop rt net cli sched' i e = chat_loop rt net cli sched i e"
proof (induction rt net cli sched i e rule: chat_loop.induct)
  case (1 rt net cli sched i e)
  show ?case
  proof (cases "i < maxRounds")
    case False
    then show ?thesis by (simp add: chat_loop.simps)
  next
    case True
    obtain st e' where r: "chat_round rt net cli sched i e = (st, e')"
      by (cases "chat_round rt net cli sched i e")
    then have r': "chat_round rt net cli sched' i e = (st, e')"
      by (simp add: chat_round_any_order [of rt net cli sched' i e sched])
    show ?thesis
    proof (cases st)
      case (Return res)
      with True r r' show ?thesis by (simp add: chat_loop.simps)
    next
      case Next
      from "1.IH" [OF True r [symmetric] Next] True r r' Next show ?thesis
        by (simp add: chat_loop.simps [of rt net cli sched i e] chat_loop.simps [of rt net cli sched' i e])
    qed
  qed
qed

lemma chat_eq: "chat rt net cli sched m e = chat_finish (chat_loop rt net cli sched 0 (chat_start m e))"
  by (simp add: chat_def)

lemma rounds_run_bound: "rounds_run rt net cli sched i e \<le> maxRounds - i"
proof (induction rt net cli sched i e rule: rounds_run.induct)
  case (1 rt net cli sched i e)
  show ?case
  proof (cases "i < maxRounds")
    case False
    then show ?thesis by (simp add: rounds_run.simps)
  next
    case True
    obtain st e' where r: "chat_round rt net cli sched i e = (st, e')"
      by (cases "chat_round rt net cli sched i e")
    show ?thesis
    proof (cases st)
      case (Return res)
      with True r show ?thesis by (simp add: rounds_run.simps)
    next
      case Next
      from "1.IH" [OF True r [symmetric] Next] True r Next show ?thesis
        by (simp add: rounds_run.simps [of rt net cli sched i e])
    qed
  qed
qed

lemma chat_loop_timeout:
  assumes "i < maxRounds" "\<not> signal_aborted e" "time_at_round net i - start_time net > timeoutMs"
  shows "chat_loop rt net cli sched i e = (Inr TIMED_OUT, e)"
  using assms by (simp add: chat_loop.simps chat_round_def)

lemma chat_loop_limit: "chat_loop rt net cli sched maxRounds e = (Inr ROUND_LIMIT, e)"
  by (simp add: chat_loop.simps)

lemma await_tools_quiet:
  "\<not> cancel_during net i AwaitTools \<Longrightarrow> await_tools net i e = e"
  by (simp add: await_tools_def)

lemma run_tools_signal:
  assumes "toolDetails rt resp = Inr ds" "\<not> cancel_during net i AwaitTools"
  shows "signal_aborted (snd (run_tools rt net cli sched i resp e1)) = signal_aborted e1"
  using assms by (simp add: run_tools_def Let_def await_tools_quiet emit_def)

lemma always_tools:
  assumes proposes: "\<forall>i < maxRounds. \<forall>e. \<not> signal_aborted e \<longrightarrow>
        (\<exists>resp e1 ds. call_adapter rt net i e = (Inr resp, e1) \<and> proposed_calls rt resp \<noteq> [] \<and>
           toolDetails rt resp = Inr ds)"
    and quiet: "\<forall>i < maxRounds. \<not> cancel_during net i AwaitTools"
    and time: "\<forall>i < maxRounds. time_at_round net i - start_time net \<le> timeoutMs"
  shows "i \<le> maxRounds \<Longrightarrow> \<not> signal_aborted e \<Longrightarrow>
         fst (chat_loop rt net cli sched i e) = Inr ROUND_LIMIT \<and>
         rounds_run rt net cli sched i e = maxRounds - i"
proof (induction "maxRounds - i" arbitrary: i e)
  case 0
  then have "i = maxRounds" by simp
  then show ?case by (simp add: chat_loop.simps rounds_run.simps)
next
  case (Suc n)
  then have i: "i < maxRounds" by simp
  from proposes i Suc.prems obtain resp e1 ds where
    a: "call_adapter rt net i e = (Inr resp, e1)" "proposed_calls rt resp \<noteq> []"
       "toolDetails rt resp = Inr ds"
    by blast
  from call_adapter_frame [OF a(1)] have na: "\<not> signal_aborted e1" by auto
  have round: "chat_round rt net cli sched i e = run_tools rt net cli sched i resp e1"
    using Suc.prems time i a na by (intro chat_round_tools) simp_all
  obtain st e' where rt': "run_tools rt net cli sched i resp e1 = (st, e')"
    by (cases "run_tools rt net cli sched i resp e1")
  from run_tools_ok [OF a(3), of net cli sched i e1] rt' have st: "st = Next" by simp
  from run_tools_signal [OF a(3), of net i cli sched e1] quiet i rt' na
  have na': "\<not> signal_aborted e'" by simp
  have "n = maxRounds - Suc i" using Suc.hyps(2) by simp
  from Suc.hyps(1) [OF this _ na'] i
  have "fst (chat_loop rt net cli sched (Suc i) e') = Inr ROUND_LIMIT \<and>
        rounds_run rt net cli sched (Suc i) e' = maxRounds - Suc i"
    by simp
  with i round rt' st show ?case
    by (simp add: chat_loop.simps [of rt net cli sched i e] rounds_run.simps [of rt net cli sched i e])
qed

lemma STOPPED_name: "ename err = js ''AbortError'' \<Longrightarrow>
    chat_finish (Inl err, e) = (Inr STOPPED, e\<lparr>abortController := False\<rparr>)"
  by (simp add: chat_finish_def)

lemma example_parse_empty: \<open>json_parse example_runtime (js ''{}'') = Inr (JObj [])\<close>
  by (simp add: example_runtime_def example_parse_def)

lemma set_at_simps [simp]:
  "set_at [] 0 v = [Some v]" "set_at (x # xs) 0 v = Some v # xs"
  "set_at (x # xs) (Suc n) v = x # set_at xs n v" "set_at [] (Suc n) v = None # set_at [] n v"
  by (simp_all add: set_at_def replicate_app_Cons_same)

lemma get_at_simps [simp]:
  "get_at [] n = None" "get_at (x # xs) 0 = x" "get_at (x # xs) (Suc n) = get_at xs n"
  by (simp_all add: get_at_def)

lemma present_simps [simp]:
  "present [] = []" "present (None # xs) = present xs" "present (Some v # xs) = v # present xs"
  by (simp_all add: present_def)

lemma tools_net_openai:
  assumes "\<not> isAnthropic e" "\<not> signal_aborted e"
  shows "call_adapter example_runtime tools_net i e =
     (Inr (OpenAI \<lparr>o_content = [],
        o_toolCalls = [\<lparr>call_id = js ''a'' @ show_nat i, fn_name = js ''zstack_zql'', fn_arguments = js ''{}''\<rparr>,
                       \<lparr>call_id = js ''b'' @ show_nat i, fn_name = js ''zstack_zql'', fn_arguments = js ''{}''\<rparr>,
                       \<lparr>call_id = js ''c'' @ show_nat i, fn_name = js ''zstack_zql'', fn_arguments = js ''{}''\<rparr>],
        rawMessage = AssistantToolCalls None
                      [\<lparr>call_id = js ''a'' @ show_nat i, fn_name = js ''zstack_zql'', fn_arguments = js ''{}''\<rparr>,
                       \<lparr>call_id = js ''b'' @ show_nat i, fn_name = js ''zstack_zql'', fn_arguments = js ''{}''\<rparr>,
                       \<lparr>call_id = js ''c'' @ show_nat i, fn_name = js ''zstack_zql'', fn_arguments = js ''{}''\<rparr>]\<rparr>), e)"
  using assms
  by (simp add: call_adapter_def callOpenAIStream_def tools_net_def await_signal_def zql_call_def
      apply_tc_delta_def nonempty_def or_else_def openai_finish_def Let_def numeral_2_eq_2)

lemma tools_net_anthropic:
  assumes "isAnthropic e" "\<not> signal_aborted e"
  shows "call_adapter example_runtime tools_net i e =
     (Inr (Anthropic \<lparr>a_content = [],
        a_toolCalls = [\<lparr>tu_id = js ''t'' @ show_nat i, tu_name = js ''zstack_zql'', tu_input = JObj []\<rparr>],
        rawContent = [ToolUseBlock (js ''t'' @ show_nat i) (js ''zstack_zql'') (JObj []) None]\<rparr>), e)"
  using assms
  by (simp add: call_adapter_def callAnthropicStream_def tools_net_def await_signal_def
      anthropic_init_def anthropic_finish_def block_at_def parse_input_def example_parse_empty)

lemma zql_detail: "formatToolDetail example_runtime (js ''zstack_zql'') (JObj []) = Inr (js ''ZQL: '')"
  by (simp add: formatToolDetail_def on_args_def js_slice_def or_empty_def js_or_def)

lemma zql_dispatch: "dispatch (js ''zstack_zql'') (JObj []) = Inr (Some (Call (js ''zql'') [None]))"
  by (simp add: dispatch_def on_args_def)

lemma tools_net_proposes:
  "\<forall>i < maxRounds. \<forall>e. \<not> signal_aborted e \<longrightarrow>
        (\<exists>resp e1 ds. call_adapter example_runtime tools_net i e = (Inr resp, e1) \<and>
           proposed_calls example_runtime resp \<noteq> [] \<and> toolDetails example_runtime resp = Inr ds)"
proof (intro allI impI)
  fix i and e :: engine assume "\<not> signal_aborted e"
  then show "\<exists>resp e1 ds. call_adapter example_runtime tools_net i e = (Inr resp, e1) \<and>
           proposed_calls example_runtime resp \<noteq> [] \<and> toolDetails example_runtime resp = Inr ds"
    using tools_net_openai [of e i] tools_net_anthropic [of e i]
    by (cases "isAnthropic e") (simp_all add: zql_detail)
qed

lemma example_start:
  "\<not> isAnthropic (chat_start m example_engine)" "\<not> signal_aborted (chat_start m example_engine)"
  "abortController (chat_start m example_engine)"
  "messages (chat_start m example_engine) = [UserText m]"
  "truncateLimit (chat_start m example_engine) = 30000"
  by (simp_all add: chat_start_def example_engine_def isAnthropic_def truncateLimit_def)

lemma show_nat_0: "show_nat 0 = js ''0''"
  by (simp add: show_nat.simps js_def)

lemma example_parse_errors:
  "\<forall>s err. json_parse example_runtime s = Inl err \<longrightarrow>
     length (json_stringify example_runtime (error_obj (emessage err))) \<le> 30000"
  by (simp add: example_runtime_def example_parse_def error_obj_def js_def split: if_splits)



lemma set_at_set_at: "set_at (set_at xs i a) i b = set_at xs i b"
  by (auto simp: set_at_def list_update_append)



lemma anthropic_start:
  "isAnthropic (chat_start m anthropic_engine)" "\<not> signal_aborted (chat_start m anthropic_engine)"
  "messages (chat_start m anthropic_engine) = [UserText m]"
  "truncateLimit (chat_start m anthropic_engine) = 30000"
  by (simp_all add: chat_start_def anthropic_engine_def example_engine_def isAnthropic_def
      truncateLimit_def OPENAI_COMPAT_def js_def)

lemma three_blocks_adapter:
  assumes "isAnthropic e" "\<not> signal_aborted e"
  shows "call_adapter example_runtime three_blocks_net i e =
     (Inr (Anthropic \<lparr>a_content = [],
        a_toolCalls = [\<lparr>tu_id = js ''a'', tu_name = js ''zstack_zql'', tu_input = JObj []\<rparr>,
                       \<lparr>tu_id = js ''b'', tu_name = js ''zstack_zql'', tu_input = JObj []\<rparr>,
                       \<lparr>tu_id = js ''c'', tu_name = js ''zstack_zql'', tu_input = JObj []\<rparr>],
        rawContent = [ToolUseBlock (js ''a'') (js ''zstack_zql'') (JObj []) None,
                      ToolUseBlock (js ''b'') (js ''zstack_zql'') (JObj []) None,
                      ToolUseBlock (js ''c'') (js ''zstack_zql'') (JObj []) None]\<rparr>), e)"
  using assms
  by (simp add: call_adapter_def callAnthropicStream_def three_blocks_net_def tools_net_def
      tool_use_block_def await_signal_def anthropic_init_def anthropic_finish_def block_at_def
      parse_input_def example_parse_empty numeral_2_eq_2)





lemma fragments_for_append:
  "fragments_for idx (xs @ ys) = fragments_for idx xs @ fragments_for idx ys"
  by (simp add: fragments_for_def)








lemma arguments_at_empty [simp]: "arguments_at [] idx = []"
  by (simp add: arguments_at_def get_at_def)














lemma json_fragments_for_Cons:
  "json_fragments_for k (l # ls) = json_fragments_for k [l] @ json_fragments_for k ls"
  by (simp add: json_fragments_for_def)







lemma call_at_init [simp]: "call_at (contentBlocks anthropic_init) k = None"
  by (simp add: call_at_def anthropic_init_def get_at_def)




section \<open>The engine: one round of tool calls\<close>

text \<open>
  C1: a round of \<open>chat\<close> that is reached (the signal is not aborted, the time budget
  is not exceeded), in which the adapter returns \<open>N\<close> tool calls and the \<open>tool_start\<close>
  event is emitted, each call having arguments that name a method call of a logged-in
  client; the method call of exactly one of them, call \<open>j\<close>, throws, the others return.
  Then the round adds to the tool results of the conversation exactly \<open>N\<close> results, in the
  order of the calls, each under the id of its call: for call \<open>j\<close> the serialized
  \<^verbatim>\<open>{ error: e.message }\<close>, for every other call its serialized value, each clipped to
  the mode's limit. The turns appended are the raw assistant turn and then \<open>N\<close> messages of
  role \<open>tool\<close> after an OpenAI-compatible response, the \<open>N\<close> \<open>tool_result\<close> blocks of one
  user turn after an Anthropic response. The iteration ends without \<open>chat\<close> returning or
  throwing, and the loop goes on with round \<open>i + 1\<close>.
\<close>

theorem fan_out_isolation:
  assumes reached: "i < maxRounds" "\<not> signal_aborted e" "time_at_round net i - start_time net \<le> timeoutMs"
    and proposes: "call_adapter rt net i e = (Inr resp, e1)" "\<not> signal_aborted e1"
      "proposed_calls rt resp = calls" "calls \<noteq> []" "toolDetails rt resp = Inr ds"
    and client: "client_configured cli" "\<forall>k < length calls. client_logged_in cli i k"
    and dispatched: "\<forall>k < length calls. snd (snd (calls ! k)) = Inr (args k) \<and>
        dispatch (fst (snd (calls ! k))) (args k) = Inr (Some (req k))"
    and one_throws: "j < length calls" "client_result cli i j (req j) = Inl err"
    and others_return: "\<forall>k < length calls. k \<noteq> j \<longrightarrow> client_result cli i k (req k) = Inr (val k)"
    and payload: "payload = (\<lambda>k. take (truncateLimit e)
        (json_stringify rt (if k = j then error_obj (emessage err) else val k)))"
  shows "\<exists>e'. chat_round rt net cli sched i e = (Next, e') \<and>
           tool_results (messages e') =
             tool_results (messages e) @ map (\<lambda>k. (fst (calls ! k), payload k)) [0..<length calls] \<and>
           length (tool_results (messages e')) = length (tool_results (messages e)) + length calls \<and>
           messages e' = messages e @ raw_turn resp #
             (case resp of
                OpenAI r \<Rightarrow> map (\<lambda>k. ToolMessage (fst (calls ! k)) (payload k)) [0..<length calls]
              | Anthropic r \<Rightarrow>
                  [UserToolResults (map (\<lambda>k. (fst (calls ! k), payload k)) [0..<length calls])]) \<and>
           chat_loop rt net cli sched i e = chat_loop rt net cli sched (Suc i) e'"
proof -
  let ?results = "map (\<lambda>k. (fst (calls ! k), payload k)) [0..<length calls]"
  from call_adapter_frame [OF proposes(1)] have u: "messages e1 = messages e" "queryMode e1 = queryMode e"
    by (simp_all add: untouched_def)
  have tl: "truncateLimit e1 = truncateLimit e" using u by (simp add: truncateLimit_def)
  have raw: "results_of (raw_turn resp) = []"
    by (rule call_adapter_raw [OF proposes(1)])
  have round: "chat_round rt net cli sched i e = run_tools rt net cli sched i resp e1"
    using reached proposes by (intro chat_round_tools) simp_all
  obtain st e' where rt': "run_tools rt net cli sched i resp e1 = (st, e')"
    by (cases "run_tools rt net cli sched i resp e1")
  from run_tools_ok [OF proposes(5), of net cli sched i e1] rt'
  have st: "st = Next"
    and ms: "messages e' = messages e1 @ [raw_turn resp] @
               result_turns resp (round_results rt cli (truncateLimit e1) i calls)"
    using proposes(3) by simp_all
  have key: "tool_result_content rt cli (truncateLimit e) i k (fst (snd (calls ! k))) (snd (snd (calls ! k))) =
          payload k"
    if k: "k < length calls" for k
  proof -
    from k dispatched have d: "snd (snd (calls ! k)) = Inr (args k)"
      "dispatch (fst (snd (calls ! k))) (args k) = Inr (Some (req k))" by simp_all
    show ?thesis
    proof (cases "k = j")
      case True
      with content_when_client_throws [of cli i k _ "args k" "req k" err] client k d one_throws
      show ?thesis by (simp add: payload)
    next
      case False
      with others_return k have "client_result cli i k (req k) = Inr (val k)" by simp
      with content_when_client_returns [of cli i k _ "args k" "req k" "val k"] client k d False
      show ?thesis by (simp add: payload)
    qed
  qed
  have rr: "round_results rt cli (truncateLimit e) i calls = ?results"
    unfolding round_results_def by (rule map_cong [OF refl]) (simp add: key)
  have turns: "result_turns resp ?results =
      (case resp of
         OpenAI r \<Rightarrow> map (\<lambda>k. ToolMessage (fst (calls ! k)) (payload k)) [0..<length calls]
       | Anthropic r \<Rightarrow> [UserToolResults ?results])"
    by (cases resp) (simp_all add: comp_def)
  from ms u tl rr have ms': "messages e' = messages e @ raw_turn resp # result_turns resp ?results"
    by simp
  have tr: "tool_results (messages e') = tool_results (messages e) @ ?results"
    unfolding ms' using raw by simp
  have "chat_round rt net cli sched i e = (Next, e')"
    using round rt' st by simp
  moreover from this reached(1) have "chat_loop rt net cli sched i e = chat_loop rt net cli sched (Suc i) e'"
    by (subst chat_loop.simps) simp
  moreover have "length (tool_results (messages e')) = length (tool_results (messages e)) + length calls"
    unfolding tr by simp
  moreover note tr ms' [unfolded turns]
  ultimately show ?thesis by blast
qed

theorem fan_out_isolation_witness:
  \<open>fst (chat_round example_runtime tools_net second_call_throws (\<lambda>i k. k) 0
         (chat_start (js ''list vms'') example_engine)) = Next \<and>
   drop 2 (messages (snd (chat_round example_runtime tools_net second_call_throws (\<lambda>i k. k) 0
         (chat_start (js ''list vms'') example_engine)))) =
     [ToolMessage (js ''a0'') (js ''{"results":[]}''),
      ToolMessage (js ''b0'') (js ''{"error":"HTTP 500"}''),
      ToolMessage (js ''c0'') (js ''{"results":[]}'')] \<and>
   fst (chat_round example_runtime three_blocks_net second_call_throws (\<lambda>i k. k) 0
         (chat_start (js ''list vms'') anthropic_engine)) = Next \<and>
   drop 2 (messages (snd (chat_round example_runtime three_blocks_net second_call_throws (\<lambda>i k. k) 0
         (chat_start (js ''list vms'') anthropic_engine)))) =
     [UserToolResults [(js ''a'', js ''{"results":[]}''),
                       (js ''b'', js ''{"error":"HTTP 500"}''),
                       (js ''c'', js ''{"results":[]}'')]] \<and>
   tool_results (messages (snd (chat_round example_runtime three_blocks_net second_call_throws
         (\<lambda>i k. k) 0 (chat_start (js ''list vms'') anthropic_engine)))) =
     [(js ''a'', js ''{"results":[]}''),
      (js ''b'', js ''{"error":"HTTP 500"}''),
      (js ''c'', js ''{"results":[]}'')]\<close>
proof -
  let ?e = "chat_start (js ''list vms'') example_engine"
  let ?tc = "\<lambda>ident. \<lparr>call_id = js ident @ show_nat 0, fn_name = js ''zstack_zql'', fn_arguments = js ''{}''\<rparr>"
  let ?resp = "OpenAI \<lparr>o_content = [], o_toolCalls = [?tc ''a'', ?tc ''b'', ?tc ''c''],
        rawMessage = AssistantToolCalls None [?tc ''a'', ?tc ''b'', ?tc ''c'']\<rparr>"
  let ?calls = "proposed_calls example_runtime ?resp"
  let ?payload = "\<lambda>k. take (truncateLimit ?e)
        (json_stringify example_runtime
           (if k = 1 then error_obj (emessage (Error (js ''HTTP 500'')))
            else JObj [(js ''results'', JArr [])]))"
  have up: "[0..<3] = [0, 1, 2]" by (simp add: upt_rec)
  have a: "call_adapter example_runtime tools_net 0 ?e = (Inr ?resp, ?e)"
    by (rule tools_net_openai) (simp_all add: example_start)
  have d: "\<forall>k < length ?calls. snd (snd (?calls ! k)) = Inr (JObj []) \<and>
        dispatch (fst (snd (?calls ! k))) (JObj []) = Inr (Some (Call (js ''zql'') [None]))"
    by (simp add: example_parse_empty zql_dispatch less_Suc_eq numeral_3_eq_3)
  have others: "\<forall>k < length ?calls. k \<noteq> 1 \<longrightarrow>
      client_result second_call_throws 0 k (Call (js ''zql'') [None]) = Inr (JObj [(js ''results'', JArr [])])"
    by (simp add: second_call_throws_def)
  from fan_out_isolation [where rt = example_runtime and net = tools_net and i = 0 and e = ?e
      and resp = ?resp and ?e1.0 = ?e and calls = ?calls and cli = second_call_throws
      and args = "\<lambda>k. JObj []" and req = "\<lambda>k. Call (js ''zql'') [None]" and j = 1
      and err = "Error (js ''HTTP 500'')" and val = "\<lambda>k. JObj [(js ''results'', JArr [])]"
      and sched = "\<lambda>i k. k" and payload = ?payload, OF _ _ _ a _ refl _ _ _ _ d _ _ others refl]
  obtain e' where
    r: "chat_round example_runtime tools_net second_call_throws (\<lambda>i k. k) 0 ?e = (Next, e')"
    and m: "messages e' = messages ?e @ raw_turn ?resp #
              map (\<lambda>k. ToolMessage (fst (?calls ! k)) (?payload k)) [0..<length ?calls]"
    by (auto simp: maxRounds_def example_start tools_net_def timeoutMs_def second_call_throws_def)
  have openai: \<open>fst (chat_round example_runtime tools_net second_call_throws (\<lambda>i k. k) 0 ?e) = Next \<and>
     drop 2 (messages (snd (chat_round example_runtime tools_net second_call_throws (\<lambda>i k. k) 0 ?e))) =
       [ToolMessage (js ''a0'') (js ''{"results":[]}''),
        ToolMessage (js ''b0'') (js ''{"error":"HTTP 500"}''),
        ToolMessage (js ''c0'') (js ''{"results":[]}'')]\<close>
    unfolding r
    using m
    by (simp add: example_start up example_runtime_def error_obj_def Error_def show_nat_0 js_def)
  let ?f = "chat_start (js ''list vms'') anthropic_engine"
  let ?tu = "\<lambda>ident. \<lparr>tu_id = js ident, tu_name = js ''zstack_zql'', tu_input = JObj []\<rparr>"
  let ?aresp = "Anthropic \<lparr>a_content = [], a_toolCalls = [?tu ''a'', ?tu ''b'', ?tu ''c''],
        rawContent = [ToolUseBlock (js ''a'') (js ''zstack_zql'') (JObj []) None,
                      ToolUseBlock (js ''b'') (js ''zstack_zql'') (JObj []) None,
                      ToolUseBlock (js ''c'') (js ''zstack_zql'') (JObj []) None]\<rparr>"
  let ?acalls = "proposed_calls example_runtime ?aresp"
  let ?apayload = "\<lambda>k. take (truncateLimit ?f)
        (json_stringify example_runtime
           (if k = 1 then error_obj (emessage (Error (js ''HTTP 500'')))
            else JObj [(js ''results'', JArr [])]))"
  have b: "call_adapter example_runtime three_blocks_net 0 ?f = (Inr ?aresp, ?f)"
    by (rule three_blocks_adapter) (simp_all add: anthropic_start)
  have ad: "\<forall>k < length ?acalls. snd (snd (?acalls ! k)) = Inr (JObj []) \<and>
        dispatch (fst (snd (?acalls ! k))) (JObj []) = Inr (Some (Call (js ''zql'') [None]))"
    by (simp add: zql_dispatch less_Suc_eq numeral_3_eq_3)
  have aothers: "\<forall>k < length ?acalls. k \<noteq> 1 \<longrightarrow>
      client_result second_call_throws 0 k (Call (js ''zql'') [None]) = Inr (JObj [(js ''results'', JArr [])])"
    by (simp add: second_call_throws_def)
  have details: "toolDetails example_runtime ?aresp = Inr [js ''ZQL: '', js ''ZQL: '', js ''ZQL: '']"
    by (simp add: zql_detail)
  from fan_out_isolation [where rt = example_runtime and net = three_blocks_net and i = 0 and e = ?f
      and resp = ?aresp and ?e1.0 = ?f and calls = ?acalls and cli = second_call_throws
      and args = "\<lambda>k. JObj []" and req = "\<lambda>k. Call (js ''zql'') [None]" and j = 1
      and err = "Error (js ''HTTP 500'')" and val = "\<lambda>k. JObj [(js ''results'', JArr [])]"
      and sched = "\<lambda>i k. k" and payload = ?apayload, OF _ _ _ b _ refl _ details _ _ ad _ _ aothers refl]
  obtain f' where
    ar: "chat_round example_runtime three_blocks_net second_call_throws (\<lambda>i k. k) 0 ?f = (Next, f')"
    and am: "messages f' = messages ?f @ raw_turn ?aresp #
              [UserToolResults (map (\<lambda>k. (fst (?acalls ! k), ?apayload k)) [0..<length ?acalls])]"
    and at: "tool_results (messages f') =
              tool_results (messages ?f) @ map (\<lambda>k. (fst (?acalls ! k), ?apayload k)) [0..<length ?acalls]"
    by (auto simp: maxRounds_def anthropic_start three_blocks_net_def tools_net_def timeoutMs_def
        second_call_throws_def)
  have anthropic: \<open>fst (chat_round example_runtime three_blocks_net second_call_throws (\<lambda>i k. k) 0 ?f) = Next \<and>
     drop 2 (messages (snd (chat_round example_runtime three_blocks_net second_call_throws (\<lambda>i k. k) 0 ?f))) =
       [UserToolResults [(js ''a'', js ''{"results":[]}''),
                         (js ''b'', js ''{"error":"HTTP 500"}''),
                         (js ''c'', js ''{"results":[]}'')]] \<and>
     tool_results (messages (snd (chat_round example_runtime three_blocks_net second_call_throws
         (\<lambda>i k. k) 0 ?f))) =
       [(js ''a'', js ''{"results":[]}''),
        (js ''b'', js ''{"error":"HTTP 500"}''),
        (js ''c'', js ''{"results":[]}'')]\<close>
    unfolding ar
    using am at
    by (simp add: anthropic_start up example_runtime_def error_obj_def Error_def js_def)
  from openai anthropic show ?thesis by blast
qed

text \<open>
  C5: when the runtime's \<open>JSON.parse\<close> errors are short (the serialized
  \<^verbatim>\<open>{ error: e.message }\<close> of a SyntaxError it throws has at most 30000 code units),
  every tool result that a call of \<open>chat\<close> adds to the conversation, by either branch,
  has a content of at most the limit of the mode: 80000 when \<open>queryMode\<close> is \<open>full\<close>,
  30000 otherwise. The results of \<open>_executeTool\<close>, its captured errors included, are
  clipped by \<open>slice(0, truncateLimit)\<close>; the payload built by the \<open>catch\<close> of a tool
  call, reached when the arguments are not JSON, is not clipped, and the hypothesis on
  the runtime bounds it.
\<close>

theorem truncation_bound:
  assumes "\<forall>s err. json_parse rt s = Inl err \<longrightarrow>
             length (json_stringify rt (error_obj (emessage err))) \<le> 30000"
  shows "truncateLimit e = (if queryMode e = js ''full'' then 80000 else 30000) \<and>
         (\<exists>new. tool_results (messages (snd (chat rt net cli sched userMessage e))) =
                  tool_results (messages e) @ new \<and>
                (\<forall>p \<in> set new. length (snd p) \<le> truncateLimit e))"
proof -
  let ?e0 = "chat_start userMessage e"
  from chat_loop_results [OF assms, of net cli sched 0 ?e0] obtain new where
    "tool_results (messages (snd (chat_loop rt net cli sched 0 ?e0))) = tool_results (messages ?e0) @ new"
    "\<forall>p \<in> set new. length (snd p) \<le> truncateLimit ?e0"
    by blast
  then show ?thesis
    by (auto simp: chat_def chat_start_def chat_finish_def truncateLimit_def)
qed

theorem truncation_bound_witness:
  "truncateLimit example_engine = 30000 \<and>
   list_all (\<lambda>p. length (snd p) \<le> 30000)
     (tool_results (messages (snd (chat example_runtime tools_net second_call_throws (\<lambda>i k. k)
        (js ''list vms'') example_engine))))"
proof -
  from truncation_bound [OF example_parse_errors, of example_engine tools_net second_call_throws
      "\<lambda>i k. k" "js ''list vms''"]
  obtain new where l: "truncateLimit example_engine = (if queryMode example_engine = js ''full'' then 80000 else 30000)"
    and n: "tool_results (messages (snd (chat example_runtime tools_net second_call_throws (\<lambda>i k. k)
        (js ''list vms'') example_engine))) = tool_results (messages example_engine) @ new"
      "\<forall>p \<in> set new. length (snd p) \<le> truncateLimit example_engine"
    by blast
  have "queryMode example_engine \<noteq> js ''full''" "messages example_engine = []"
    by (simp_all add: example_engine_def)
  with l n show ?thesis by (simp add: list_all_iff)
qed

text \<open>
  C9: \<open>chat\<close> returns the same value and leaves the same engine, conversation
  included, whatever the times at which the tool calls of each round complete; and the
  tool results a round appends are those of the proposed calls in the order of the proposing
  turn, each under the id of its call.
\<close>

theorem result_order_deterministic:
  "chat rt net cli sched' userMessage e = chat rt net cli sched userMessage e \<and>
   (case toolDetails rt resp of
      Inl err \<Rightarrow> True
    | Inr ds \<Rightarrow>
        tool_results (drop (Suc (length (messages e1)))
                        (messages (snd (run_tools rt net cli sched i resp e1)))) =
          round_results rt cli (truncateLimit e1) i (proposed_calls rt resp) \<and>
        map fst (round_results rt cli (truncateLimit e1) i (proposed_calls rt resp)) =
          map fst (proposed_calls rt resp))"
proof -
  have "map fst (round_results rt cli limit i calls) = map fst calls" for limit calls
    by (intro nth_equalityI) (simp_all add: round_results_def)
  then show ?thesis
    using run_tools_ok [of rt resp _ net cli sched i e1]
    by (auto simp: chat_def chat_loop_any_order [of rt net cli sched' _ _ sched] split: sum.splits)
qed

theorem result_order_deterministic_witness:
  "chat example_runtime tools_net second_call_throws (\<lambda>i k. 2 - k) (js ''list vms'') example_engine =
   chat example_runtime tools_net second_call_throws (\<lambda>i k. k) (js ''list vms'') example_engine"
  using result_order_deterministic [of example_runtime tools_net second_call_throws "\<lambda>i k. 2 - k"
      "js ''list vms''" example_engine "\<lambda>i k. k"]
  by blast

section \<open>The engine: bounds and cancellation\<close>

text \<open>
  C2: the loop of \<open>chat\<close> runs its body at most \<open>maxRounds = 100\<close> times, whatever
  the provider, the client and the user do (and \<open>chat\<close> is a total function of them).
  At the top of a round that is reached with the signal not aborted, a clock more than
  \<open>timeoutMs = 300000\<close> ms past the start makes \<open>chat\<close> return the time-out message.
  With a model that proposes tool calls in every round, no abort during the tool calls
  and the clock within the budget, the body runs exactly 100 times and \<open>chat\<close> returns
  the round-limit message. Both are returned strings, not exceptions.
\<close>

theorem chat_terminates_within_bounds:
  "maxRounds = 100 \<and> timeoutMs = 300000 \<and>
   rounds_run rt net cli sched 0 (chat_start userMessage e) \<le> maxRounds \<and>
   (i < maxRounds \<and> \<not> signal_aborted e' \<and> time_at_round net i - start_time net > timeoutMs \<longrightarrow>
      chat_finish (chat_loop rt net cli sched i e') = (Inr TIMED_OUT, e'\<lparr>abortController := False\<rparr>)) \<and>
   ((\<forall>i < maxRounds. \<forall>e. \<not> signal_aborted e \<longrightarrow>
        (\<exists>resp e1 ds. call_adapter rt net i e = (Inr resp, e1) \<and> proposed_calls rt resp \<noteq> [] \<and>
           toolDetails rt resp = Inr ds)) \<and>
    (\<forall>i < maxRounds. \<not> cancel_during net i AwaitTools) \<and>
    (\<forall>i < maxRounds. time_at_round net i - start_time net \<le> timeoutMs) \<longrightarrow>
      fst (chat rt net cli sched userMessage e) = Inr ROUND_LIMIT \<and>
      rounds_run rt net cli sched 0 (chat_start userMessage e) = maxRounds)"
proof (intro conjI impI)
  show "maxRounds = 100" by (simp add: maxRounds_def)
  show "timeoutMs = 300000" by (simp add: timeoutMs_def)
  show "rounds_run rt net cli sched 0 (chat_start userMessage e) \<le> maxRounds"
    using rounds_run_bound [of rt net cli sched 0] by simp
  show "chat_finish (chat_loop rt net cli sched i e') = (Inr TIMED_OUT, e'\<lparr>abortController := False\<rparr>)"
    if "i < maxRounds \<and> \<not> signal_aborted e' \<and> time_at_round net i - start_time net > timeoutMs"
    using that by (simp add: chat_loop_timeout chat_finish_def)
  assume h: "(\<forall>i < maxRounds. \<forall>e. \<not> signal_aborted e \<longrightarrow>
        (\<exists>resp e1 ds. call_adapter rt net i e = (Inr resp, e1) \<and> proposed_calls rt resp \<noteq> [] \<and>
           toolDetails rt resp = Inr ds)) \<and>
    (\<forall>i < maxRounds. \<not> cancel_during net i AwaitTools) \<and>
    (\<forall>i < maxRounds. time_at_round net i - start_time net \<le> timeoutMs)"
  have "\<not> signal_aborted (chat_start userMessage e)" by (simp add: chat_start_def)
  from always_tools [of rt net 0 "chat_start userMessage e" cli sched, OF _ _ _ _ this] h
  have r: "fst (chat_loop rt net cli sched 0 (chat_start userMessage e)) = Inr ROUND_LIMIT \<and>
        rounds_run rt net cli sched 0 (chat_start userMessage e) = maxRounds"
    by simp
  then show "fst (chat rt net cli sched userMessage e) = Inr ROUND_LIMIT"
    by (simp add: chat_eq chat_finish_def)
  from r show "rounds_run rt net cli sched 0 (chat_start userMessage e) = maxRounds" by simp
qed

theorem chat_terminates_within_bounds_witness:
  "fst (chat example_runtime tools_net second_call_throws (\<lambda>i k. k) (js ''list vms'') example_engine)
     = Inr ROUND_LIMIT \<and>
   rounds_run example_runtime tools_net second_call_throws (\<lambda>i k. k) 0
     (chat_start (js ''list vms'') example_engine) = 100 \<and>
   chat_finish (chat_loop example_runtime slow_net second_call_throws (\<lambda>i k. k) 1
     (chat_start (js ''list vms'') example_engine))
     = (Inr TIMED_OUT, (chat_start (js ''list vms'') example_engine)\<lparr>abortController := False\<rparr>)"
proof -
  note T = chat_terminates_within_bounds [of example_runtime tools_net second_call_throws "\<lambda>i k. k"
      "js ''list vms''" example_engine]
  note S = chat_terminates_within_bounds [of example_runtime slow_net second_call_throws "\<lambda>i k. k"
      "js ''list vms''" example_engine 1 "chat_start (js ''list vms'') example_engine"]
  have quiet: "\<forall>i < maxRounds. \<not> cancel_during tools_net i AwaitTools"
    by (simp add: tools_net_def)
  have time: "\<forall>i < maxRounds. time_at_round tools_net i - start_time tools_net \<le> timeoutMs"
    by (simp add: tools_net_def timeoutMs_def maxRounds_def)
  have late: "1 < maxRounds \<and> \<not> signal_aborted (chat_start (js ''list vms'') example_engine) \<and>
      time_at_round slow_net 1 - start_time slow_net > timeoutMs"
    by (simp add: slow_net_def tools_net_def timeoutMs_def maxRounds_def chat_start_def)
  from T tools_net_proposes quiet time
  have "fst (chat example_runtime tools_net second_call_throws (\<lambda>i k. k) (js ''list vms'') example_engine)
          = Inr ROUND_LIMIT \<and>
        rounds_run example_runtime tools_net second_call_throws (\<lambda>i k. k) 0
          (chat_start (js ''list vms'') example_engine) = maxRounds"
    by blast
  moreover from S late
  have "chat_finish (chat_loop example_runtime slow_net second_call_throws (\<lambda>i k. k) 1
     (chat_start (js ''list vms'') example_engine))
     = (Inr TIMED_OUT, (chat_start (js ''list vms'') example_engine)\<lparr>abortController := False\<rparr>)"
    by blast
  ultimately show ?thesis by (simp add: maxRounds_def)
qed

text \<open>
  C6: in a round that is reached, with the controller of this \<open>chat\<close> in place: if the
  user aborts while the engine awaits the \<open>fetch\<close> of the round, the signal is aborted
  when the adapter call ends; and whenever the signal is aborted when the adapter call
  ends (the user aborted while the engine awaited the response or a chunk of the stream),
  \<open>chat\<close> returns the fixed message \<open>STOPPED\<close> as its value, and the conversation is
  what it was when the round began: no text of the aborted round is returned or appended.
\<close>

theorem cancel_resolves_stopped:
  assumes "i < maxRounds" "\<not> signal_aborted e" "abortController e"
    and "time_at_round net i - start_time net \<le> timeoutMs"
  shows "(cancel_during net i AwaitFetch \<longrightarrow> signal_aborted (snd (call_adapter rt net i e))) \<and>
         (signal_aborted (snd (call_adapter rt net i e)) \<longrightarrow>
            fst (chat_finish (chat_loop rt net cli sched i e)) = Inr STOPPED \<and>
            messages (snd (chat_finish (chat_loop rt net cli sched i e))) = messages e)"
proof (intro conjI impI)
  assume c: "cancel_during net i AwaitFetch"
  show "signal_aborted (snd (call_adapter rt net i e))"
    using c assms(3)
    by (simp add: call_adapter_def callOpenAIStream_def callAnthropicStream_def await_signal_def
        abort_def)
next
  assume s: "signal_aborted (snd (call_adapter rt net i e))"
  obtain r e1 where a: "call_adapter rt net i e = (r, e1)" by (cases "call_adapter rt net i e")
  from call_adapter_frame [OF a] s a obtain err where
    r: "r = Inl err" "ename err = js ''AbortError''" and m: "messages e1 = messages e"
    by (cases r) (auto simp: untouched_def)
  have "chat_loop rt net cli sched i e = (Inl err, e1)"
    using assms a r by (simp add: chat_loop.simps chat_round_def)
  then show "fst (chat_finish (chat_loop rt net cli sched i e)) = Inr STOPPED"
    and "messages (snd (chat_finish (chat_loop rt net cli sched i e))) = messages e"
    using r m by (simp_all add: chat_finish_def)
qed

theorem cancel_resolves_stopped_witness:
  "fst (chat example_runtime cancelled_net second_call_throws (\<lambda>i k. k) (js ''list vms'') example_engine)
     = Inr STOPPED \<and>
   messages (snd (chat example_runtime cancelled_net second_call_throws (\<lambda>i k. k) (js ''list vms'')
     example_engine)) = [UserText (js ''list vms'')] \<and>
   emitted (snd (call_adapter example_runtime cancelled_net 0 (chat_start (js ''list vms'') example_engine)))
     = [TextDelta (js ''Hel'')] \<and>
   fst (chat example_runtime cancelled_at_fetch second_call_throws (\<lambda>i k. k) (js ''list vms'') example_engine)
     = Inr STOPPED"
proof -
  let ?e = "chat_start (js ''list vms'') example_engine"
  have pre: "0 < maxRounds" "\<not> signal_aborted ?e" "abortController ?e"
    "time_at_round cancelled_net 0 - start_time cancelled_net \<le> timeoutMs"
    "time_at_round cancelled_at_fetch 0 - start_time cancelled_at_fetch \<le> timeoutMs"
    by (simp_all add: maxRounds_def example_start cancelled_net_def cancelled_at_fetch_def timeoutMs_def)
  have ad: "call_adapter example_runtime cancelled_net 0 ?e =
      (Inl AbortError, (emit (TextDelta (js ''Hel'')) ?e)\<lparr>signal_aborted := True, abortController := False\<rparr>)"
    using example_start [of "js ''list vms''"]
    by (simp add: call_adapter_def callOpenAIStream_def cancelled_net_def await_signal_def abort_def
        nonempty_def or_else_def openai_catch_def emit_def)
  then have s: "signal_aborted (snd (call_adapter example_runtime cancelled_net 0 ?e))"
    by simp
  have c: "cancel_during cancelled_at_fetch 0 AwaitFetch"
    by (simp add: cancelled_at_fetch_def)
  note T1 = cancel_resolves_stopped [of 0 ?e cancelled_net example_runtime second_call_throws "\<lambda>i k. k",
      OF pre(1) pre(2) pre(3) pre(4)]
  note T2 = cancel_resolves_stopped [of 0 ?e cancelled_at_fetch example_runtime second_call_throws "\<lambda>i k. k",
      OF pre(1) pre(2) pre(3) pre(5)]
  from conjunct2 [OF T1, THEN mp, OF s]
  have 1: "fst (chat example_runtime cancelled_net second_call_throws (\<lambda>i k. k) (js ''list vms'') example_engine)
     = Inr STOPPED"
    and 2: "messages (snd (chat example_runtime cancelled_net second_call_throws (\<lambda>i k. k) (js ''list vms'')
     example_engine)) = [UserText (js ''list vms'')]"
    by (simp_all add: chat_eq example_start)
  from conjunct2 [OF T2, THEN mp, OF conjunct1 [OF T2, THEN mp, OF c]]
  have 3: "fst (chat example_runtime cancelled_at_fetch second_call_throws (\<lambda>i k. k) (js ''list vms'') example_engine)
     = Inr STOPPED"
    by (simp add: chat_eq)
  have 4: "emitted (snd (call_adapter example_runtime cancelled_net 0 ?e)) = [TextDelta (js ''Hel'')]"
    unfolding ad by (simp add: emit_def chat_start_def example_engine_def)
  from 1 2 3 4 show ?thesis by simp
qed


section \<open>Streamed tool-call arguments\<close>



end
